theory Spec2Isabelle
  imports Complex_Main "HOL-Library.Char_ord" "HOL-Library.List_Lexorder" "HOL-Library.Sublist"
begin

section \<open>JavaScript values\<close>

text \<open>
  A JavaScript \<^verbatim>\<open>number\<close> is an IEEE 754 double: a finite value, \<^verbatim>\<open>NaN\<close> or one of the
  two infinities. A finite value is carried as the real number it denotes; the two zeros
  are one value. Comparisons, \<^verbatim>\<open>Math.round\<close> and \<^verbatim>\<open>Math.floor\<close> are exact on doubles.
  Division, multiplication and subtraction round their exact result to the nearest double
  (\<open>toDouble\<close> below) and overflow to an infinity.
\<close>

datatype number = Finite real | NaN | PosInfinity | NegInfinity

text \<open>\<^verbatim>\<open>T | null | undefined\<close>\<close>

datatype 'a nullable = Undefined | Null | Val 'a

text \<open>\<^verbatim>\<open>Number.isFinite\<close>\<close>

fun isFinite :: "number \<Rightarrow> bool" where
  "isFinite (Finite r) = True"
| "isFinite _ = False"

text \<open>The comparisons of JavaScript on numbers: every comparison with \<^verbatim>\<open>NaN\<close> is false.\<close>

fun js_lt :: "number \<Rightarrow> number \<Rightarrow> bool" where
  "js_lt NaN _ = False"
| "js_lt _ NaN = False"
| "js_lt (Finite a) (Finite b) = (a < b)"
| "js_lt (Finite a) PosInfinity = True"
| "js_lt (Finite a) NegInfinity = False"
| "js_lt PosInfinity _ = False"
| "js_lt NegInfinity NegInfinity = False"
| "js_lt NegInfinity _ = True"

fun js_le :: "number \<Rightarrow> number \<Rightarrow> bool" where
  "js_le NaN _ = False"
| "js_le _ NaN = False"
| "js_le a b = (a = b \<or> js_lt a b)"

definition js_gt :: "number \<Rightarrow> number \<Rightarrow> bool" where
  "js_gt a b = js_lt b a"

definition js_ge :: "number \<Rightarrow> number \<Rightarrow> bool" where
  "js_ge a b = js_le b a"

text \<open>\<^verbatim>\<open>Math.round\<close> rounds to the nearest integer, a tie towards plus infinity;
  \<^verbatim>\<open>Math.floor\<close> rounds down. Both leave the special values as they are.\<close>

fun math_round :: "number \<Rightarrow> number" where
  "math_round (Finite r) = Finite (of_int \<lfloor>r + 1 / 2\<rfloor>)"
| "math_round n = n"

fun math_floor :: "number \<Rightarrow> number" where
  "math_floor (Finite r) = Finite (of_int \<lfloor>r\<rfloor>)"
| "math_floor n = n"

text \<open>\<^verbatim>\<open>Math.max(a, b)\<close>: \<^verbatim>\<open>NaN\<close> as soon as one argument is.\<close>

fun math_max :: "number \<Rightarrow> number \<Rightarrow> number" where
  "math_max NaN _ = NaN"
| "math_max _ NaN = NaN"
| "math_max a b = (if js_lt a b then b else a)"

subsection \<open>Double-precision arithmetic\<close>

text \<open>
  \<open>pow2 k\<close> is \<open>2\<close> to the power \<open>k\<close>, for any integer \<open>k\<close>. \<open>roundHalfEven\<close> rounds a
  real to the nearest integer, a tie to the even one.
\<close>

definition pow2 :: "int \<Rightarrow> real" where
  "pow2 k = (if 0 \<le> k then 2 ^ nat k else 1 / 2 ^ nat (- k))"

definition roundHalfEven :: "real \<Rightarrow> int" where
  "roundHalfEven y =
     (let f = \<lfloor>y\<rfloor>; d = y - of_int f
      in if d < 1 / 2 then f
         else if 1 / 2 < d then f + 1
         else if even f then f else f + 1)"

text \<open>
  The binade of \<open>x \<ge> 0\<close>: the exponent \<open>e\<close> with \<open>2^e \<le> x < 2^(e+1)\<close>, searched upwards
  from 0 when \<open>1 \<le> x\<close> and downwards from -1 otherwise, and kept between -1022 (below
  which the doubles are subnormal and equally spaced) and 1024 (from where on a value
  overflows).
\<close>

function binadeUp :: "int \<Rightarrow> real \<Rightarrow> int" where
  "binadeUp k x = (if 1024 \<le> k \<or> x < pow2 (k + 1) then k else binadeUp (k + 1) x)"
  by pat_completeness auto
termination by (relation "measure (\<lambda>(k, x). nat (1024 - k))") auto

function binadeDown :: "int \<Rightarrow> real \<Rightarrow> int" where
  "binadeDown k x = (if k \<le> - 1022 \<or> pow2 k \<le> x then k else binadeDown (k - 1) x)"
  by pat_completeness auto
termination by (relation "measure (\<lambda>(k, x). nat (k + 1022))") auto

declare binadeUp.simps [simp del] binadeDown.simps [simp del]

definition binade :: "real \<Rightarrow> int" where
  "binade x = (if 1 \<le> x then binadeUp 0 x else binadeDown (- 1) x)"

text \<open>
  \<open>toDouble x\<close> is the result of an arithmetic operation whose exact value is \<open>x\<close>: the
  double nearest to \<open>x\<close>, a tie going to the one with an even significand (round to
  nearest, ties to even, the only rounding mode of JavaScript). A double of binade \<open>e\<close>
  is a multiple of \<open>2^(e - 52)\<close>, its significand having 53 bits; a rounded value of
  magnitude \<open>2^1024\<close> or more is an infinity.
\<close>

definition toDouble :: "real \<Rightarrow> number" where
  "toDouble x =
     (let q = pow2 (binade \<bar>x\<bar> - 52);
          r = of_int (roundHalfEven (x / q)) * q
      in if pow2 1024 \<le> r then PosInfinity
         else if r \<le> - pow2 1024 then NegInfinity
         else Finite r)"

text \<open>
  The operators \<^verbatim>\<open>/\<close>, \<^verbatim>\<open>*\<close> and \<^verbatim>\<open>-\<close> on numbers. A zero divisor counts as
  \<^verbatim>\<open>+0\<close>.
\<close>

fun js_divide :: "number \<Rightarrow> number \<Rightarrow> number" where
  "js_divide (Finite a) (Finite b) =
     (if b = 0 then (if a = 0 then NaN else if 0 < a then PosInfinity else NegInfinity)
      else toDouble (a / b))"
| "js_divide (Finite a) PosInfinity = Finite 0"
| "js_divide (Finite a) NegInfinity = Finite 0"
| "js_divide PosInfinity (Finite b) = (if 0 \<le> b then PosInfinity else NegInfinity)"
| "js_divide NegInfinity (Finite b) = (if 0 \<le> b then NegInfinity else PosInfinity)"
| "js_divide _ _ = NaN"

fun js_times :: "number \<Rightarrow> number \<Rightarrow> number" where
  "js_times (Finite a) (Finite b) = toDouble (a * b)"
| "js_times (Finite a) PosInfinity =
     (if a = 0 then NaN else if 0 < a then PosInfinity else NegInfinity)"
| "js_times (Finite a) NegInfinity =
     (if a = 0 then NaN else if 0 < a then NegInfinity else PosInfinity)"
| "js_times PosInfinity (Finite b) =
     (if b = 0 then NaN else if 0 < b then PosInfinity else NegInfinity)"
| "js_times NegInfinity (Finite b) =
     (if b = 0 then NaN else if 0 < b then NegInfinity else PosInfinity)"
| "js_times PosInfinity PosInfinity = PosInfinity"
| "js_times PosInfinity NegInfinity = NegInfinity"
| "js_times NegInfinity PosInfinity = NegInfinity"
| "js_times NegInfinity NegInfinity = PosInfinity"
| "js_times _ _ = NaN"

fun js_minus :: "number \<Rightarrow> number \<Rightarrow> number" where
  "js_minus (Finite a) (Finite b) = toDouble (a - b)"
| "js_minus (Finite a) PosInfinity = NegInfinity"
| "js_minus (Finite a) NegInfinity = PosInfinity"
| "js_minus PosInfinity (Finite b) = PosInfinity"
| "js_minus NegInfinity (Finite b) = NegInfinity"
| "js_minus PosInfinity NegInfinity = PosInfinity"
| "js_minus NegInfinity PosInfinity = NegInfinity"
| "js_minus _ _ = NaN"

text \<open>
  Any value of type \<^verbatim>\<open>unknown\<close>: the payloads the backend sends. An object is the list
  of its own properties; a property that is absent reads as \<^verbatim>\<open>undefined\<close>.
\<close>

datatype jsvalue =
    JUndefined
  | JNull
  | JBool bool
  | JNumber number
  | JString string
  | JArray "jsvalue list"
  | JObject "(string \<times> jsvalue) list"

definition getProp :: "(string \<times> jsvalue) list \<Rightarrow> string \<Rightarrow> jsvalue" where
  "getProp fs k = (case map_of fs k of None \<Rightarrow> JUndefined | Some v \<Rightarrow> v)"

subsection \<open>Strings\<close>

text \<open>
  Strings are lists of characters. \<^verbatim>\<open>trim\<close> and \<^verbatim>\<open>toLowerCase\<close> are modelled on
  ASCII: the white space is the space and the control characters 9 to 13, the letters
  \<^verbatim>\<open>A\<close> to \<^verbatim>\<open>Z\<close> are lowered, every other character is kept.
\<close>

definition isSpace :: "char \<Rightarrow> bool" where
  "isSpace c = (c \<in> set [CHR '' '', CHR 0x09, CHR 0x0A, CHR 0x0B, CHR 0x0C, CHR 0x0D])"

definition trim :: "string \<Rightarrow> string" where
  "trim s = rev (dropWhile isSpace (rev (dropWhile isSpace s)))"

definition toLowerChar :: "char \<Rightarrow> char" where
  "toLowerChar c =
     (if CHR ''A'' \<le> c \<and> c \<le> CHR ''Z'' then char_of (of_char c + (32::nat)) else c)"

definition toLowerCase :: "string \<Rightarrow> string" where
  "toLowerCase s = map toLowerChar s"

definition toUpperChar :: "char \<Rightarrow> char" where
  "toUpperChar c =
     (if CHR ''a'' \<le> c \<and> c \<le> CHR ''z'' then char_of (of_char c - (32::nat)) else c)"

definition toUpperCase :: "string \<Rightarrow> string" where
  "toUpperCase s = map toUpperChar s"

text \<open>\<^verbatim>\<open>s.includes(q)\<close>: \<open>q\<close> occurs in \<open>s\<close> as a contiguous substring.\<close>

fun includes_str :: "string \<Rightarrow> string \<Rightarrow> bool" where
  "includes_str [] q = (q = [])"
| "includes_str (c # cs) q = (prefix q (c # cs) \<or> includes_str cs q)"

text \<open>\<^verbatim>\<open>s?.trim()\<close>: \<^verbatim>\<open>undefined\<close> (here \<open>None\<close>) when \<open>s\<close> is null or undefined.\<close>

fun optTrim :: "string nullable \<Rightarrow> string option" where
  "optTrim (Val s) = Some (trim s)"
| "optTrim _ = None"

text \<open>\<^verbatim>\<open>a || b\<close> on strings that may be undefined: the empty string is falsy.\<close>

fun truthyStr :: "string option \<Rightarrow> bool" where
  "truthyStr (Some s) = (s \<noteq> [])"
| "truthyStr None = False"

definition orStr :: "string option \<Rightarrow> string option \<Rightarrow> string option" where
  "orStr a b = (if truthyStr a then a else b)"

definition orDefault :: "string option \<Rightarrow> string \<Rightarrow> string" where
  "orDefault a d = (case a of Some s \<Rightarrow> if s \<noteq> [] then s else d | None \<Rightarrow> d)"

text \<open>\<^verbatim>\<open>a ?? b\<close>: \<open>b\<close> when \<open>a\<close> is null or undefined.\<close>

fun nullish :: "'a nullable \<Rightarrow> 'a nullable \<Rightarrow> 'a nullable" where
  "nullish (Val a) b = Val a"
| "nullish _ b = b"

text \<open>\<^verbatim>\<open>a || b\<close> on strings that may be null or undefined.\<close>

fun orNullable :: "string nullable \<Rightarrow> string nullable \<Rightarrow> string nullable" where
  "orNullable (Val s) b = (if s \<noteq> [] then Val s else b)"
| "orNullable _ b = b"

section \<open>Parsing utilities\<close>

text \<open>
  \<^verbatim>\<open>Number(s)\<close> on a string, \<^verbatim>\<open>Date.parse(s)\<close> and the conversion of a number to
  a string (in a template literal) and \<^verbatim>\<open>a.localeCompare(b)\<close> belong to the JavaScript runtime; the code that uses
  them takes them as parameters.
\<close>

record js_runtime =
  numberOfString :: "string \<Rightarrow> number"
  dateParse :: "string \<Rightarrow> number"
  numberToString :: "number \<Rightarrow> string"
  localeCompare :: "string \<Rightarrow> string \<Rightarrow> real"

fun isRecord :: "jsvalue \<Rightarrow> bool" where
  "isRecord (JObject fs) = True"
| "isRecord _ = False"

fun toNumber :: "js_runtime \<Rightarrow> jsvalue \<Rightarrow> real option" where
  "toNumber P (JNumber v) = (case v of Finite r \<Rightarrow> Some r | _ \<Rightarrow> None)"
| "toNumber P (JString s) =
     (case numberOfString P (trim s) of Finite r \<Rightarrow> Some r | _ \<Rightarrow> None)"
| "toNumber P _ = None"

fun first_defined :: "'a option list \<Rightarrow> 'a option" where
  "first_defined [] = None"
| "first_defined (Some x # rs) = Some x"
| "first_defined (None # rs) = first_defined rs"

definition timestampKeys :: "string list" where
  "timestampKeys = [''seconds'', ''unixSeconds'', ''unix'', ''timestamp'', ''value'']"

text \<open>
  \<^verbatim>\<open>normalizeTimestamp\<close>. A string takes the first branch of the source and returns
  there. Every other value goes through \<^verbatim>\<open>toNumber\<close>, which is null unless the value is
  a finite number, and then, when it is a record, through the candidate keys in their
  order, the first timestamp found being returned.
\<close>

function normalizeTimestamp :: "js_runtime \<Rightarrow> jsvalue \<Rightarrow> number option" where
  "normalizeTimestamp P (JString s) =
     (let trimmed = trim s in
      if trimmed = [] then None
      else (case numberOfString P trimmed of
              Finite asNumber \<Rightarrow>
                if asNumber \<le> 0 then None
                else if asNumber > 1000000000000
                  then Some (math_floor (js_divide (Finite asNumber) (Finite 1000)))
                else Some (math_floor (Finite asNumber))
            | _ \<Rightarrow>
                (case dateParse P trimmed of
                   Finite parsed \<Rightarrow>
                     if parsed > 0 then Some (math_floor (js_divide (Finite parsed) (Finite 1000)))
                     else None
                 | _ \<Rightarrow> None)))"
| "normalizeTimestamp P (JNumber v) =
     (case toNumber P (JNumber v) of
        Some n \<Rightarrow>
          if n \<le> 0 then None
          else if n > 1000000000000
            then Some (math_floor (js_divide (Finite n) (Finite 1000)))
          else Some (math_floor (Finite n))
      | None \<Rightarrow> None)"
| "normalizeTimestamp P (JObject fs) =
     first_defined (map (\<lambda>k. normalizeTimestamp P (getProp fs k)) timestampKeys)"
| "normalizeTimestamp P JUndefined = None"
| "normalizeTimestamp P JNull = None"
| "normalizeTimestamp P (JBool b) = None"
| "normalizeTimestamp P (JArray xs) = None"
  by pat_completeness auto
termination
proof (relation "measure (\<lambda>(P, v). size v)")
  show "wf (measure (\<lambda>(P, v). size v))" by simp
next
  fix P :: js_runtime and fs :: "(string \<times> jsvalue) list" and k :: string
  have "size (getProp fs k) < Suc (size_list (size_prod (\<lambda>_. 0) size) fs)"
  proof (induction fs)
    case Nil
    show ?case by (simp add: getProp_def)
  next
    case (Cons f fs)
    then show ?case by (cases f) (auto simp: getProp_def split: option.splits)
  qed
  then show "((P, getProp fs k), (P, JObject fs)) \<in> measure (\<lambda>(P, v). size v)"
    by simp
qed

text \<open>The exported \<^verbatim>\<open>clampPercent\<close> of the utilities: \<open>None\<close> is \<^verbatim>\<open>null\<close>.\<close>

fun clampPercent :: "number nullable \<Rightarrow> number option" where
  "clampPercent (Val v) =
     (if \<not> isFinite v then None
      else if js_lt v (Finite 0) then Some (Finite 0)
      else if js_gt v (Finite 100) then Some (Finite 100)
      else Some (math_round v))"
| "clampPercent _ = None"

section \<open>Credit metrics of the presentation builders\<close>

record CreditMetrics =
  usedPercent :: number
  used_c :: number
  total_c :: number
  left_c :: number

text \<open>\<^verbatim>\<open>toFiniteNumber\<close>: the finite number, or \<^verbatim>\<open>null\<close> (here \<open>None\<close>).\<close>

fun toFiniteNumber :: "number nullable \<Rightarrow> real option" where
  "toFiniteNumber (Val (Finite r)) = Some r"
| "toFiniteNumber _ = None"

text \<open>The \<^verbatim>\<open>clampPercent\<close> local to the presentation module.\<close>

definition clampPercent_local :: "number \<Rightarrow> number" where
  "clampPercent_local v =
     (if \<not> isFinite v then Finite 0
      else if js_le v (Finite 0) then Finite 0
      else if js_ge v (Finite 100) then Finite 100
      else math_round v)"

text \<open>\<^verbatim>\<open>x ?? 0\<close> on the result of \<^verbatim>\<open>toFiniteNumber\<close>.\<close>

definition orZero :: "real option \<Rightarrow> number" where
  "orZero x = (case x of None \<Rightarrow> Finite 0 | Some r \<Rightarrow> Finite r)"

definition buildCreditMetrics ::
  "number nullable \<Rightarrow> number nullable \<Rightarrow> number nullable \<Rightarrow> CreditMetrics" where
  "buildCreditMetrics u t l =
     (let safeUsed = toFiniteNumber u;
          safeTotal = toFiniteNumber t;
          safeLeft = toFiniteNumber l;
          pct = (case safeTotal of
                   None \<Rightarrow> Finite 0
                 | Some st \<Rightarrow>
                     if 0 < st then
                       (case safeUsed of
                          Some su \<Rightarrow>
                            clampPercent_local
                              (js_times (js_divide (Finite su) (Finite st)) (Finite 100))
                        | None \<Rightarrow>
                            (case safeLeft of
                               Some sl \<Rightarrow>
                                 clampPercent_local
                                   (js_times
                                      (js_divide (js_minus (Finite st) (Finite sl)) (Finite st))
                                      (Finite 100))
                             | None \<Rightarrow> Finite 0))
                     else Finite 0)
      in \<lparr> usedPercent = pct, used_c = orZero safeUsed,
           total_c = orZero safeTotal, left_c = orZero safeLeft \<rparr>)"

section \<open>The unified presentation\<close>

text \<open>
  The translation function \<^verbatim>\<open>t(key, defaultValue, options)\<close>; a call without a
  default or without options passes the empty string or the empty list.
\<close>

type_synonym Translate = "string \<Rightarrow> string \<Rightarrow> (string \<times> jsvalue) list \<Rightarrow> string"

text \<open>An optional field that is absent is \<open>None\<close>; an absent \<^verbatim>\<open>resetAt\<close> is
  \<^verbatim>\<open>undefined\<close>.\<close>

record UnifiedQuotaMetric =
  key :: string
  label :: string
  percentage :: number
  quotaClass :: string
  valueText :: string
  resetText :: "string option"
  resetAt :: jsvalue
  used_q :: "number option"
  total_q :: "number option"
  left_q :: "number option"

record UnifiedAccountPresentation =
  pres_id :: string
  displayName :: string
  planLabel :: string
  planClass :: string
  quotaItems :: "UnifiedQuotaMetric list"
  cycleText :: "string option"

record KiroAccountPresentation = UnifiedAccountPresentation +
  userIdText :: string
  signedInWithText :: string
  addOnExpiryText :: string
  accountStatus :: string
  accountStatusReason :: "string option"
  isBanned :: bool
  hasStatusError :: bool

record QuotaPreviewLine =
  line_key :: string
  line_label :: string
  line_percentage :: number
  line_quotaClass :: string
  line_text :: string

text \<open>The truthiness of a JavaScript value.\<close>

fun truthy :: "jsvalue \<Rightarrow> bool" where
  "truthy JUndefined = False"
| "truthy JNull = False"
| "truthy (JBool b) = b"
| "truthy (JNumber (Finite r)) = (r \<noteq> 0)"
| "truthy (JNumber NaN) = False"
| "truthy (JNumber _) = True"
| "truthy (JString s) = (s \<noteq> [])"
| "truthy (JArray xs) = True"
| "truthy (JObject fs) = True"

subsection \<open>Preview lines\<close>

text \<open>
  \<^verbatim>\<open>xs.slice(0, end)\<close>: the end is made an integer by truncation (\<^verbatim>\<open>NaN\<close> is 0), a
  negative end counts from the end of the array, and the result stops at the array's end.
\<close>

definition truncate_real :: "real \<Rightarrow> int" where
  "truncate_real r = (if 0 \<le> r then \<lfloor>r\<rfloor> else \<lceil>r\<rceil>)"

fun slice0 :: "'a list \<Rightarrow> number \<Rightarrow> 'a list" where
  "slice0 xs NaN = []"
| "slice0 xs PosInfinity = xs"
| "slice0 xs NegInfinity = []"
| "slice0 xs (Finite r) =
     (let k = truncate_real r in
      if k < 0 then take (nat (max (int (length xs) + k) 0)) xs
      else take (nat (min k (int (length xs)))) xs)"

text \<open>\<^verbatim>\<open>buildQuotaPreviewLines(quotaItems, limit = 3)\<close>: the limit is \<open>None\<close> when the
  caller leaves it out.\<close>

definition buildQuotaPreviewLines ::
  "UnifiedQuotaMetric list \<Rightarrow> number option \<Rightarrow> QuotaPreviewLine list" where
  "buildQuotaPreviewLines items arg =
     (let limit = (case arg of None \<Rightarrow> Finite 3 | Some n \<Rightarrow> n) in
      map (\<lambda>item. \<lparr> line_key = key item, line_label = label item,
                     line_percentage = percentage item, line_quotaClass = quotaClass item,
                     line_text = label item @ '' '' @ valueText item \<rparr>)
          (slice0 items (math_max (Finite 0) limit)))"

subsection \<open>Windsurf and Kiro\<close>

text \<open>
  The credits summary that \<^verbatim>\<open>getWindsurfCreditsSummary\<close> and
  \<^verbatim>\<open>getKiroCreditsSummary\<close> return: the fields the builders read.
\<close>

record CreditsSummary =
  planName :: "string nullable"
  promptCreditsUsed :: "number nullable"
  promptCreditsTotal :: "number nullable"
  promptCreditsLeft :: "number nullable"
  addOnCreditsUsed :: "number nullable"
  addOnCreditsTotal :: "number nullable"
  addOnCredits :: "number nullable"
  bonusExpireDays :: "number nullable"
  planEndsAt :: "number nullable"

text \<open>The truthiness of a number that may be null or undefined.\<close>

fun truthyNum :: "number nullable \<Rightarrow> bool" where
  "truthyNum (Val n) = truthy (JNumber n)"
| "truthyNum _ = False"

fun numValue :: "number nullable \<Rightarrow> jsvalue" where
  "numValue (Val n) = JNumber n"
| "numValue Null = JNull"
| "numValue Undefined = JUndefined"

definition planEndsUnknownText :: string where
  "planEndsUnknownText =
     [CHR 0xE9, CHR 0x85, CHR 0x8D, CHR 0xE9, CHR 0xA2, CHR 0x9D, CHR 0xE5, CHR 0x91,
      CHR 0xA8, CHR 0xE6, CHR 0x9C, CHR 0x9F, CHR 0xE6, CHR 0x97, CHR 0xB6, CHR 0xE9,
      CHR 0x97, CHR 0xB4, CHR 0xE6, CHR 0x9C, CHR 0xAA, CHR 0xE7, CHR 0x9F, CHR 0xA5]"

definition emDash :: string where
  "emDash = [CHR 0xE2, CHR 0x80, CHR 0x94]"

text \<open>One credit metric of Windsurf and Kiro, as both builders write it.\<close>

definition creditItem ::
  "js_runtime \<Rightarrow> (number \<Rightarrow> string) \<Rightarrow> string \<Rightarrow> string \<Rightarrow> CreditMetrics \<Rightarrow> UnifiedQuotaMetric"
  where
  "creditItem R quotaClassOf k lbl m =
     \<lparr> key = k, label = lbl, percentage = usedPercent m,
       quotaClass = quotaClassOf (usedPercent m),
       valueText = numberToString R (usedPercent m) @ ''%'',
       resetText = None, resetAt = JUndefined,
       used_q = Some (used_c m), total_q = Some (total_c m), left_q = Some (left_c m) \<rparr>"

record WindsurfAccount =
  ws_id :: string
  ws_email :: "string nullable"
  ws_plan_type :: "string nullable"
  ws_copilot_plan :: "string nullable"
  ws_payload :: jsvalue

text \<open>The helpers the Windsurf builder imports.\<close>

record windsurf_env =
  getWindsurfCreditsSummary :: "WindsurfAccount \<Rightarrow> CreditsSummary"
  getWindsurfPlanDisplayName :: "string nullable \<Rightarrow> string"
  getWindsurfAccountDisplayEmail :: "WindsurfAccount \<Rightarrow> string"
  getWindsurfQuotaClass :: "number \<Rightarrow> string"
  formatWindsurfResetTime :: "number \<Rightarrow> Translate \<Rightarrow> string"

definition buildWindsurfAccountPresentation ::
  "js_runtime \<Rightarrow> windsurf_env \<Rightarrow> WindsurfAccount \<Rightarrow> Translate \<Rightarrow> UnifiedAccountPresentation"
  where
  "buildWindsurfAccountPresentation R E account t =
     (let credits = getWindsurfCreditsSummary E account;
          normalizedPlan = getWindsurfPlanDisplayName E
            (nullish (nullish (nullish (ws_plan_type account) (ws_copilot_plan account))
               (planName credits)) Null);
          rawPlan = orStr (orStr (optTrim (ws_plan_type account))
                      (optTrim (ws_copilot_plan account))) (optTrim (planName credits));
          promptMetrics = buildCreditMetrics (promptCreditsUsed credits)
            (promptCreditsTotal credits) (promptCreditsLeft credits);
          addOnMetrics = buildCreditMetrics (addOnCreditsUsed credits)
            (addOnCreditsTotal credits) (addOnCredits credits)
      in \<lparr> pres_id = ws_id account,
           displayName = orDefault (optTrim (ws_email account))
             (getWindsurfAccountDisplayEmail E account),
           planLabel = orDefault rawPlan normalizedPlan,
           planClass = toLowerCase normalizedPlan,
           quotaItems =
             [creditItem R (getWindsurfQuotaClass E) ''prompt''
                (t ''common.shared.columns.promptCredits'' ''User Prompt credits'' [])
                promptMetrics,
              creditItem R (getWindsurfQuotaClass E) ''addon''
                (t ''common.shared.columns.addOnPromptCredits'' ''Add-on prompt credits'' [])
                addOnMetrics],
           cycleText = Some
             (case planEndsAt credits of
                Val ends \<Rightarrow>
                  if truthyNum (Val ends) then formatWindsurfResetTime E ends t
                  else t ''common.shared.credits.planEndsUnknown'' planEndsUnknownText []
              | _ \<Rightarrow> t ''common.shared.credits.planEndsUnknown'' planEndsUnknownText []) \<rparr>)"

record KiroAccount =
  kiro_id :: string
  kiro_plan_type :: "string nullable"
  kiro_plan_name :: "string nullable"
  kiro_plan_tier :: "string nullable"
  kiro_payload :: jsvalue

text \<open>The helpers the Kiro builder imports.\<close>

record kiro_env =
  getKiroCreditsSummary :: "KiroAccount \<Rightarrow> CreditsSummary"
  getKiroPlanDisplayName :: "string nullable \<Rightarrow> string"
  getKiroPlanBadgeClass :: "string \<Rightarrow> string"
  getKiroQuotaClass :: "number \<Rightarrow> string"
  getKiroAccountStatus :: "KiroAccount \<Rightarrow> string"
  getKiroAccountStatusReason :: "KiroAccount \<Rightarrow> string option"
  getKiroAccountLoginProvider :: "KiroAccount \<Rightarrow> string option"
  getKiroAccountDisplayEmail :: "KiroAccount \<Rightarrow> string"
  getKiroAccountDisplayUserId :: "KiroAccount \<Rightarrow> string"
  formatKiroResetTime :: "number \<Rightarrow> Translate \<Rightarrow> string"

definition shouldShowKiroAddOn :: "CreditMetrics \<Rightarrow> number nullable \<Rightarrow> bool" where
  "shouldShowKiroAddOn addOnMetrics days =
     (js_gt (left_c addOnMetrics) (Finite 0) \<or>
      js_gt (used_c addOnMetrics) (Finite 0) \<or>
      js_gt (total_c addOnMetrics) (Finite 0) \<or>
      (case days of Val d \<Rightarrow> isFinite d \<and> js_gt d (Finite 0) | _ \<Rightarrow> False))"

definition buildKiroAccountPresentation ::
  "js_runtime \<Rightarrow> kiro_env \<Rightarrow> KiroAccount \<Rightarrow> Translate \<Rightarrow> KiroAccountPresentation"
  where
  "buildKiroAccountPresentation R E account t =
     (let credits = getKiroCreditsSummary E account;
          normalizedPlan = getKiroPlanDisplayName E
            (nullish (nullish (nullish (nullish (kiro_plan_type account) (kiro_plan_name account))
               (kiro_plan_tier account)) (planName credits)) Null);
          rawPlan = orStr (orStr (optTrim (kiro_plan_type account))
                      (optTrim (kiro_plan_name account))) (optTrim (kiro_plan_tier account));
          promptMetrics = buildCreditMetrics (promptCreditsUsed credits)
            (promptCreditsTotal credits) (promptCreditsLeft credits);
          addOnMetrics = buildCreditMetrics (addOnCreditsUsed credits)
            (addOnCreditsTotal credits) (addOnCredits credits);
          showAddOn = shouldShowKiroAddOn addOnMetrics (bonusExpireDays credits);
          status = getKiroAccountStatus E account;
          statusReason = getKiroAccountStatusReason E account;
          provider = getKiroAccountLoginProvider E account;
          signedIn =
            (if truthyStr provider
             then t ''kiro.account.signedInWithProvider'' ''Signed in with {{provider}}''
                    [(''provider'', case provider of Some p \<Rightarrow> JString p | None \<Rightarrow> JUndefined)]
             else t ''kiro.account.signedInWithUnknown'' ''Signed in with unknown'' []);
          expiry =
            (case bonusExpireDays credits of
               Val (Finite d) \<Rightarrow>
                 t ''kiro.credits.expiryDays'' ''{{days}} days''
                   [(''days'', JNumber (math_max (Finite 0) (math_round (Finite d))))]
             | _ \<Rightarrow> t ''kiro.credits.expiryUnknown'' emDash []);
          items =
            [creditItem R (getKiroQuotaClass E) ''prompt''
               (t ''common.shared.columns.promptCredits'' ''User Prompt credits'' [])
               promptMetrics]
            @ (if showAddOn
               then [creditItem R (getKiroQuotaClass E) ''addon''
                       (t ''common.shared.columns.addOnPromptCredits'' ''Add-on prompt credits'' [])
                       addOnMetrics]
               else [])
      in \<lparr> pres_id = kiro_id account,
           displayName = getKiroAccountDisplayEmail E account,
           planLabel = orDefault rawPlan normalizedPlan,
           planClass = getKiroPlanBadgeClass E (orDefault rawPlan normalizedPlan),
           quotaItems = items,
           cycleText = Some
             (case planEndsAt credits of
                Val ends \<Rightarrow>
                  if truthyNum (Val ends) then formatKiroResetTime E ends t
                  else t ''common.shared.credits.planEndsUnknown'' planEndsUnknownText []
              | _ \<Rightarrow> t ''common.shared.credits.planEndsUnknown'' planEndsUnknownText []),
           userIdText = getKiroAccountDisplayUserId E account,
           signedInWithText = signedIn,
           addOnExpiryText = expiry,
           accountStatus = status,
           accountStatusReason = statusReason,
           isBanned = (status = ''banned''),
           hasStatusError = (status = ''error'') \<rparr>)"

subsection \<open>Codex\<close>

record CodexQuota =
  hourly_percentage :: "real nullable"
  weekly_percentage :: "real nullable"
  hourly_reset_time :: "real nullable"
  weekly_reset_time :: "real nullable"

record CodexAccount =
  cx_id :: string
  cx_email :: string
  cx_plan_type :: "string nullable"
  cx_created_at :: real
  cx_tags :: "string list nullable"
  cx_quota :: "CodexQuota nullable"

text \<open>A quota window, as \<^verbatim>\<open>getCodexQuotaWindows\<close> returns it.\<close>

record CodexQuotaWindow =
  win_id :: string
  win_label :: string
  win_percentage :: number
  win_resetTime :: jsvalue

record codex_env =
  getCodexPlanDisplayName :: "string nullable \<Rightarrow> string"
  getCodexQuotaWindows :: "CodexQuota nullable \<Rightarrow> CodexQuotaWindow list"
  getCodexQuotaClass :: "number \<Rightarrow> string"
  formatCodexResetTime :: "jsvalue \<Rightarrow> Translate \<Rightarrow> string"

definition buildCodexAccountPresentation ::
  "js_runtime \<Rightarrow> codex_env \<Rightarrow> CodexAccount \<Rightarrow> Translate \<Rightarrow> UnifiedAccountPresentation"
  where
  "buildCodexAccountPresentation R E account t =
     (let normalizedPlan = getCodexPlanDisplayName E (cx_plan_type account);
          rawPlan = optTrim (cx_plan_type account);
          items = map (\<lambda>w.
            \<lparr> key = win_id w, label = win_label w, percentage = win_percentage w,
              quotaClass = getCodexQuotaClass E (win_percentage w),
              valueText = numberToString R (win_percentage w) @ ''%'',
              resetText = Some (if truthy (win_resetTime w)
                                then formatCodexResetTime E (win_resetTime w) t else []),
              resetAt = win_resetTime w,
              used_q = None, total_q = None, left_q = None \<rparr>)
            (getCodexQuotaWindows E (cx_quota account))
      in \<lparr> pres_id = cx_id account,
           displayName = cx_email account,
           planLabel = orDefault rawPlan normalizedPlan,
           planClass = toLowerCase normalizedPlan,
           quotaItems = items,
           cycleText = None \<rparr>)"

subsection \<open>GitHub Copilot\<close>

record CopilotMetric =
  cm_valueText :: string
  cm_percentage :: number
  cm_quotaClass :: string

text \<open>\<^verbatim>\<open>Math.min\<close>, as \<^verbatim>\<open>Math.max\<close>.\<close>

fun math_min :: "number \<Rightarrow> number \<Rightarrow> number" where
  "math_min NaN _ = NaN"
| "math_min _ NaN = NaN"
| "math_min a b = (if js_lt b a then b else a)"

definition buildCopilotMetric ::
  "js_runtime \<Rightarrow> number nullable \<Rightarrow> bool option \<Rightarrow> (number \<Rightarrow> string) \<Rightarrow> string \<Rightarrow> CopilotMetric"
  where
  "buildCopilotMetric R pct included quotaClassGetter includedText =
     (if included = Some True then
        \<lparr> cm_valueText = includedText, cm_percentage = Finite 100,
          cm_quotaClass = quotaClassGetter (Finite 0) \<rparr>
      else (case pct of
              Val (Finite p) \<Rightarrow>
                (let normalized = math_max (Finite 0) (math_min (Finite 100) (math_round (Finite p)))
                 in \<lparr> cm_valueText = numberToString R normalized @ ''%'',
                      cm_percentage = normalized,
                      cm_quotaClass = quotaClassGetter normalized \<rparr>)
            | _ \<Rightarrow>
                \<lparr> cm_valueText = ''-'', cm_percentage = Finite 0,
                  cm_quotaClass = quotaClassGetter (Finite 0) \<rparr>))"

record CopilotQuota =
  gh_hourly_reset_time :: "number nullable"
  gh_weekly_reset_time :: "number nullable"

record GitHubCopilotAccount =
  gh_id :: string
  gh_email :: "string nullable"
  gh_github_email :: "string nullable"
  gh_github_login :: string
  gh_plan_type :: "string nullable"
  gh_copilot_plan :: "string nullable"
  gh_quota :: "CopilotQuota nullable"
  gh_payload :: jsvalue

record CopilotUsage =
  inlineSuggestionsUsedPercent :: "number nullable"
  chatMessagesUsedPercent :: "number nullable"
  premiumRequestsUsedPercent :: "number nullable"
  inlineIncluded :: "bool option"
  chatIncluded :: "bool option"
  premiumIncluded :: "bool option"
  allowanceResetAt :: "number nullable"

record copilot_env =
  getGitHubCopilotPlanDisplayName :: "string nullable \<Rightarrow> string"
  getGitHubCopilotUsage :: "GitHubCopilotAccount \<Rightarrow> CopilotUsage"
  getGitHubCopilotQuotaClass :: "number \<Rightarrow> string"
  formatGitHubCopilotResetTime :: "number \<Rightarrow> Translate \<Rightarrow> string"

text \<open>\<^verbatim>\<open>account.quota?.field\<close>\<close>

fun quotaField :: "('q \<Rightarrow> 'a nullable) \<Rightarrow> 'q nullable \<Rightarrow> 'a nullable" where
  "quotaField f (Val q) = f q"
| "quotaField f _ = Undefined"

text \<open>\<^verbatim>\<open>reset ? format(reset, t) : ''\<close>\<close>

fun resetTextOf :: "(number \<Rightarrow> Translate \<Rightarrow> string) \<Rightarrow> number nullable \<Rightarrow> Translate \<Rightarrow> string"
  where
  "resetTextOf fmt (Val n) t = (if truthyNum (Val n) then fmt n t else [])"
| "resetTextOf fmt _ t = []"

definition buildGitHubCopilotAccountPresentation ::
  "js_runtime \<Rightarrow> copilot_env \<Rightarrow> GitHubCopilotAccount \<Rightarrow> Translate \<Rightarrow> UnifiedAccountPresentation"
  where
  "buildGitHubCopilotAccountPresentation R E account t =
     (let name = (case nullish (gh_email account) (gh_github_email account) of
                    Val e \<Rightarrow> e | _ \<Rightarrow> gh_github_login account);
          normalizedPlan = getGitHubCopilotPlanDisplayName E
            (orNullable (gh_plan_type account) (gh_copilot_plan account));
          rawPlan = orStr (optTrim (gh_plan_type account)) (optTrim (gh_copilot_plan account));
          usage = getGitHubCopilotUsage E account;
          includedText = t ''githubCopilot.usage.included'' ''Included'' [];
          inline = buildCopilotMetric R (inlineSuggestionsUsedPercent usage)
            (inlineIncluded usage) (getGitHubCopilotQuotaClass E) includedText;
          chat = buildCopilotMetric R (chatMessagesUsedPercent usage)
            (chatIncluded usage) (getGitHubCopilotQuotaClass E) includedText;
          premium = buildCopilotMetric R (premiumRequestsUsedPercent usage)
            (premiumIncluded usage) (getGitHubCopilotQuotaClass E) includedText;
          inlineReset = nullish (nullish (quotaField gh_hourly_reset_time (gh_quota account))
            (allowanceResetAt usage)) Null;
          chatReset = nullish (nullish (quotaField gh_weekly_reset_time (gh_quota account))
            (allowanceResetAt usage)) Null
      in \<lparr> pres_id = gh_id account,
           displayName = name,
           planLabel = orDefault rawPlan normalizedPlan,
           planClass = toLowerCase normalizedPlan,
           quotaItems =
             [\<lparr> key = ''inline'',
                label = t ''common.shared.quota.hourly'' ''Inline Suggestions'' [],
                percentage = cm_percentage inline, quotaClass = cm_quotaClass inline,
                valueText = cm_valueText inline,
                resetText = Some (resetTextOf (formatGitHubCopilotResetTime E) inlineReset t),
                resetAt = numValue inlineReset,
                used_q = None, total_q = None, left_q = None \<rparr>,
              \<lparr> key = ''chat'',
                label = t ''common.shared.quota.weekly'' ''Chat messages'' [],
                percentage = cm_percentage chat, quotaClass = cm_quotaClass chat,
                valueText = cm_valueText chat,
                resetText = Some (resetTextOf (formatGitHubCopilotResetTime E) chatReset t),
                resetAt = numValue chatReset,
                used_q = None, total_q = None, left_q = None \<rparr>,
              \<lparr> key = ''premium'',
                label = t ''githubCopilot.columns.premium'' ''Premium requests'' [],
                percentage = cm_percentage premium, quotaClass = cm_quotaClass premium,
                valueText = cm_valueText premium,
                resetText = None, resetAt = JUndefined,
                used_q = None, total_q = None, left_q = None \<rparr>],
           cycleText = None \<rparr>)"

subsection \<open>Antigravity\<close>

record DisplayGroup =
  group_id :: string
  group_name :: string
  group_models :: "string list"

record AgQuotaDisplayItem =
  item_key :: string
  item_label :: string
  item_percentage :: number
  item_resetTime :: string

record Account =
  ag_id :: string
  ag_email :: string
  ag_quota :: jsvalue

text \<open>
  The helpers the Antigravity builder imports. The display items come from
  \<^verbatim>\<open>getAntigravityQuotaDisplayItems\<close>, which aggregates the quota of the models of each
  display group through the group service; the builder only maps over its result, and it
  is taken here as one more helper.
\<close>

record antigravity_env =
  getSubscriptionTier :: "jsvalue \<Rightarrow> string"
  getAntigravityQuotaDisplayItems :: "Account \<Rightarrow> DisplayGroup list \<Rightarrow> AgQuotaDisplayItem list"
  getAntigravityQuotaClass :: "number \<Rightarrow> string"
  formatResetTimeDisplay :: "string \<Rightarrow> Translate \<Rightarrow> string"

definition buildAntigravityAccountPresentation ::
  "js_runtime \<Rightarrow> antigravity_env \<Rightarrow> Account \<Rightarrow> DisplayGroup list \<Rightarrow> Translate
     \<Rightarrow> UnifiedAccountPresentation"
  where
  "buildAntigravityAccountPresentation R E account displayGroups t =
     (let normalizedTier = getSubscriptionTier E (ag_quota account);
          items = map (\<lambda>item.
            \<lparr> key = item_key item, label = item_label item,
              percentage = item_percentage item,
              quotaClass = getAntigravityQuotaClass E (item_percentage item),
              valueText = numberToString R (item_percentage item) @ ''%'',
              resetText = Some (if item_resetTime item \<noteq> []
                                then formatResetTimeDisplay E (item_resetTime item) t else []),
              resetAt = JString (item_resetTime item),
              used_q = None, total_q = None, left_q = None \<rparr>)
            (getAntigravityQuotaDisplayItems E account displayGroups)
      in \<lparr> pres_id = ag_id account,
           displayName = ag_email account,
           planLabel = normalizedTier,
           planClass = toLowerCase normalizedTier,
           quotaItems = items,
           cycleText = None \<rparr>)"

section \<open>The Codex accounts page\<close>

subsection \<open>Sorting an array with a comparator\<close>

text \<open>
  \<^verbatim>\<open>Array.prototype.sort(cmp)\<close> is a stable sort: \<open>a\<close> comes after \<open>b\<close> when
  \<open>cmp a b > 0\<close>, and elements that compare equal keep their order. For a comparator that
  is a consistent ordering, every stable sort returns the same array; it is modelled by
  insertion, each element being inserted in front of the sorted rest of the array.
\<close>

fun js_insert :: "('a \<Rightarrow> 'a \<Rightarrow> real) \<Rightarrow> 'a \<Rightarrow> 'a list \<Rightarrow> 'a list" where
  "js_insert cmp x [] = [x]"
| "js_insert cmp x (y # ys) = (if cmp x y > 0 then y # js_insert cmp x ys else x # y # ys)"

fun js_sort :: "('a \<Rightarrow> 'a \<Rightarrow> real) \<Rightarrow> 'a list \<Rightarrow> 'a list" where
  "js_sort cmp [] = []"
| "js_sort cmp (x # xs) = js_insert cmp x (js_sort cmp xs)"

subsection \<open>Filtering and sorting\<close>

datatype SortDirection = Asc | Desc

definition normalizeTag :: "string \<Rightarrow> string" where
  "normalizeTag tag = toLowerCase (trim tag)"

text \<open>\<^verbatim>\<open>a.tags || []\<close>\<close>

fun tagsOrEmpty :: "string list nullable \<Rightarrow> string list" where
  "tagsOrEmpty (Val ts) = ts"
| "tagsOrEmpty _ = []"

text \<open>\<^verbatim>\<open>x ?? null\<close> on a reset time, \<open>None\<close> being \<^verbatim>\<open>null\<close>.\<close>

fun orNull :: "real nullable \<Rightarrow> real option" where
  "orNull (Val r) = Some r"
| "orNull _ = None"

text \<open>\<^verbatim>\<open>x ?? -1\<close> on a percentage.\<close>

fun orMinusOne :: "real nullable \<Rightarrow> real" where
  "orMinusOne (Val r) = r"
| "orMinusOne _ = - 1"

text \<open>The reset time and the percentage that the comparator reads for a sort key.\<close>

definition codexResetOf :: "string \<Rightarrow> CodexAccount \<Rightarrow> real option" where
  "codexResetOf sortKey a =
     (if sortKey = ''weekly_reset'' then orNull (quotaField weekly_reset_time (cx_quota a))
      else orNull (quotaField hourly_reset_time (cx_quota a)))"

definition codexValueOf :: "string \<Rightarrow> CodexAccount \<Rightarrow> real" where
  "codexValueOf sortKey a =
     (if sortKey = ''weekly'' then orMinusOne (quotaField weekly_percentage (cx_quota a))
      else orMinusOne (quotaField hourly_percentage (cx_quota a)))"

text \<open>
  The comparator of the sort. The sort reads the sign of its result only, and the rounded
  difference of two doubles has the sign of the exact difference, so the differences are
  written as they are.
\<close>

definition codexCompare :: "string \<Rightarrow> SortDirection \<Rightarrow> CodexAccount \<Rightarrow> CodexAccount \<Rightarrow> real"
  where
  "codexCompare sortKey dir a b =
     (if sortKey = ''created_at'' then
        (let diff = cx_created_at b - cx_created_at a
         in if dir = Desc then diff else - diff)
      else if sortKey = ''weekly_reset'' \<or> sortKey = ''hourly_reset'' then
        (case (codexResetOf sortKey a, codexResetOf sortKey b) of
           (None, None) \<Rightarrow> 0
         | (None, Some bR) \<Rightarrow> 1
         | (Some aR, None) \<Rightarrow> - 1
         | (Some aR, Some bR) \<Rightarrow> if dir = Desc then bR - aR else aR - bR)
      else
        (let aV = codexValueOf sortKey a; bV = codexValueOf sortKey b
         in if dir = Desc then bV - aV else aV - bV))"

text \<open>
  The presentations of the accounts are memoised in a map from the account's id, filled
  in the order of the accounts; \<^verbatim>\<open>resolvePresentation\<close> reads the map and builds the
  presentation when the id is not there.
\<close>

definition accountPresentations ::
  "js_runtime \<Rightarrow> codex_env \<Rightarrow> Translate \<Rightarrow> CodexAccount list
     \<Rightarrow> (string \<times> UnifiedAccountPresentation) list" where
  "accountPresentations R E t accounts =
     rev (map (\<lambda>a. (cx_id a, buildCodexAccountPresentation R E a t)) accounts)"

definition resolvePresentation ::
  "js_runtime \<Rightarrow> codex_env \<Rightarrow> Translate \<Rightarrow> CodexAccount list \<Rightarrow> CodexAccount
     \<Rightarrow> UnifiedAccountPresentation" where
  "resolvePresentation R E t accounts a =
     (case map_of (accountPresentations R E t accounts) (cx_id a) of
        Some p \<Rightarrow> p
      | None \<Rightarrow> buildCodexAccountPresentation R E a t)"

definition resolvePlanKey ::
  "js_runtime \<Rightarrow> codex_env \<Rightarrow> Translate \<Rightarrow> CodexAccount list \<Rightarrow> CodexAccount \<Rightarrow> string"
  where
  "resolvePlanKey R E t accounts a = toUpperCase (planClass (resolvePresentation R E t accounts a))"

record PageState =
  searchQuery :: string
  filterType :: string
  tagFilter :: "string list"
  sortBy :: string
  sortDirection :: SortDirection
  groupByTag :: bool

definition filteredAccounts ::
  "js_runtime \<Rightarrow> codex_env \<Rightarrow> Translate \<Rightarrow> PageState \<Rightarrow> CodexAccount list
     \<Rightarrow> CodexAccount list" where
  "filteredAccounts R E t st accounts =
     (let r0 = accounts;
          r1 = (if trim (searchQuery st) \<noteq> [] then
                  (let query = toLowerCase (searchQuery st)
                   in filter (\<lambda>a. includes_str
                        (toLowerCase (displayName (resolvePresentation R E t accounts a))) query) r0)
                else r0);
          r2 = (if filterType st \<noteq> ''all''
                then filter (\<lambda>a. resolvePlanKey R E t accounts a = filterType st) r1
                else r1);
          r3 = (if tagFilter st \<noteq> [] then
                  (let selectedTags = set (map normalizeTag (tagFilter st))
                   in filter (\<lambda>a. \<exists>tag \<in> set (map normalizeTag (tagsOrEmpty (cx_tags a))).
                                  tag \<in> selectedTags) r2)
                else r2)
      in js_sort (codexCompare (sortBy st) (sortDirection st)) r3)"

subsection \<open>Grouping by tag\<close>

definition untaggedKey :: string where
  "untaggedKey = ''__untagged__''"

text \<open>
  The groups are a \<^verbatim>\<open>Map\<close>, which keeps its keys in the order of their insertion: a
  list of entries with distinct keys. \<^verbatim>\<open>mapPush\<close> is
  \<^verbatim>\<open>if (!groups.has(k)) groups.set(k, []); groups.get(k)?.push(a)\<close>.
\<close>

fun mapPush :: "(string \<times> 'a list) list \<Rightarrow> string \<Rightarrow> 'a \<Rightarrow> (string \<times> 'a list) list" where
  "mapPush [] k a = [(k, [a])]"
| "mapPush ((k', xs) # g) k a =
     (if k' = k then (k', xs @ [a]) # g else (k', xs) # mapPush g k a)"

definition matchedTagsOf :: "string list \<Rightarrow> CodexAccount \<Rightarrow> string list" where
  "matchedTagsOf tf a =
     (let selectedTags = set (map normalizeTag tf);
          tags = filter (\<lambda>tag. tag \<noteq> []) (map normalizeTag (tagsOrEmpty (cx_tags a)))
      in if tf \<noteq> [] then filter (\<lambda>tag. tag \<in> selectedTags) tags else tags)"

definition groupStep ::
  "string list \<Rightarrow> (string \<times> CodexAccount list) list \<Rightarrow> CodexAccount
     \<Rightarrow> (string \<times> CodexAccount list) list" where
  "groupStep tf groups a =
     (let matchedTags = matchedTagsOf tf a
      in if matchedTags = [] then mapPush groups untaggedKey a
         else foldl (\<lambda>g tag. mapPush g tag a) groups matchedTags)"

definition groupCompare ::
  "js_runtime \<Rightarrow> string \<times> 'a \<Rightarrow> string \<times> 'a \<Rightarrow> real" where
  "groupCompare R x y =
     (if fst x = untaggedKey then 1
      else if fst y = untaggedKey then - 1
      else localeCompare R (fst x) (fst y))"

definition groupedAccounts ::
  "js_runtime \<Rightarrow> PageState \<Rightarrow> CodexAccount list \<Rightarrow> (string \<times> CodexAccount list) list"
  where
  "groupedAccounts R st filtered =
     (if \<not> groupByTag st then []
      else js_sort (groupCompare R) (foldl (groupStep (tagFilter st)) [] filtered))"

section \<open>The sign-in flow of the shared provider-page hook\<close>

text \<open>
  The device-flow part of \<^verbatim>\<open>useProviderAccountsPage\<close> as a machine: a state and one
  function for each thing that can happen to it. The state has the React state of the
  add-modal and of the sign-in flow, the refs, and a record of the traffic with the
  backend: how many \<^verbatim>\<open>startLogin\<close> calls were made, the login ids passed to
  \<^verbatim>\<open>completeLogin\<close> and to \<^verbatim>\<open>cancelLogin\<close>, and how many promises of each kind have
  not settled yet (a call is in flight as long as its promise has not settled). The state
  that only feeds the display of the copy buttons, of the token input and of the polling
  interval takes no part in the flow and is left out.
\<close>

record OAuthStartResponse =
  loginId :: string
  userCode :: "string option"
  verificationUri :: "string option"
  verificationUriComplete :: "string option"
  authUrl :: "string option"

text \<open>
  What the hook gets from the page: whether an \<^verbatim>\<open>oauthService\<close> is configured, whether the
  page passes the same service object at every render (an object built anew at every
  render changes the identity of \<^verbatim>\<open>prepareOauthUrl\<close>, and the two effects of the flow
  then run after every render), the translation function, and the test of the pattern for
  a time-out in an error message.
\<close>

record hook_config =
  hasOauthService :: bool
  stableOauthService :: bool
  translate :: Translate
  timeoutPattern :: "string \<Rightarrow> bool"

record oauth_state =
  showAddModal :: bool
  addTab :: string
  addStatus :: string
  addMessage :: "string option"
  oauthUrl :: "string option"
  oauthUserCode :: "string option"
  oauthPrepareError :: "string option"
  oauthCompleteError :: "string option"
  oauthPolling :: bool
  oauthTimedOut :: bool
  showAddModalRef :: bool
  addTabRef :: string
  oauthActiveRef :: bool
  oauthLoginIdRef :: "string option"
  oauthCompletingRef :: bool
  renderedShow :: bool
  renderedTab :: string
  renderedUrl :: "string option"
  startCalls :: nat
  completeCalls :: "string list"
  cancelCalls :: "string list"
  fetchCalls :: nat
  pendingStart :: nat
  pendingComplete :: nat
  pendingFetch :: nat
  pendingTimers :: nat

definition initialState :: oauth_state where
  "initialState =
     \<lparr> showAddModal = False, addTab = ''oauth'', addStatus = ''idle'', addMessage = None,
       oauthUrl = None, oauthUserCode = None, oauthPrepareError = None,
       oauthCompleteError = None, oauthPolling = False, oauthTimedOut = False,
       showAddModalRef = False, addTabRef = ''oauth'', oauthActiveRef = False,
       oauthLoginIdRef = None, oauthCompletingRef = False,
       renderedShow = False, renderedTab = ''oauth'', renderedUrl = None,
       startCalls = 0, completeCalls = [], cancelCalls = [], fetchCalls = 0,
       pendingStart = 0, pendingComplete = 0, pendingFetch = 0, pendingTimers = 0 \<rparr>"

subsection \<open>The handlers\<close>

definition resetAddModalState :: "oauth_state \<Rightarrow> oauth_state" where
  "resetAddModalState s =
     s\<lparr> addStatus := ''idle'', addMessage := Some [], oauthUrl := None,
        oauthUserCode := None, oauthPrepareError := None, oauthCompleteError := None,
        oauthTimedOut := False, oauthPolling := False, oauthActiveRef := False \<rparr>"

definition openAddModal :: "string \<Rightarrow> oauth_state \<Rightarrow> oauth_state" where
  "openAddModal tab s = resetAddModalState (s\<lparr> addTab := tab, showAddModal := True \<rparr>)"

definition closeAddModal :: "oauth_state \<Rightarrow> oauth_state" where
  "closeAddModal s = resetAddModalState (s\<lparr> showAddModal := False \<rparr>)"

text \<open>\<^verbatim>\<open>String(e).replace(/^Error:\s*/, '')\<close>\<close>

definition stripErrorPrefix :: "string \<Rightarrow> string" where
  "stripErrorPrefix e = (if prefix ''Error:'' e then dropWhile isSpace (drop 6 e) else e)"

definition handleOauthPrepareError :: "hook_config \<Rightarrow> string \<Rightarrow> oauth_state \<Rightarrow> oauth_state" where
  "handleOauthPrepareError C e s =
     s\<lparr> oauthActiveRef := False, oauthCompletingRef := False, oauthPolling := False,
        oauthPrepareError :=
          Some (translate C ''common.shared.oauth.failed''
                  [CHR 0xE6, CHR 0x8E, CHR 0x88, CHR 0xE6, CHR 0x9D, CHR 0x83,
                   CHR 0xE5, CHR 0xA4, CHR 0xB1, CHR 0xE8, CHR 0xB4, CHR 0xA5] []
                @ '': '' @ stripErrorPrefix e) \<rparr>"

definition handleOauthCompleteError :: "hook_config \<Rightarrow> string \<Rightarrow> oauth_state \<Rightarrow> oauth_state" where
  "handleOauthCompleteError C e s =
     s\<lparr> oauthCompleteError := Some (stripErrorPrefix e),
        oauthTimedOut := timeoutPattern C (stripErrorPrefix e),
        oauthPolling := False, oauthCompletingRef := False, oauthActiveRef := False \<rparr>"

text \<open>
  \<^verbatim>\<open>prepareOauthUrl\<close>, up to the call of \<^verbatim>\<open>startLogin\<close>: the four guards, then the flag,
  the reset of the messages and the call, whose promise is pending from then on.
\<close>

definition prepareOauthUrl :: "hook_config \<Rightarrow> oauth_state \<Rightarrow> oauth_state" where
  "prepareOauthUrl C s =
     (if \<not> hasOauthService C then s
      else if \<not> showAddModalRef s \<or> addTabRef s \<noteq> ''oauth'' then s
      else if oauthActiveRef s then s
      else if oauthCompletingRef s then s
      else s\<lparr> oauthActiveRef := True, oauthPrepareError := None, oauthCompleteError := None,
              oauthTimedOut := False, oauthPolling := False, oauthUserCode := None,
              startCalls := startCalls s + 1, pendingStart := pendingStart s + 1 \<rparr>)"

text \<open>The URL that is shown:
  \<^verbatim>\<open>resp.verificationUriComplete || resp.verificationUri || resp.authUrl || ''\<close>.\<close>

definition responseUrl :: "OAuthStartResponse \<Rightarrow> string" where
  "responseUrl resp =
     orDefault (orStr (orStr (verificationUriComplete resp) (verificationUri resp))
                  (authUrl resp)) []"

text \<open>
  The callbacks chained on the promise of \<^verbatim>\<open>startLogin\<close>. When it resolves, the first
  callback stores the login id, shows the URL, sets the completion flag and calls
  \<^verbatim>\<open>completeLogin\<close>. When that resolves, the second callback clears the flag and awaits
  \<^verbatim>\<open>fetchAccounts\<close> in \<^verbatim>\<open>completeOauthSuccess\<close>; when that resolves, the success is
  shown and the timer that closes the modal is set. A rejection goes to the catch
  callback, which tells a failed start from a failed completion by the local flag
  \<^verbatim>\<open>started\<close>. The finally callback runs at the end of the chain.
\<close>

definition finallyCallback :: "oauth_state \<Rightarrow> oauth_state" where
  "finallyCallback s = s\<lparr> oauthActiveRef := False \<rparr>"

definition startLoginResolved :: "OAuthStartResponse \<Rightarrow> oauth_state \<Rightarrow> oauth_state" where
  "startLoginResolved resp s =
     s\<lparr> oauthLoginIdRef := Some (loginId resp), oauthUrl := Some (responseUrl resp),
        oauthUserCode := userCode resp, oauthPolling := True,
        oauthCompletingRef := True, oauthActiveRef := False,
        completeCalls := completeCalls s @ [loginId resp],
        pendingStart := pendingStart s - 1, pendingComplete := pendingComplete s + 1 \<rparr>"

definition startLoginRejected :: "hook_config \<Rightarrow> string \<Rightarrow> oauth_state \<Rightarrow> oauth_state" where
  "startLoginRejected C e s =
     finallyCallback (handleOauthPrepareError C e (s\<lparr> pendingStart := pendingStart s - 1 \<rparr>))"

definition completeLoginResolved :: "oauth_state \<Rightarrow> oauth_state" where
  "completeLoginResolved s =
     s\<lparr> oauthPolling := False, oauthCompletingRef := False,
        fetchCalls := fetchCalls s + 1,
        pendingComplete := pendingComplete s - 1, pendingFetch := pendingFetch s + 1 \<rparr>"

definition completeLoginRejected :: "hook_config \<Rightarrow> string \<Rightarrow> oauth_state \<Rightarrow> oauth_state" where
  "completeLoginRejected C e s =
     finallyCallback
       (handleOauthCompleteError C e (s\<lparr> pendingComplete := pendingComplete s - 1 \<rparr>))"

definition fetchAccountsResolved :: "hook_config \<Rightarrow> oauth_state \<Rightarrow> oauth_state" where
  "fetchAccountsResolved C s =
     finallyCallback
       (s\<lparr> addStatus := ''success'',
           addMessage := Some (translate C ''common.shared.oauth.success''
             [CHR 0xE6, CHR 0x8E, CHR 0x88, CHR 0xE6, CHR 0x9D, CHR 0x83,
              CHR 0xE6, CHR 0x88, CHR 0x90, CHR 0xE5, CHR 0x8A, CHR 0x9F] []),
           pendingFetch := pendingFetch s - 1, pendingTimers := pendingTimers s + 1 \<rparr>)"

definition fetchAccountsRejected :: "hook_config \<Rightarrow> string \<Rightarrow> oauth_state \<Rightarrow> oauth_state" where
  "fetchAccountsRejected C e s =
     finallyCallback
       (handleOauthCompleteError C e (s\<lparr> pendingFetch := pendingFetch s - 1 \<rparr>))"

text \<open>The timer set after a success: \<^verbatim>\<open>setShowAddModal(false); resetAddModalState()\<close>.\<close>

definition timerFired :: "oauth_state \<Rightarrow> oauth_state" where
  "timerFired s =
     resetAddModalState (s\<lparr> showAddModal := False, pendingTimers := pendingTimers s - 1 \<rparr>)"

definition handleRetryOauth :: "hook_config \<Rightarrow> oauth_state \<Rightarrow> oauth_state" where
  "handleRetryOauth C s =
     prepareOauthUrl C
       (s\<lparr> oauthActiveRef := False, oauthLoginIdRef := None, oauthCompletingRef := False,
           oauthPrepareError := None, oauthCompleteError := None, oauthTimedOut := False,
           oauthPolling := False, oauthUrl := None, oauthUserCode := None \<rparr>)"

subsection \<open>The effects\<close>

text \<open>
  The three effects, in the order of their declaration: the one that copies the state of
  the modal into the refs, the one that prepares the sign-in when the modal is open on the
  oauth tab without a URL, and the one that cancels when the modal is closed or on another
  tab while a login id is held.
\<close>

definition syncRefs :: "oauth_state \<Rightarrow> oauth_state" where
  "syncRefs s = s\<lparr> showAddModalRef := showAddModal s, addTabRef := addTab s \<rparr>"

definition autoPrepareEffect :: "hook_config \<Rightarrow> oauth_state \<Rightarrow> oauth_state" where
  "autoPrepareEffect C s =
     (if \<not> showAddModal s \<or> addTab s \<noteq> ''oauth'' \<or> truthyStr (oauthUrl s) then s
      else prepareOauthUrl C s)"

definition cancelEffect :: "hook_config \<Rightarrow> oauth_state \<Rightarrow> oauth_state" where
  "cancelEffect C s =
     (if showAddModal s \<and> addTab s = ''oauth'' then s
      else if \<not> truthyStr (oauthLoginIdRef s) then s
      else s\<lparr> cancelCalls :=
                (if hasOauthService C
                 then cancelCalls s @ [case oauthLoginIdRef s of Some l \<Rightarrow> l | None \<Rightarrow> []]
                 else cancelCalls s),
              oauthActiveRef := False, oauthLoginIdRef := None, oauthCompletingRef := False,
              oauthUrl := None, oauthUserCode := None, oauthPrepareError := None,
              oauthCompleteError := None, oauthTimedOut := False, oauthPolling := False \<rparr>)"

text \<open>
  A render followed by its effects. The refs are copied; the preparing effect runs when
  the modal flag, the tab or the URL changed since the last render, and the cancelling
  effect when the modal flag or the tab changed, or both at every render when the service
  object is not stable. The state that the effects set causes one more render, in which
  the effects change nothing; the dependencies recorded are those of that last render.
\<close>

definition render :: "hook_config \<Rightarrow> oauth_state \<Rightarrow> oauth_state" where
  "render C s =
     (let s1 = syncRefs s;
          s2 = (if \<not> stableOauthService C
                    \<or> showAddModal s \<noteq> renderedShow s \<or> addTab s \<noteq> renderedTab s
                    \<or> oauthUrl s \<noteq> renderedUrl s
                then autoPrepareEffect C s1 else s1);
          s3 = (if \<not> stableOauthService C
                    \<or> showAddModal s \<noteq> renderedShow s \<or> addTab s \<noteq> renderedTab s
                then cancelEffect C s2 else s2)
      in s3\<lparr> renderedShow := showAddModal s3, renderedTab := addTab s3,
              renderedUrl := oauthUrl s3 \<rparr>)"

subsection \<open>Events and runs\<close>

text \<open>
  One event is one turn of the event loop: an action of the user, a render for a reason
  outside the flow, a backend promise that settles, or the timer. The callbacks of the
  event run to the end of their chain, then React renders and runs the effects. An event
  that needs a pending promise or a pending timer cannot happen without one
  (\<open>None\<close>).
\<close>

datatype event =
    OpenAddModal string
  | CloseAddModal
  | SetAddTab string
  | RetryOauth
  | Rerender
  | StartLoginResolved OAuthStartResponse
  | StartLoginRejected string
  | CompleteLoginResolved
  | CompleteLoginRejected string
  | FetchAccountsResolved
  | FetchAccountsRejected string
  | TimerFired

fun step :: "hook_config \<Rightarrow> event \<Rightarrow> oauth_state \<Rightarrow> oauth_state option" where
  "step C (OpenAddModal tab) s = Some (render C (openAddModal tab s))"
| "step C CloseAddModal s = Some (render C (closeAddModal s))"
| "step C (SetAddTab tab) s = Some (render C (s\<lparr> addTab := tab \<rparr>))"
| "step C RetryOauth s = Some (render C (handleRetryOauth C s))"
| "step C Rerender s = Some (render C s)"
| "step C (StartLoginResolved resp) s =
     (if pendingStart s = 0 then None else Some (render C (startLoginResolved resp s)))"
| "step C (StartLoginRejected e) s =
     (if pendingStart s = 0 then None else Some (render C (startLoginRejected C e s)))"
| "step C CompleteLoginResolved s =
     (if pendingComplete s = 0 then None else Some (render C (completeLoginResolved s)))"
| "step C (CompleteLoginRejected e) s =
     (if pendingComplete s = 0 then None else Some (render C (completeLoginRejected C e s)))"
| "step C FetchAccountsResolved s =
     (if pendingFetch s = 0 then None else Some (render C (fetchAccountsResolved C s)))"
| "step C (FetchAccountsRejected e) s =
     (if pendingFetch s = 0 then None else Some (render C (fetchAccountsRejected C e s)))"
| "step C TimerFired s =
     (if pendingTimers s = 0 then None else Some (render C (timerFired s)))"

fun run :: "hook_config \<Rightarrow> event list \<Rightarrow> oauth_state \<Rightarrow> oauth_state option" where
  "run C [] s = Some s"
| "run C (e # es) s = (case step C e s of None \<Rightarrow> None | Some s' \<Rightarrow> run C es s')"

text \<open>
  The events that are no action of the user on the modal: renders, backend answers (a
  start answer with a URL to show) and the timer.
\<close>

fun isPassive :: "event \<Rightarrow> bool" where
  "isPassive Rerender = True"
| "isPassive (StartLoginResolved resp) = (responseUrl resp \<noteq> [])"
| "isPassive (StartLoginRejected e) = True"
| "isPassive CompleteLoginResolved = True"
| "isPassive (CompleteLoginRejected e) = True"
| "isPassive FetchAccountsResolved = True"
| "isPassive (FetchAccountsRejected e) = True"
| "isPassive TimerFired = True"
| "isPassive _ = False"

fun isStartRejected :: "event \<Rightarrow> bool" where
  "isStartRejected (StartLoginRejected e) = True"
| "isStartRejected _ = False"

section \<open>Auxiliary notions\<close>

text \<open>
  The normalised plan name of a Kiro account, as its builder computes it. The keys under
  which the grouping files an account, the list of the (key, account) pairs in the order
  in which they are pushed, and the bucket of a key in a map of groups: they serve the
  statements and the proofs about the groups. The next two are the invariant of the
  sign-in flow while nobody touches the modal, counted from the state in which the modal
  was opened (\<open>c0\<close> calls of \<^verbatim>\<open>completeLogin\<close> and \<open>b0\<close> calls of \<^verbatim>\<open>startLogin\<close> made
  before): at most one call is under way, a pending start holds the flag and an open
  modal, and once \<^verbatim>\<open>completeLogin\<close> was called the URL stays on display; and the count of
  the \<^verbatim>\<open>startLogin\<close> calls against the number of rejected ones. Then what holds in every
  state that the hook reaches: the dependencies recorded are those of the state, and the
  completion flag is only set while a \<^verbatim>\<open>completeLogin\<close> is pending. The last is the step
  of a render that records its dependencies.
\<close>

definition kiroNormalizedPlan :: "kiro_env \<Rightarrow> KiroAccount \<Rightarrow> string" where
  "kiroNormalizedPlan E account =
     getKiroPlanDisplayName E
       (nullish (nullish (nullish (nullish (kiro_plan_type account) (kiro_plan_name account))
          (kiro_plan_tier account)) (planName (getKiroCreditsSummary E account))) Null)"

definition groupKeysOf :: "string list \<Rightarrow> CodexAccount \<Rightarrow> string list" where
  "groupKeysOf tf a = (if matchedTagsOf tf a = [] then [untaggedKey] else matchedTagsOf tf a)"

definition groupPairs :: "string list \<Rightarrow> CodexAccount list \<Rightarrow> (string \<times> CodexAccount) list" where
  "groupPairs tf xs = concat (map (\<lambda>a. map (\<lambda>k. (k, a)) (groupKeysOf tf a)) xs)"

definition pushAll :: "(string \<times> 'a list) list \<Rightarrow> (string \<times> 'a) list \<Rightarrow> (string \<times> 'a list) list" where
  "pushAll g ps = foldl (\<lambda>g p. mapPush g (fst p) (snd p)) g ps"

definition bucketOf :: "(string \<times> 'a list) list \<Rightarrow> string \<Rightarrow> 'a list" where
  "bucketOf g k = (case map_of g k of None \<Rightarrow> [] | Some xs \<Rightarrow> xs)"

definition flowInv :: "nat \<Rightarrow> oauth_state \<Rightarrow> bool" where
  "flowInv c0 s \<longleftrightarrow>
     addTab s = ''oauth''
     \<and> c0 \<le> length (completeCalls s)
     \<and> pendingStart s + length (completeCalls s) \<le> c0 + 1
     \<and> pendingComplete s + pendingFetch s + pendingTimers s + c0 \<le> length (completeCalls s)
     \<and> (pendingStart s = 1 \<longrightarrow> oauthActiveRef s \<and> showAddModal s)
     \<and> (c0 < length (completeCalls s) \<and> showAddModal s \<longrightarrow> truthyStr (oauthUrl s))"

definition startBudget :: "nat \<Rightarrow> nat \<Rightarrow> oauth_state \<Rightarrow> nat \<Rightarrow> bool" where
  "startBudget c0 b0 s n \<longleftrightarrow>
     startCalls s + (if pendingStart s = 0 \<and> length (completeCalls s) = c0 then 1 else 0)
       \<le> b0 + 1 + n"

definition reachInv :: "oauth_state \<Rightarrow> bool" where
  "reachInv s \<longleftrightarrow>
     renderedShow s = showAddModal s
     \<and> (oauthCompletingRef s \<longrightarrow> 0 < pendingComplete s)"

definition recordDeps :: "oauth_state \<Rightarrow> oauth_state" where
  "recordDeps s = s\<lparr> renderedShow := showAddModal s, renderedTab := addTab s,
                      renderedUrl := oauthUrl s \<rparr>"

section \<open>Example inputs\<close>

text \<open>
  Concrete values at which the theorems below are instantiated: a translation function
  that returns the default text, a runtime that prints natural numbers and compares strings
  by their character codes, and small helper tables standing for the helpers that the
  builders import.
\<close>

definition exampleTranslate :: Translate where
  "exampleTranslate k dflt opts = dflt"

fun showNat :: "nat \<Rightarrow> string" where
  "showNat n = (if n < 10 then [char_of (48 + n)] else showNat (n div 10) @ [char_of (48 + n mod 10)])"

definition exampleRuntime :: js_runtime where
  "exampleRuntime =
     \<lparr> numberOfString = (\<lambda>s. NaN), dateParse = (\<lambda>s. NaN),
       numberToString = (\<lambda>n. case n of Finite r \<Rightarrow> showNat (nat \<lfloor>r\<rfloor>) | _ \<Rightarrow> ''NaN''),
       localeCompare = (\<lambda>a b. if a < b then - 1 else if a = b then 0 else 1) \<rparr>"

definition examplePlanName :: "string nullable \<Rightarrow> string" where
  "examplePlanName p =
     (case p of Val s \<Rightarrow> if includes_str (toUpperCase s) ''PRO'' then ''PRO'' else ''FREE''
      | _ \<Rightarrow> ''FREE'')"

definition exampleQuotaClass :: "number \<Rightarrow> string" where
  "exampleQuotaClass p = (if js_ge p (Finite 80) then ''high'' else ''low'')"

definition exampleCredits :: "number nullable \<Rightarrow> number nullable \<Rightarrow> CreditsSummary" where
  "exampleCredits addOn days =
     \<lparr> planName = Undefined,
       promptCreditsUsed = Val (Finite 30), promptCreditsTotal = Val (Finite 100),
       promptCreditsLeft = Undefined,
       addOnCreditsUsed = Val (Finite 0), addOnCreditsTotal = Val (Finite 0),
       addOnCredits = addOn, bonusExpireDays = days,
       planEndsAt = Null \<rparr>"

definition exampleKiroEnv :: "CreditsSummary \<Rightarrow> kiro_env" where
  "exampleKiroEnv credits =
     \<lparr> getKiroCreditsSummary = (\<lambda>a. credits),
       getKiroPlanDisplayName = examplePlanName,
       getKiroPlanBadgeClass = toLowerCase,
       getKiroQuotaClass = exampleQuotaClass,
       getKiroAccountStatus = (\<lambda>a. ''ok''),
       getKiroAccountStatusReason = (\<lambda>a. None),
       getKiroAccountLoginProvider = (\<lambda>a. Some ''github''),
       getKiroAccountDisplayEmail = kiro_id,
       getKiroAccountDisplayUserId = kiro_id,
       formatKiroResetTime = (\<lambda>n t. ''soon'') \<rparr>"

definition exampleKiroAccount :: "string nullable \<Rightarrow> KiroAccount" where
  "exampleKiroAccount plan =
     \<lparr> kiro_id = ''k1'', kiro_plan_type = plan, kiro_plan_name = Undefined,
       kiro_plan_tier = Null, kiro_payload = JNull \<rparr>"

definition exampleKiroNamedAccount :: "string nullable \<Rightarrow> string nullable \<Rightarrow> KiroAccount" where
  "exampleKiroNamedAccount plan name =
     \<lparr> kiro_id = ''k2'', kiro_plan_type = plan, kiro_plan_name = name,
       kiro_plan_tier = Undefined, kiro_payload = JNull \<rparr>"

definition exampleCodexEnv :: codex_env where
  "exampleCodexEnv =
     \<lparr> getCodexPlanDisplayName = examplePlanName,
       getCodexQuotaWindows = (\<lambda>q. []),
       getCodexQuotaClass = exampleQuotaClass,
       formatCodexResetTime = (\<lambda>v t. ''soon'') \<rparr>"

definition exampleCopilotEnv :: copilot_env where
  "exampleCopilotEnv =
     \<lparr> getGitHubCopilotPlanDisplayName = examplePlanName,
       getGitHubCopilotUsage = (\<lambda>a.
         \<lparr> inlineSuggestionsUsedPercent = Val (Finite 12), chatMessagesUsedPercent = Null,
           premiumRequestsUsedPercent = Undefined, inlineIncluded = None,
           chatIncluded = Some True, premiumIncluded = Some False,
           allowanceResetAt = Null \<rparr>),
       getGitHubCopilotQuotaClass = exampleQuotaClass,
       formatGitHubCopilotResetTime = (\<lambda>n t. ''soon'') \<rparr>"

definition exampleWindsurfEnv :: "CreditsSummary \<Rightarrow> windsurf_env" where
  "exampleWindsurfEnv credits =
     \<lparr> getWindsurfCreditsSummary = (\<lambda>a. credits),
       getWindsurfPlanDisplayName = examplePlanName,
       getWindsurfAccountDisplayEmail = ws_id,
       getWindsurfQuotaClass = exampleQuotaClass,
       formatWindsurfResetTime = (\<lambda>n t. ''soon'') \<rparr>"

definition exampleAntigravityEnv :: antigravity_env where
  "exampleAntigravityEnv =
     \<lparr> getSubscriptionTier = (\<lambda>q. if q = JNull then ''FREE'' else ''PRO''),
       getAntigravityQuotaDisplayItems = (\<lambda>a groups. []),
       getAntigravityQuotaClass = exampleQuotaClass,
       formatResetTimeDisplay = (\<lambda>s t. ''soon'') \<rparr>"

definition exampleCodexAccount ::
  "string \<Rightarrow> real \<Rightarrow> string nullable \<Rightarrow> string list nullable \<Rightarrow> CodexQuota nullable \<Rightarrow> CodexAccount"
  where
  "exampleCodexAccount i created plan tags q =
     \<lparr> cx_id = i, cx_email = i @ ''@example.com'', cx_plan_type = plan,
       cx_created_at = created, cx_tags = tags, cx_quota = q \<rparr>"

definition exampleCopilotAccount :: "string nullable \<Rightarrow> GitHubCopilotAccount" where
  "exampleCopilotAccount plan =
     \<lparr> gh_id = ''g1'', gh_email = Null, gh_github_email = Undefined, gh_github_login = ''octo'',
       gh_plan_type = plan, gh_copilot_plan = Val ''business'', gh_quota = Undefined,
       gh_payload = JNull \<rparr>"

definition exampleWindsurfAccount :: "string nullable \<Rightarrow> WindsurfAccount" where
  "exampleWindsurfAccount plan =
     \<lparr> ws_id = ''w1'', ws_email = Val '' w@example.com '', ws_plan_type = plan,
       ws_copilot_plan = Undefined, ws_payload = JNull \<rparr>"

definition exampleAccount :: Account where
  "exampleAccount = \<lparr> ag_id = ''a1'', ag_email = ''a@example.com'', ag_quota = JObject [] \<rparr>"

definition exampleMetric :: "string \<Rightarrow> string \<Rightarrow> string \<Rightarrow> UnifiedQuotaMetric" where
  "exampleMetric k lbl txt =
     \<lparr> key = k, label = lbl, percentage = Finite 30, quotaClass = ''low'', valueText = txt,
       resetText = None, resetAt = JUndefined, used_q = None, total_q = None, left_q = None \<rparr>"

definition exampleState :: "string \<Rightarrow> SortDirection \<Rightarrow> PageState" where
  "exampleState k dir =
     \<lparr> searchQuery = [], filterType = ''all'', tagFilter = [], sortBy = k,
       sortDirection = dir, groupByTag = True \<rparr>"

definition exampleQuota :: "real \<Rightarrow> real nullable \<Rightarrow> CodexQuota nullable" where
  "exampleQuota pct reset =
     Val \<lparr> hourly_percentage = Val pct, weekly_percentage = Val pct,
           hourly_reset_time = reset, weekly_reset_time = reset \<rparr>"

definition exampleAccounts :: "CodexAccount list" where
  "exampleAccounts =
     [exampleCodexAccount ''a1'' 1 Null (Val ['' X'', ''y'']) (exampleQuota 10 Null),
      exampleCodexAccount ''a2'' 3 Null Null (exampleQuota 50 (Val 200)),
      exampleCodexAccount ''a3'' 2 Null (Val [''b'', ''  '']) Undefined]"

definition exampleConfig :: "bool \<Rightarrow> hook_config" where
  "exampleConfig sameService =
     \<lparr> hasOauthService = True, stableOauthService = sameService, translate = exampleTranslate,
       timeoutPattern = (\<lambda>m. includes_str (toLowerCase m) ''timeout'') \<rparr>"

definition exampleResponse :: "string \<Rightarrow> OAuthStartResponse" where
  "exampleResponse l =
     \<lparr> loginId = l, userCode = Some ''ABCD'', verificationUri = Some ''https://example.com/device'',
       verificationUriComplete = None, authUrl = None \<rparr>"

definition exampleEarlierFlow :: "event list" where
  "exampleEarlierFlow =
     [OpenAddModal ''oauth'', StartLoginResolved (exampleResponse ''L0''),
      CompleteLoginResolved, FetchAccountsResolved, TimerFired]"

definition exampleFlow :: "event list" where
  "exampleFlow =
     [Rerender, StartLoginRejected ''Error: offline'', Rerender,
      StartLoginResolved (exampleResponse ''L1''), Rerender, Rerender,
      CompleteLoginResolved, Rerender, FetchAccountsResolved, TimerFired, Rerender]"

section \<open>Properties of the double-precision arithmetic\<close>

text \<open>
  The binade search finds the exponent, so \<open>toDouble\<close> rounds onto the grid of the
  doubles: inside the normal range the result is within a relative error of \<open>2^-53\<close>, a
  value that is a double already is returned unchanged, and a value of magnitude
  \<open>2^1024\<close> or more becomes an infinity.
\<close>

lemma pow2_powr: "pow2 k = 2 powr (of_int k)"
proof (cases "0 \<le> k")
  case True
  then show ?thesis by (simp add: pow2_def powr_realpow[symmetric])
next
  case False
  then have "pow2 k = 1 / 2 powr (of_int (- k))"
    by (simp add: pow2_def powr_realpow[symmetric])
  also have "\<dots> = 2 powr (of_int k)"
    by (simp add: powr_minus divide_inverse)
  finally show ?thesis .
qed

lemma pow2_pos: "0 < pow2 k"
  by (simp add: pow2_powr)

lemma pow2_less_iff: "pow2 a < pow2 b \<longleftrightarrow> a < b"
  by (simp add: pow2_powr)

lemma pow2_le_iff: "pow2 a \<le> pow2 b \<longleftrightarrow> a \<le> b"
  by (simp add: pow2_powr)

lemma pow2_add: "pow2 (a + b) = pow2 a * pow2 b"
  by (simp add: pow2_powr powr_add)

lemma pow2_0: "pow2 0 = 1"
  by (simp add: pow2_def)

lemma pow2_nat: "0 \<le> k \<Longrightarrow> pow2 k = 2 ^ nat k"
  by (simp add: pow2_def)

lemma pow2_between:
  assumes "pow2 a \<le> x" "x < pow2 b"
  shows "a < b"
  using assms pow2_less_iff[of a b] by linarith

lemma binadeUp_unique:
  "k \<le> e \<Longrightarrow> e \<le> 1023 \<Longrightarrow> pow2 e \<le> x \<Longrightarrow> x < pow2 (e + 1) \<Longrightarrow> binadeUp k x = e"
proof (induction k x rule: binadeUp.induct)
  case (1 k x)
  show ?case
  proof (cases "x < pow2 (k + 1)")
    case True
    with 1(4) have "e < k + 1" by (rule pow2_between)
    with 1(2) have "k = e" by simp
    moreover from True have "binadeUp k x = k" by (subst binadeUp.simps) simp
    ultimately show ?thesis by simp
  next
    case False
    then have "pow2 (k + 1) \<le> x" by simp
    from this 1(5) have "k + 1 < e + 1" by (rule pow2_between)
    then have ke: "k + 1 \<le> e" by simp
    with 1(3) have nk: "\<not> 1024 \<le> k" by simp
    from nk False have "binadeUp k x = binadeUp (k + 1) x"
      by (subst binadeUp.simps) simp
    also have "\<dots> = e"
      using 1(1) nk False ke 1(3,4,5) by simp
    finally show ?thesis .
  qed
qed

lemma binadeUp_high:
  "k \<le> 1024 \<Longrightarrow> pow2 1024 \<le> x \<Longrightarrow> binadeUp k x = 1024"
proof (induction k x rule: binadeUp.induct)
  case (1 k x)
  show ?case
  proof (cases "1024 \<le> k")
    case True
    with 1(2) have "k = 1024" by simp
    moreover from True have "binadeUp k x = k" by (subst binadeUp.simps) simp
    ultimately show ?thesis by simp
  next
    case False
    then have "k + 1 \<le> 1024" by simp
    then have "pow2 (k + 1) \<le> pow2 1024" by (simp add: pow2_le_iff)
    with 1(3) have nx: "\<not> x < pow2 (k + 1)" by simp
    from False nx have "binadeUp k x = binadeUp (k + 1) x"
      by (subst binadeUp.simps) simp
    also have "\<dots> = 1024"
      using 1(1) False nx 1(3) by simp
    finally show ?thesis .
  qed
qed

lemma binadeDown_unique:
  "e \<le> k \<Longrightarrow> - 1022 \<le> e \<Longrightarrow> pow2 e \<le> x \<Longrightarrow> x < pow2 (e + 1) \<Longrightarrow> x < pow2 (k + 1)
     \<Longrightarrow> binadeDown k x = e"
proof (induction k x rule: binadeDown.induct)
  case (1 k x)
  show ?case
  proof (cases "k \<le> - 1022 \<or> pow2 k \<le> x")
    case True
    have "k = e"
    proof (cases "k \<le> - 1022")
      case True
      with 1(2,3) show ?thesis by simp
    next
      case False
      with True have "pow2 k \<le> x" by simp
      from this 1(5) have "k < e + 1" by (rule pow2_between)
      with 1(2) show ?thesis by simp
    qed
    moreover from True have "binadeDown k x = k" by (subst binadeDown.simps) simp
    ultimately show ?thesis by simp
  next
    case False
    then have xk: "x < pow2 k" by simp
    from 1(4) xk have "e < k" by (rule pow2_between)
    then have ek: "e \<le> k - 1" by simp
    from False have "binadeDown k x = binadeDown (k - 1) x"
      by (subst binadeDown.simps) simp
    also have "\<dots> = e"
      using 1(1) False ek 1(3,4,5) xk by simp
    finally show ?thesis .
  qed
qed

lemma binadeDown_low:
  "- 1022 \<le> k \<Longrightarrow> x < pow2 (- 1022) \<Longrightarrow> binadeDown k x = - 1022"
proof (induction k x rule: binadeDown.induct)
  case (1 k x)
  show ?case
  proof (cases "k \<le> - 1022")
    case True
    with 1(2) have "k = - 1022" by simp
    moreover from True have "binadeDown k x = k" by (subst binadeDown.simps) simp
    ultimately show ?thesis by simp
  next
    case False
    then have "pow2 (- 1022) \<le> pow2 k" by (simp add: pow2_le_iff)
    with 1(3) have nx: "\<not> pow2 k \<le> x" by simp
    from False nx have "binadeDown k x = binadeDown (k - 1) x"
      by (subst binadeDown.simps) simp
    also have "\<dots> = - 1022"
      using 1(1) False nx 1(3) by simp
    finally show ?thesis .
  qed
qed

lemma binade_normal:
  assumes "- 1022 \<le> e" "e \<le> 1023" "pow2 e \<le> x" "x < pow2 (e + 1)"
  shows "binade x = e"
proof (cases "1 \<le> x")
  case True
  then have "pow2 0 \<le> x" by (simp add: pow2_0)
  from this assms(4) have "0 < e + 1" by (rule pow2_between)
  then have "0 \<le> e" by simp
  then have "binadeUp 0 x = e" using assms by (intro binadeUp_unique)
  with True show ?thesis by (simp add: binade_def)
next
  case False
  then have x0: "x < pow2 0" by (simp add: pow2_0)
  from assms(3) x0 have "e < 0" by (rule pow2_between)
  then have "e \<le> - 1" by simp
  then have "binadeDown (- 1) x = e"
    using assms x0 by (intro binadeDown_unique) simp_all
  with False show ?thesis by (simp add: binade_def)
qed

lemma binade_subnormal:
  assumes "x < pow2 (- 1022)"
  shows "binade x = - 1022"
proof -
  have "pow2 (- 1022) < pow2 0" by (simp add: pow2_less_iff)
  with assms have "\<not> 1 \<le> x" by (simp add: pow2_0)
  moreover have "binadeDown (- 1) x = - 1022"
    using assms by (intro binadeDown_low) simp_all
  ultimately show ?thesis by (simp add: binade_def)
qed

lemma binade_overflow:
  assumes "pow2 1024 \<le> x"
  shows "binade x = 1024"
proof -
  have "pow2 0 \<le> pow2 1024" by (simp add: pow2_le_iff)
  with assms have "1 \<le> x" by (simp add: pow2_0)
  moreover have "binadeUp 0 x = 1024"
    using assms by (intro binadeUp_high) simp_all
  ultimately show ?thesis by (simp add: binade_def)
qed

lemma binade_exists:
  assumes "pow2 (- 1022) \<le> x" "x < pow2 1024"
  shows "\<exists>e. - 1022 \<le> e \<and> e \<le> 1023 \<and> pow2 e \<le> x \<and> x < pow2 (e + 1)"
proof -
  from assms(1) have x: "0 < x" using pow2_pos[of "- 1022"] by linarith
  define e where "e = \<lfloor>log 2 x\<rfloor>"
  from x have "2 powr (of_int e) \<le> x \<and> x < 2 powr (of_int (e + 1))"
    using floor_log_eq_powr_iff[of x 2 e] by (simp add: e_def)
  then have b: "pow2 e \<le> x" "x < pow2 (e + 1)" by (simp_all add: pow2_powr)
  from assms(1) b(2) have "- 1022 < e + 1" by (rule pow2_between)
  moreover from b(1) assms(2) have "e < 1024" by (rule pow2_between)
  ultimately show ?thesis using b by (intro exI[of _ e]) simp
qed

lemma roundHalfEven_error: "\<bar>of_int (roundHalfEven y) - y\<bar> \<le> 1 / 2"
proof -
  have "of_int \<lfloor>y\<rfloor> \<le> y" "y < of_int \<lfloor>y\<rfloor> + 1" by linarith+
  then show ?thesis
    by (auto simp: roundHalfEven_def Let_def)
qed

lemma roundHalfEven_of_int: "roundHalfEven (of_int m) = m"
  by (simp add: roundHalfEven_def)

lemma roundHalfEven_mono_int:
  assumes "of_int a \<le> y" "y \<le> of_int b"
  shows "a \<le> roundHalfEven y" "roundHalfEven y \<le> b"
proof -
  from assms(1) have fa: "a \<le> \<lfloor>y\<rfloor>" by (simp add: le_floor_iff)
  then show "a \<le> roundHalfEven y" by (auto simp: roundHalfEven_def Let_def)
  show "roundHalfEven y \<le> b"
  proof (cases "y = of_int b")
    case True
    then show ?thesis by (simp add: roundHalfEven_of_int)
  next
    case False
    with assms(2) have "y < of_int b" by simp
    then have "\<lfloor>y\<rfloor> < b" by (simp add: floor_less_iff)
    then show ?thesis by (auto simp: roundHalfEven_def Let_def)
  qed
qed


lemma toDouble_normal:
  assumes "- 1022 \<le> e" "e \<le> 1023" "pow2 e \<le> \<bar>x\<bar>" "\<bar>x\<bar> < pow2 (e + 1)"
  shows "toDouble x =
    (let r = of_int (roundHalfEven (x / pow2 (e - 52))) * pow2 (e - 52)
     in if pow2 1024 \<le> r then PosInfinity
        else if r \<le> - pow2 1024 then NegInfinity
        else Finite r)"
  using binade_normal[OF assms] by (simp add: toDouble_def Let_def)

lemma rounded_bound:
  assumes "\<bar>x\<bar> \<le> pow2 (e + 1)"
  shows "\<bar>of_int (roundHalfEven (x / pow2 (e - 52))) * pow2 (e - 52)\<bar> \<le> pow2 (e + 1)"
proof -
  let ?q = "pow2 (e - 52)"
  have q: "0 < ?q" by (rule pow2_pos)
  have split: "pow2 (e + 1) = pow2 53 * ?q"
    unfolding pow2_add[symmetric] by (simp add: add.commute)
  have p53: "pow2 53 = of_int (2 ^ 53)" by (simp add: pow2_def)
  from assms have "\<bar>x / ?q\<bar> \<le> pow2 53"
    using q by (simp add: split pos_divide_le_eq abs_mult)
  then have lo: "- pow2 53 \<le> x / ?q" and hi: "x / ?q \<le> pow2 53" by linarith+
  from lo hi have "of_int (- (2 ^ 53)) \<le> x / ?q" "x / ?q \<le> of_int (2 ^ 53)"
    unfolding p53 by (simp_all only: of_int_minus)
  then have "- (2 ^ 53) \<le> roundHalfEven (x / ?q)" "roundHalfEven (x / ?q) \<le> 2 ^ 53"
    by (rule roundHalfEven_mono_int)+
  then have "\<bar>roundHalfEven (x / ?q)\<bar> \<le> 2 ^ 53" by simp
  then have "\<bar>of_int (roundHalfEven (x / ?q)) :: real\<bar> \<le> of_int (2 ^ 53)"
    by (metis of_int_abs of_int_le_iff)
  then have "\<bar>of_int (roundHalfEven (x / ?q)) :: real\<bar> * ?q \<le> pow2 53 * ?q"
    unfolding p53 using q by (intro mult_right_mono) simp_all
  then show ?thesis using q by (simp add: split abs_mult)
qed

lemma toDouble_finite:
  assumes "- 1022 \<le> e" "e \<le> 1022" "pow2 e \<le> \<bar>x\<bar>" "\<bar>x\<bar> < pow2 (e + 1)"
  shows "toDouble x = Finite (of_int (roundHalfEven (x / pow2 (e - 52))) * pow2 (e - 52))"
proof -
  let ?r = "of_int (roundHalfEven (x / pow2 (e - 52))) * pow2 (e - 52)"
  from assms(4) have "\<bar>?r\<bar> \<le> pow2 (e + 1)" by (intro rounded_bound) simp
  moreover from assms(2) have "pow2 (e + 1) < pow2 1024" by (simp add: pow2_less_iff)
  ultimately have "\<bar>?r\<bar> < pow2 1024" by simp
  then have "\<not> pow2 1024 \<le> ?r" "\<not> ?r \<le> - pow2 1024" by linarith+
  moreover from assms(2) have "e \<le> 1023" by simp
  ultimately show ?thesis
    using toDouble_normal[OF assms(1) _ assms(3,4)] by (simp add: Let_def)
qed

lemma toDouble_subnormal:
  assumes "\<bar>x\<bar> < pow2 (- 1022)"
  shows "toDouble x = Finite (of_int (roundHalfEven (x / pow2 (- 1074))) * pow2 (- 1074))"
proof -
  let ?r = "of_int (roundHalfEven (x / pow2 (- 1074))) * pow2 (- 1074)"
  have "pow2 (- 1022) < pow2 (- 1021)" by (simp add: pow2_less_iff)
  with assms have "\<bar>?r\<bar> \<le> pow2 (- 1021)"
    using rounded_bound[of x "- 1022"] by simp
  moreover have "pow2 (- 1021) < pow2 1024" by (simp add: pow2_less_iff)
  ultimately have "\<bar>?r\<bar> < pow2 1024" by simp
  then have "\<not> pow2 1024 \<le> ?r" "\<not> ?r \<le> - pow2 1024" by linarith+
  then show ?thesis
    using binade_subnormal[OF assms] by (simp add: toDouble_def Let_def)
qed

lemma toDouble_overflow:
  assumes "pow2 1024 \<le> \<bar>x\<bar>"
  shows "toDouble x = (if 0 < x then PosInfinity else NegInfinity)"
proof -
  let ?q = "pow2 972"
  let ?r = "of_int (roundHalfEven (x / ?q)) * ?q"
  have q: "0 < ?q" by (rule pow2_pos)
  have split: "pow2 1024 = pow2 52 * ?q"
    unfolding pow2_add[symmetric] by simp
  have p52: "pow2 52 = of_int (2 ^ 52)" by (simp add: pow2_def)
  have b: "binade \<bar>x\<bar> = 1024" using assms by (rule binade_overflow)
  show ?thesis
  proof (cases "0 < x")
    case True
    with assms have "pow2 52 * ?q \<le> x" by (simp add: split)
    then have "of_int (2 ^ 52) \<le> x / ?q"
      unfolding p52 using q by (simp add: pos_le_divide_eq)
    moreover have "x / ?q \<le> of_int \<lceil>x / ?q\<rceil>" by linarith
    ultimately have "2 ^ 52 \<le> roundHalfEven (x / ?q)"
      by (intro roundHalfEven_mono_int(1)[of _ _ "\<lceil>x / ?q\<rceil>"])
    then have "of_int (2 ^ 52) \<le> (of_int (roundHalfEven (x / ?q)) :: real)"
      by (metis of_int_le_iff)
    then have "pow2 52 * ?q \<le> ?r"
      unfolding p52 using q by (intro mult_right_mono) simp_all
    then have "pow2 1024 \<le> ?r" by (simp add: split)
    with True b show ?thesis by (simp add: toDouble_def Let_def)
  next
    case False
    with assms have "x \<le> - (pow2 52 * ?q)" by (simp add: split)
    then have "x / ?q \<le> of_int (- (2 ^ 52))"
      using q by (simp add: p52 pos_divide_le_eq)
    moreover have "of_int \<lfloor>x / ?q\<rfloor> \<le> x / ?q" by linarith
    ultimately have "roundHalfEven (x / ?q) \<le> - (2 ^ 52)"
      by (intro roundHalfEven_mono_int(2)[of "\<lfloor>x / ?q\<rfloor>"])
    then have "(of_int (roundHalfEven (x / ?q)) :: real) \<le> of_int (- (2 ^ 52))"
      by (metis of_int_le_iff)
    then have "?r \<le> of_int (- (2 ^ 52)) * ?q"
      using q by (intro mult_right_mono) simp_all
    then have r: "?r \<le> - pow2 1024" by (simp add: split p52)
    moreover have "0 < pow2 1024" by (rule pow2_pos)
    ultimately have "\<not> pow2 1024 \<le> ?r" by linarith
    with r False b show ?thesis by (simp add: toDouble_def Let_def)
  qed
qed

lemma toDouble_error:
  assumes "pow2 (- 1022) \<le> \<bar>x\<bar>" "toDouble x = Finite r"
  shows "\<bar>r - x\<bar> \<le> \<bar>x\<bar> / 2 ^ 53"
proof (cases "\<bar>x\<bar> < pow2 1024")
  case False
  then have "toDouble x = (if 0 < x then PosInfinity else NegInfinity)"
    by (intro toDouble_overflow) simp
  with assms(2) show ?thesis by (simp split: if_splits)
next
  case True
  with assms(1) obtain e where e: "- 1022 \<le> e" "e \<le> 1023" "pow2 e \<le> \<bar>x\<bar>" "\<bar>x\<bar> < pow2 (e + 1)"
    using binade_exists[of "\<bar>x\<bar>"] by blast
  let ?q = "pow2 (e - 52)"
  have q: "0 < ?q" by (rule pow2_pos)
  from assms(2) have r: "r = of_int (roundHalfEven (x / ?q)) * ?q"
    using toDouble_normal[OF e] by (simp add: Let_def split: if_splits)
  have "r - x = (of_int (roundHalfEven (x / ?q)) - x / ?q) * ?q"
    using q by (simp add: r algebra_simps)
  then have "\<bar>r - x\<bar> = \<bar>of_int (roundHalfEven (x / ?q)) - x / ?q\<bar> * ?q"
    using q by (simp add: abs_mult)
  also have "\<dots> \<le> 1 / 2 * ?q"
    using roundHalfEven_error[of "x / ?q"] q by (intro mult_right_mono) simp_all
  also have "\<dots> = pow2 e / 2 ^ 53"
    using pow2_add[of e "- 53"] pow2_add[of "e - 52" "- 1"] 
    by (simp add: pow2_def[of "- 53"] pow2_def[of "- 1"])
  also have "\<dots> \<le> \<bar>x\<bar> / 2 ^ 53"
    using e(3) by (simp add: divide_right_mono)
  finally show ?thesis .
qed

lemma toDouble_exists:
  assumes "\<bar>x\<bar> < pow2 1023"
  shows "\<exists>r. toDouble x = Finite r"
proof (cases "\<bar>x\<bar> < pow2 (- 1022)")
  case True
  then show ?thesis by (simp add: toDouble_subnormal)
next
  case False
  have "pow2 1023 < pow2 1024" by (simp add: pow2_less_iff)
  with assms False obtain e where e: "- 1022 \<le> e" "e \<le> 1023" "pow2 e \<le> \<bar>x\<bar>" "\<bar>x\<bar> < pow2 (e + 1)"
    using binade_exists[of "\<bar>x\<bar>"] by force
  from e(3) assms have "e < 1023" by (rule pow2_between)
  then show ?thesis using toDouble_finite[OF e(1) _ e(3,4)] by simp
qed

lemma toDouble_exact:
  assumes "x = of_int m * pow2 j" "\<bar>m\<bar> < 2 ^ 53" "- 1074 \<le> j" "\<bar>x\<bar> < pow2 1024"
  shows "toDouble x = Finite x"
proof -
  have int_case: "toDouble x = Finite x"
    if b: "binade \<bar>x\<bar> = b" and jb: "b - 52 \<le> j" for b
  proof -
    let ?q = "pow2 (b - 52)"
    have q: "0 < ?q" by (rule pow2_pos)
    have "pow2 j = pow2 (j - (b - 52)) * ?q"
      using pow2_add[of "j - (b - 52)" "b - 52"] by simp
    also have "pow2 (j - (b - 52)) = of_int (2 ^ nat (j - (b - 52)))"
      using jb by (simp add: pow2_def)
    finally have "x / ?q = of_int (m * 2 ^ nat (j - (b - 52)))"
      using q by (simp add: assms(1))
    then have "of_int (roundHalfEven (x / ?q)) * ?q = x"
      using q by (simp only: roundHalfEven_of_int) (simp add: field_simps)
    moreover from assms(4) have "\<not> pow2 1024 \<le> x" "\<not> x \<le> - pow2 1024" by linarith+
    ultimately show ?thesis by (simp add: toDouble_def Let_def b)
  qed
  show ?thesis
  proof (cases "\<bar>x\<bar> < pow2 (- 1022)")
    case True
    then have "binade \<bar>x\<bar> = - 1022" by (rule binade_subnormal)
    then show ?thesis using int_case[of "- 1022"] assms(3) by simp
  next
    case False
    with assms(4) obtain e where e: "- 1022 \<le> e" "e \<le> 1023" "pow2 e \<le> \<bar>x\<bar>" "\<bar>x\<bar> < pow2 (e + 1)"
      using binade_exists[of "\<bar>x\<bar>"] by force
    have "\<bar>x\<bar> = of_int \<bar>m\<bar> * pow2 j"
      using pow2_pos[of j] by (simp add: assms(1) abs_mult)
    also have "\<dots> < of_int (2 ^ 53) * pow2 j"
      using assms(2) pow2_pos[of j] by (intro mult_strict_right_mono) (simp_all del: of_int_abs)
    also have "\<dots> = pow2 (53 + j)"
      using pow2_add[of 53 j] by (simp add: pow2_def[of 53])
    finally have "\<bar>x\<bar> < pow2 (53 + j)" .
    with e(3) have "e < 53 + j" by (rule pow2_between)
    moreover have "binade \<bar>x\<bar> = e" using e by (rule binade_normal)
    ultimately show ?thesis using int_case[of e] by simp
  qed
qed

text \<open>
  Some values: one tenth is no double; \<open>2^53 + 1\<close> lies half way between two doubles and
  goes to the even one, as does \<open>2^53 + 3\<close>; half of the smallest subnormal goes to 0; and
  the largest double plus half a step is the first value that overflows.
\<close>

lemma toDouble_examples:
  "toDouble (1 / 10) = Finite (3602879701896397 / 2 ^ 55)"
  "toDouble (2 ^ 53 + 1) = Finite (2 ^ 53)"
  "toDouble (2 ^ 53 + 3) = Finite (2 ^ 53 + 4)"
  "toDouble (1 / 2 ^ 1075) = Finite 0"
  "toDouble (2 ^ 1024 - 2 ^ 970) = PosInfinity"
proof -
  show "toDouble (1 / 10) = Finite (3602879701896397 / 2 ^ 55)"
    using toDouble_finite[of "- 4" "1 / 10"] by (simp add: pow2_def roundHalfEven_def)
  show "toDouble (2 ^ 53 + 1) = Finite (2 ^ 53)"
    using toDouble_finite[of 53 "2 ^ 53 + 1"] by (simp add: pow2_def roundHalfEven_def)
  show "toDouble (2 ^ 53 + 3) = Finite (2 ^ 53 + 4)"
    using toDouble_finite[of 53 "2 ^ 53 + 3"] by (simp add: pow2_def roundHalfEven_def)
  show "toDouble (1 / 2 ^ 1075) = Finite 0"
    using toDouble_subnormal[of "1 / 2 ^ 1075"] by (simp add: pow2_def roundHalfEven_def)
  show "toDouble (2 ^ 1024 - 2 ^ 970) = PosInfinity"
    using toDouble_normal[of 1023 "2 ^ 1024 - 2 ^ 970"]
    by (simp add: pow2_def roundHalfEven_def)
qed

lemma percent_accuracy:
  assumes "pow2 (- 1022) \<le> \<bar>x\<bar>" "toDouble x = Finite r" "toDouble (r * 100) = Finite q"
  shows "\<bar>q - x * 100\<bar> \<le> \<bar>x * 100\<bar> / 2 ^ 51"
proof -
  have e1: "\<bar>r - x\<bar> \<le> \<bar>x\<bar> / 2 ^ 53" using assms(1,2) by (rule toDouble_error)
  have lo: "\<bar>x\<bar> - \<bar>x\<bar> / 2 ^ 53 \<le> \<bar>r\<bar>" and hi: "\<bar>r\<bar> \<le> \<bar>x\<bar> + \<bar>x\<bar> / 2 ^ 53"
    using e1 by linarith+
  have "\<bar>x\<bar> \<le> 100 * (\<bar>x\<bar> - \<bar>x\<bar> / 2 ^ 53)" by simp
  with lo assms(1) have "pow2 (- 1022) \<le> \<bar>r * 100\<bar>" by (simp add: abs_mult)
  from this assms(3) have "\<bar>q - r * 100\<bar> \<le> \<bar>r * 100\<bar> / 2 ^ 53" by (rule toDouble_error)
  then have e2: "\<bar>q - r * 100\<bar> \<le> 100 * \<bar>r\<bar> / 2 ^ 53" by (simp add: abs_mult)
  have "q - x * 100 = (q - r * 100) + 100 * (r - x)" by simp
  then have "\<bar>q - x * 100\<bar> \<le> \<bar>q - r * 100\<bar> + \<bar>100 * (r - x)\<bar>"
    by (simp only: abs_triangle_ineq)
  moreover have "\<bar>100 * (r - x)\<bar> = 100 * \<bar>r - x\<bar>"
    by (subst abs_mult) simp
  ultimately have "\<bar>q - x * 100\<bar> \<le> \<bar>q - r * 100\<bar> + 100 * \<bar>r - x\<bar>"
    by (simp only:)
  also have "\<dots> \<le> 100 * \<bar>r\<bar> / 2 ^ 53 + 100 * (\<bar>x\<bar> / 2 ^ 53)"
  proof -
    from e1 have "100 * \<bar>r - x\<bar> \<le> 100 * (\<bar>x\<bar> / 2 ^ 53)" by simp
    with e2 show ?thesis by (rule add_mono)
  qed
  also have "\<dots> \<le> 100 * \<bar>x\<bar> / 2 ^ 51" using hi by simp
  finally show ?thesis by (simp add: abs_mult)
qed

section \<open>Properties of the numeric helpers\<close>

lemma clampPercent_local_range:
  "\<exists>k::int. 0 \<le> k \<and> k \<le> 100 \<and> clampPercent_local v = Finite (of_int k)"
proof (cases v)
  case (Finite r)
  show ?thesis
  proof (cases "r \<le> 0")
    case True
    then have "clampPercent_local v = Finite (of_int 0)"
      by (simp add: clampPercent_local_def Finite)
    then show ?thesis by (intro exI[of _ 0]) simp
  next
    case False
    show ?thesis
    proof (cases "100 \<le> r")
      case True
      with False have "clampPercent_local v = Finite (of_int 100)"
        by (simp add: clampPercent_local_def Finite js_ge_def)
      then show ?thesis by (intro exI[of _ 100]) simp
    next
      case f2: False
      with False have eq: "clampPercent_local v = Finite (of_int \<lfloor>r + 1 / 2\<rfloor>)"
        by (simp add: clampPercent_local_def Finite js_ge_def)
      from False f2 have "0 \<le> \<lfloor>r + 1 / 2\<rfloor>" "\<lfloor>r + 1 / 2\<rfloor> \<le> 100"
        by linarith+
      with eq show ?thesis by blast
    qed
  qed
qed (auto simp: clampPercent_local_def intro: exI[of _ 0])

lemma round_half: "round (r::real) = \<lfloor>r + 1 / 2\<rfloor>"
  by (simp add: round_def)

text \<open>
  C8. For every input, the exported \<^verbatim>\<open>clampPercent\<close> returns null or an integer between 0
  and 100: a null, undefined or non-finite input gives null, an input below 0 gives 0, an
  input above 100 gives 100, and an input in the range is rounded to the nearest integer;
  150 gives 100, -3 gives 0, 42.6 gives 43 and null gives null.
\<close>

theorem clampPercent_spec:
  "(clampPercent x = None \<or>
      (\<exists>k::int. 0 \<le> k \<and> k \<le> 100 \<and> clampPercent x = Some (Finite (of_int k))))
   \<and> (x = Null \<or> x = Undefined \<longrightarrow> clampPercent x = None)
   \<and> (\<not> isFinite v \<longrightarrow> clampPercent (Val v) = None)
   \<and> (r < 0 \<longrightarrow> clampPercent (Val (Finite r)) = Some (Finite 0))
   \<and> (100 < r \<longrightarrow> clampPercent (Val (Finite r)) = Some (Finite 100))
   \<and> (0 \<le> r \<and> r \<le> 100 \<longrightarrow>
        clampPercent (Val (Finite r)) = Some (Finite (of_int (round r))) \<and>
        \<bar>of_int (round r) - r\<bar> \<le> 1 / 2)
   \<and> clampPercent (Val (Finite 150)) = Some (Finite 100)
   \<and> clampPercent (Val (Finite (- 3))) = Some (Finite 0)
   \<and> clampPercent (Val (Finite (426 / 10))) = Some (Finite 43)
   \<and> clampPercent Null = None"
proof -
  have range: "clampPercent x = None \<or>
      (\<exists>k::int. 0 \<le> k \<and> k \<le> 100 \<and> clampPercent x = Some (Finite (of_int k)))"
  proof (cases x)
    case (Val w)
    show ?thesis
    proof (cases w)
      case (Finite q)
      show ?thesis
      proof (cases "q < 0")
        case True
        then have "clampPercent x = Some (Finite (of_int 0))"
          by (simp add: Val Finite)
        then show ?thesis by (intro disjI2 exI[of _ 0]) simp
      next
        case False
        show ?thesis
        proof (cases "100 < q")
          case True
          with False have "clampPercent x = Some (Finite (of_int 100))"
            by (simp add: Val Finite js_gt_def)
          then show ?thesis by (intro disjI2 exI[of _ 100]) simp
        next
          case f2: False
          with False have eq: "clampPercent x = Some (Finite (of_int \<lfloor>q + 1 / 2\<rfloor>))"
            by (simp add: Val Finite js_gt_def)
          from False f2 have "0 \<le> \<lfloor>q + 1 / 2\<rfloor>" "\<lfloor>q + 1 / 2\<rfloor> \<le> 100"
            by linarith+
          with eq show ?thesis by blast
        qed
      qed
    qed (simp_all add: Val)
  qed simp_all
  have nulls: "x = Null \<or> x = Undefined \<longrightarrow> clampPercent x = None" by auto
  have nonfin: "\<not> isFinite v \<longrightarrow> clampPercent (Val v) = None" by simp
  have low: "r < 0 \<longrightarrow> clampPercent (Val (Finite r)) = Some (Finite 0)" by simp
  have high: "100 < r \<longrightarrow> clampPercent (Val (Finite r)) = Some (Finite 100)"
    by (simp add: js_gt_def)
  have mid: "0 \<le> r \<and> r \<le> 100 \<longrightarrow>
        clampPercent (Val (Finite r)) = Some (Finite (of_int (round r))) \<and>
        \<bar>of_int (round r) - r\<bar> \<le> 1 / 2"
    using of_int_round_abs_le[of r] by (auto simp: js_gt_def round_half)
  have e1: "clampPercent (Val (Finite 150)) = Some (Finite 100)" by (simp add: js_gt_def)
  have e2: "clampPercent (Val (Finite (- 3))) = Some (Finite 0)" by simp
  have e3: "clampPercent (Val (Finite (426 / 10))) = Some (Finite 43)" by (simp add: js_gt_def)
  have e4: "clampPercent Null = None" by simp
  from range nulls nonfin low high mid e1 e2 e3 e4 show ?thesis by blast
qed

theorem clampPercent_spec_witness:
  "clampPercent (Val (Finite 150)) = Some (Finite 100)
   \<and> clampPercent (Val NaN) = None
   \<and> clampPercent (Val (Finite (- 3))) = Some (Finite 0)
   \<and> clampPercent Undefined = None"
  using clampPercent_spec[of "Val (Finite 150)" NaN 150]
    clampPercent_spec[of Undefined PosInfinity "- 3"]
  by simp

lemma divide_1000_example:
  "js_divide (Finite 1700000000000005888) (Finite 1000) = Finite 1700000000000006"
  using toDouble_finite[of 50 "1700000000000005888 / 1000"]
  by (simp add: pow2_def roundHalfEven_def)

text \<open>
  C3, as stated, at the double 1700000000000005888: the division by 1000 rounds the
  quotient 1700000000000005.888 to the nearest double, 1700000000000006, and the floor of
  that is not the floor of the exact quotient.
\<close>

theorem normalizeTimestamp_rounded_quotient_counterexample:
  "normalizeTimestamp exampleRuntime (JNumber (Finite 1700000000000005888))
     \<noteq> Some (Finite (of_int \<lfloor>1700000000000005888 / 1000 :: real\<rfloor>))"
proof -
  have "normalizeTimestamp exampleRuntime (JNumber (Finite 1700000000000005888))
          = Some (math_floor (js_divide (Finite 1700000000000005888) (Finite 1000)))"
    by (simp del: js_divide.simps)
  then show ?thesis by (simp only: divide_1000_example) simp
qed

text \<open>
  C3, amended. For every finite number \<open>n\<close>, \<^verbatim>\<open>normalizeTimestamp\<close> returns the floor of
  \<open>n\<close> when \<open>0 < n \<le> 1e12\<close> and null when \<open>n \<le> 0\<close>; a number that is not finite gives
  null. When \<open>n > 1e12\<close> it returns the floor of the double-precision quotient
  \<open>n / 1000\<close>, the double nearest to the exact quotient and within a relative error of
  \<open>2^-53\<close> of it; this is \<open>n / 1000\<close> itself when \<open>n\<close> is a whole number of thousands
  below \<open>2^53\<close> thousands.
\<close>

theorem normalizeTimestamp_number:
  "(0 < n \<and> n \<le> 10 ^ 12 \<longrightarrow>
      normalizeTimestamp P (JNumber (Finite n)) = Some (Finite (of_int \<lfloor>n\<rfloor>)))
   \<and> (10 ^ 12 < n \<and> n < 2 ^ 1024 \<longrightarrow>
      (\<exists>q. js_divide (Finite n) (Finite 1000) = Finite q
           \<and> \<bar>q - n / 1000\<bar> \<le> n / 1000 / 2 ^ 53
           \<and> normalizeTimestamp P (JNumber (Finite n)) = Some (Finite (of_int \<lfloor>q\<rfloor>))))
   \<and> (10 ^ 12 < n \<and> n = 1000 * of_int m \<and> m < 2 ^ 53 \<longrightarrow>
      normalizeTimestamp P (JNumber (Finite n)) = Some (Finite (of_int m)))
   \<and> (n \<le> 0 \<longrightarrow> normalizeTimestamp P (JNumber (Finite n)) = None)
   \<and> (\<not> isFinite v \<longrightarrow> normalizeTimestamp P (JNumber v) = None)
   \<and> normalizeTimestamp P (JNumber (Finite 1700000000)) = Some (Finite 1700000000)
   \<and> normalizeTimestamp P (JNumber (Finite 1700000000000)) = Some (Finite 1700000000)
   \<and> normalizeTimestamp P (JNumber (Finite (- 5))) = None
   \<and> normalizeTimestamp P (JNumber (Finite 1700000000000005888))
       = Some (Finite 1700000000000006)"
proof -
  have big: "normalizeTimestamp P (JNumber (Finite x))
               = Some (math_floor (js_divide (Finite x) (Finite 1000)))"
    if "10 ^ 12 < x" for x
    using that by (simp del: js_divide.simps)
  have a: "0 < n \<and> n \<le> 10 ^ 12 \<longrightarrow>
      normalizeTimestamp P (JNumber (Finite n)) = Some (Finite (of_int \<lfloor>n\<rfloor>))" by simp
  have b: "10 ^ 12 < n \<and> n < 2 ^ 1024 \<longrightarrow>
      (\<exists>q. js_divide (Finite n) (Finite 1000) = Finite q
           \<and> \<bar>q - n / 1000\<bar> \<le> n / 1000 / 2 ^ 53
           \<and> normalizeTimestamp P (JNumber (Finite n)) = Some (Finite (of_int \<lfloor>q\<rfloor>)))"
  proof
    assume h: "10 ^ 12 < n \<and> n < 2 ^ 1024"
    then have pos: "0 < n" by simp
    have "n / 1000 < 2 ^ 1024 / 1000" using h by (simp add: divide_strict_right_mono)
    also have "\<dots> < pow2 1023" by (simp add: pow2_def)
    finally have "\<bar>n / 1000\<bar> < pow2 1023" using pos by simp
    then obtain q where q: "toDouble (n / 1000) = Finite q"
      using toDouble_exists by blast
    have "pow2 (- 1022) \<le> 1" using pow2_le_iff[of "- 1022" 0] by (simp add: pow2_0)
    also have "1 \<le> \<bar>n / 1000\<bar>" using h by simp
    finally have "\<bar>q - n / 1000\<bar> \<le> \<bar>n / 1000\<bar> / 2 ^ 53"
      using q by (rule toDouble_error)
    then have err: "\<bar>q - n / 1000\<bar> \<le> n / 1000 / 2 ^ 53" using pos by simp
    have dv: "js_divide (Finite n) (Finite 1000) = Finite q" using q by simp
    have "normalizeTimestamp P (JNumber (Finite n)) = Some (Finite (of_int \<lfloor>q\<rfloor>))"
      using h by (simp add: big dv del: js_divide.simps)
    with dv err show "\<exists>q. js_divide (Finite n) (Finite 1000) = Finite q
           \<and> \<bar>q - n / 1000\<bar> \<le> n / 1000 / 2 ^ 53
           \<and> normalizeTimestamp P (JNumber (Finite n)) = Some (Finite (of_int \<lfloor>q\<rfloor>))"
      by blast
  qed
  have c: "10 ^ 12 < n \<and> n = 1000 * of_int m \<and> m < 2 ^ 53 \<longrightarrow>
      normalizeTimestamp P (JNumber (Finite n)) = Some (Finite (of_int m))"
  proof
    assume h: "10 ^ 12 < n \<and> n = 1000 * of_int m \<and> m < 2 ^ 53"
    then have m0: "0 < m" by simp
    with h have am: "\<bar>m\<bar> < 2 ^ 53" by simp
    have "(of_int m :: real) < of_int (2 ^ 53)" using h by (simp only: of_int_less_iff)
    also have "\<dots> < pow2 1024" by (simp add: pow2_def)
    finally have "\<bar>of_int m :: real\<bar> < pow2 1024" using m0 by simp
    then have "toDouble (of_int m) = Finite (of_int m)"
      using toDouble_exact[of "of_int m" m 0] am by (simp add: pow2_0)
    then have "js_divide (Finite n) (Finite 1000) = Finite (of_int m)" using h by simp
    then show "normalizeTimestamp P (JNumber (Finite n)) = Some (Finite (of_int m))"
      using h by (simp add: big del: js_divide.simps)
  qed
  have d: "n \<le> 0 \<longrightarrow> normalizeTimestamp P (JNumber (Finite n)) = None" by simp
  have e: "\<not> isFinite v \<longrightarrow> normalizeTimestamp P (JNumber v) = None"
    by (cases v) simp_all
  have e1: "normalizeTimestamp P (JNumber (Finite 1700000000)) = Some (Finite 1700000000)" by simp
  have "js_divide (Finite 1700000000000) (Finite 1000) = Finite 1700000000"
    using toDouble_exact[of 1700000000 1700000000 0] by (simp add: pow2_def)
  then have e2: "normalizeTimestamp P (JNumber (Finite 1700000000000)) = Some (Finite 1700000000)"
    by (simp add: big del: js_divide.simps)
  have e3: "normalizeTimestamp P (JNumber (Finite (- 5))) = None" by simp
  have e4: "normalizeTimestamp P (JNumber (Finite 1700000000000005888))
       = Some (Finite 1700000000000006)"
    by (simp add: big divide_1000_example del: js_divide.simps)
  from a b c d e e1 e2 e3 e4 show ?thesis by blast
qed

theorem normalizeTimestamp_number_witness:
  "normalizeTimestamp exampleRuntime (JNumber (Finite (25 / 10))) = Some (Finite 2)
   \<and> normalizeTimestamp exampleRuntime (JNumber (Finite 2000000000000))
       = Some (Finite 2000000000)
   \<and> (\<exists>q::real. \<bar>q - 2000000000500 / 1000\<bar> \<le> 2000000000500 / 1000 / 2 ^ 53
        \<and> normalizeTimestamp exampleRuntime (JNumber (Finite 2000000000500))
            = Some (Finite (of_int \<lfloor>q\<rfloor>)))
   \<and> normalizeTimestamp exampleRuntime (JNumber (Finite 0)) = None
   \<and> normalizeTimestamp exampleRuntime (JNumber NaN) = None"
proof -
  have big: "(10 ^ 12 :: real) < 2000000000500" "(2000000000500 :: real) < 2 ^ 1024"
    by simp_all
  have "\<exists>q::real. \<bar>q - 2000000000500 / 1000\<bar> \<le> 2000000000500 / 1000 / 2 ^ 53
        \<and> normalizeTimestamp exampleRuntime (JNumber (Finite 2000000000500))
            = Some (Finite (of_int \<lfloor>q\<rfloor>))"
    using normalizeTimestamp_number[of 2000000000500 exampleRuntime 0 PosInfinity] big
    by blast
  moreover have "normalizeTimestamp exampleRuntime (JNumber (Finite (25 / 10))) = Some (Finite 2)
     \<and> normalizeTimestamp exampleRuntime (JNumber (Finite 2000000000000))
         = Some (Finite 2000000000)
     \<and> normalizeTimestamp exampleRuntime (JNumber (Finite 0)) = None
     \<and> normalizeTimestamp exampleRuntime (JNumber NaN) = None"
    using normalizeTimestamp_number[of "25 / 10" exampleRuntime 0 NaN]
      normalizeTimestamp_number[of 2000000000000 exampleRuntime 2000000000 NaN]
      normalizeTimestamp_number[of 0 exampleRuntime 0 NegInfinity]
    by (simp del: normalizeTimestamp.simps js_divide.simps)
  ultimately show ?thesis by blast
qed

section \<open>Properties of the credit metrics\<close>

lemma clampPercent_local_Finite:
  "clampPercent_local (Finite v) = Finite (of_int (max 0 (min 100 (round v))))"
proof (cases "v \<le> 0")
  case True
  then have "round v \<le> 0" unfolding round_half by linarith
  with True show ?thesis by (simp add: clampPercent_local_def)
next
  case False
  show ?thesis
  proof (cases "100 \<le> v")
    case True
    then have "100 \<le> round v" unfolding round_half by linarith
    with False True show ?thesis by (simp add: clampPercent_local_def js_ge_def)
  next
    case f2: False
    with False have "0 \<le> round v" "round v \<le> 100"
      unfolding round_half by linarith+
    with False f2 show ?thesis
      by (simp add: clampPercent_local_def js_ge_def round_half)
  qed
qed

lemma clampPercent_local_not_finite:
  "\<not> isFinite v \<Longrightarrow> clampPercent_local v = Finite 0"
  by (simp add: clampPercent_local_def)

lemma usedPercent_of_used:
  "0 < st \<Longrightarrow> usedPercent (buildCreditMetrics (Val (Finite su)) (Val (Finite st)) l)
     = clampPercent_local (js_times (js_divide (Finite su) (Finite st)) (Finite 100))"
  by (simp add: buildCreditMetrics_def del: js_divide.simps js_times.simps)

lemma usedPercent_of_left:
  "0 < st \<Longrightarrow> toFiniteNumber u = None \<Longrightarrow>
   usedPercent (buildCreditMetrics u (Val (Finite st)) (Val (Finite sl)))
     = clampPercent_local
         (js_times (js_divide (js_minus (Finite st) (Finite sl)) (Finite st)) (Finite 100))"
  by (simp add: buildCreditMetrics_def del: js_divide.simps js_times.simps js_minus.simps)

lemma percent_150_100:
  "js_times (js_divide (Finite 150) (Finite 100)) (Finite 100) = Finite 150"
proof -
  have "js_divide (Finite 150) (Finite 100) = Finite (3 / 2)"
    using toDouble_exact[of "3 / 2" 3 "- 1"] by (simp add: pow2_def)
  moreover have "js_times (Finite (3 / 2)) (Finite 100) = Finite 150"
    using toDouble_exact[of 150 150 0] by (simp add: pow2_def)
  ultimately show ?thesis by (simp only:)
qed

lemma percent_30_100:
  "js_times (js_divide (Finite 30) (Finite 100)) (Finite 100) = Finite 30"
proof -
  have "js_divide (Finite 30) (Finite 100) = Finite (5404319552844595 / 2 ^ 54)"
    using toDouble_finite[of "- 2" "30 / 100"] by (simp add: pow2_def roundHalfEven_def)
  moreover have "js_times (Finite (5404319552844595 / 2 ^ 54)) (Finite 100) = Finite 30"
    using toDouble_finite[of 4 "5404319552844595 / 2 ^ 54 * 100"]
    by (simp add: pow2_def roundHalfEven_def)
  ultimately show ?thesis by (simp only:)
qed

lemma percent_left_70_100:
  "js_times (js_divide (js_minus (Finite 100) (Finite 70)) (Finite 100)) (Finite 100) = Finite 30"
proof -
  have "js_minus (Finite 100) (Finite 70) = Finite 30"
    using toDouble_exact[of 30 30 0] by (simp add: pow2_def)
  then show ?thesis by (simp only: percent_30_100)
qed

lemma percent_23_40:
  "js_times (js_divide (Finite 23) (Finite 40)) (Finite 100)
     = Finite (8092405580431359 / 2 ^ 47)"
proof -
  have "js_divide (Finite 23) (Finite 40) = Finite (5179139571476070 / 2 ^ 53)"
    using toDouble_finite[of "- 1" "23 / 40"] by (simp add: pow2_def roundHalfEven_def)
  moreover have "js_times (Finite (5179139571476070 / 2 ^ 53)) (Finite 100)
      = Finite (8092405580431359 / 2 ^ 47)"
    using toDouble_finite[of 5 "5179139571476070 / 2 ^ 53 * 100"]
    by (simp add: pow2_def roundHalfEven_def)
  ultimately show ?thesis by (simp only:)
qed

lemma percent_overflow:
  "js_times (js_divide (Finite (2 ^ 1023)) (Finite 1)) (Finite 100) = PosInfinity"
proof -
  have "js_divide (Finite (2 ^ 1023)) (Finite 1) = Finite (2 ^ 1023)"
    using toDouble_exact[of "2 ^ 1023" 1 1023] by (simp add: pow2_def)
  moreover have "js_times (Finite (2 ^ 1023)) (Finite 100) = PosInfinity"
    using toDouble_overflow[of "2 ^ 1023 * 100"] by (simp add: pow2_def)
  ultimately show ?thesis by (simp only:)
qed

text \<open>
  C1, as stated, at used = 150 and total = 100: the quotient times 100 is exactly 150,
  and the percentage is not the rounded 150, it is clamped to 100.
\<close>

theorem buildCreditMetrics_unclamped_counterexample:
  "usedPercent (buildCreditMetrics (Val (Finite 150)) (Val (Finite 100)) Undefined)
     \<noteq> Finite (of_int (round (150 / 100 * 100 :: real)))"
  by (simp add: usedPercent_of_used percent_150_100 clampPercent_local_def js_ge_def round_half
        del: js_divide.simps js_times.simps)

text \<open>
  C1, amended. When the total is a finite number above 0 and used is a finite number, the
  percentage is \<^verbatim>\<open>Math.round\<close> of the double-precision value of \<open>used / total * 100\<close>,
  clamped into 0..100, and 0 when that value overflows; otherwise, when the total is above 0
  and left is a finite number, it is the same with \<open>(total - left) / total * 100\<close>; in
  every other case, a total of 0 or an unknown total among them, it is 0. The
  double-precision value of \<open>used / total * 100\<close> is within a relative error of \<open>2^-51\<close>
  of the exact one, unless the quotient is below \<open>2^-1022\<close>: for used = 23 and total = 40
  it is 57.49999999999999 and the percentage is 57, where the exact 57.5 would round to 58.
\<close>

theorem buildCreditMetrics_usedPercent:
  "(u = Val (Finite su) \<and> t = Val (Finite st) \<and> 0 < st
      \<and> js_times (js_divide (Finite su) (Finite st)) (Finite 100) = Finite q \<longrightarrow>
      usedPercent (buildCreditMetrics u t l) = Finite (of_int (max 0 (min 100 (round q)))))
   \<and> (u = Val (Finite su) \<and> t = Val (Finite st) \<and> 0 < st
      \<and> \<not> isFinite (js_times (js_divide (Finite su) (Finite st)) (Finite 100)) \<longrightarrow>
      usedPercent (buildCreditMetrics u t l) = Finite 0)
   \<and> (toFiniteNumber u = None \<and> t = Val (Finite st) \<and> 0 < st \<and> l = Val (Finite sl)
      \<and> js_times (js_divide (js_minus (Finite st) (Finite sl)) (Finite st)) (Finite 100)
          = Finite q \<longrightarrow>
      usedPercent (buildCreditMetrics u t l) = Finite (of_int (max 0 (min 100 (round q)))))
   \<and> (toFiniteNumber u = None \<and> t = Val (Finite st) \<and> 0 < st \<and> l = Val (Finite sl)
      \<and> \<not> isFinite
            (js_times (js_divide (js_minus (Finite st) (Finite sl)) (Finite st)) (Finite 100))
      \<longrightarrow> usedPercent (buildCreditMetrics u t l) = Finite 0)
   \<and> (toFiniteNumber t = None \<or> (t = Val (Finite st) \<and> st \<le> 0)
        \<or> (toFiniteNumber u = None \<and> toFiniteNumber l = None) \<longrightarrow>
      usedPercent (buildCreditMetrics u t l) = Finite 0)
   \<and> (0 < st \<and> pow2 (- 1022) \<le> \<bar>su / st\<bar>
      \<and> js_times (js_divide (Finite su) (Finite st)) (Finite 100) = Finite q \<longrightarrow>
      \<bar>q - su / st * 100\<bar> \<le> \<bar>su / st * 100\<bar> / 2 ^ 51)
   \<and> usedPercent (buildCreditMetrics (Val (Finite 30)) (Val (Finite 100)) Undefined) = Finite 30
   \<and> usedPercent (buildCreditMetrics Undefined (Val (Finite 100)) (Val (Finite 70))) = Finite 30
   \<and> usedPercent (buildCreditMetrics u (Val (Finite 0)) l) = Finite 0
   \<and> usedPercent (buildCreditMetrics (Val (Finite 23)) (Val (Finite 40)) Undefined) = Finite 57
   \<and> usedPercent (buildCreditMetrics (Val (Finite (2 ^ 1023))) (Val (Finite 1)) Undefined)
       = Finite 0"
proof -
  have a: "u = Val (Finite su) \<and> t = Val (Finite st) \<and> 0 < st
      \<and> js_times (js_divide (Finite su) (Finite st)) (Finite 100) = Finite q \<longrightarrow>
      usedPercent (buildCreditMetrics u t l) = Finite (of_int (max 0 (min 100 (round q))))"
    by (simp add: usedPercent_of_used clampPercent_local_Finite
          del: js_divide.simps js_times.simps)
  have a': "u = Val (Finite su) \<and> t = Val (Finite st) \<and> 0 < st
      \<and> \<not> isFinite (js_times (js_divide (Finite su) (Finite st)) (Finite 100)) \<longrightarrow>
      usedPercent (buildCreditMetrics u t l) = Finite 0"
    by (simp add: usedPercent_of_used clampPercent_local_not_finite
          del: js_divide.simps js_times.simps)
  have b: "toFiniteNumber u = None \<and> t = Val (Finite st) \<and> 0 < st \<and> l = Val (Finite sl)
      \<and> js_times (js_divide (js_minus (Finite st) (Finite sl)) (Finite st)) (Finite 100)
          = Finite q \<longrightarrow>
      usedPercent (buildCreditMetrics u t l) = Finite (of_int (max 0 (min 100 (round q))))"
    by (simp add: usedPercent_of_left clampPercent_local_Finite
          del: js_divide.simps js_times.simps js_minus.simps)
  have b': "toFiniteNumber u = None \<and> t = Val (Finite st) \<and> 0 < st \<and> l = Val (Finite sl)
      \<and> \<not> isFinite
            (js_times (js_divide (js_minus (Finite st) (Finite sl)) (Finite st)) (Finite 100))
      \<longrightarrow> usedPercent (buildCreditMetrics u t l) = Finite 0"
    by (simp add: usedPercent_of_left clampPercent_local_not_finite
          del: js_divide.simps js_times.simps js_minus.simps)
  have c: "toFiniteNumber t = None \<or> (t = Val (Finite st) \<and> st \<le> 0)
        \<or> (toFiniteNumber u = None \<and> toFiniteNumber l = None) \<longrightarrow>
      usedPercent (buildCreditMetrics u t l) = Finite 0"
    by (auto simp: buildCreditMetrics_def Let_def split: option.splits)
  have acc: "0 < st \<and> pow2 (- 1022) \<le> \<bar>su / st\<bar>
      \<and> js_times (js_divide (Finite su) (Finite st)) (Finite 100) = Finite q \<longrightarrow>
      \<bar>q - su / st * 100\<bar> \<le> \<bar>su / st * 100\<bar> / 2 ^ 51"
  proof
    assume h: "0 < st \<and> pow2 (- 1022) \<le> \<bar>su / st\<bar>
      \<and> js_times (js_divide (Finite su) (Finite st)) (Finite 100) = Finite q"
    then have st: "st \<noteq> 0" and nm: "pow2 (- 1022) \<le> \<bar>su / st\<bar>"
      and tm0: "js_times (js_divide (Finite su) (Finite st)) (Finite 100) = Finite q"
      by blast+
    from st have dv: "js_divide (Finite su) (Finite st) = toDouble (su / st)" by simp
    from tm0 have tm: "js_times (toDouble (su / st)) (Finite 100) = Finite q"
      by (simp only: dv)
    then obtain r where r: "toDouble (su / st) = Finite r"
      by (cases "toDouble (su / st)") simp_all
    with tm have "toDouble (r * 100) = Finite q" by simp
    with nm r show "\<bar>q - su / st * 100\<bar> \<le> \<bar>su / st * 100\<bar> / 2 ^ 51"
      by (rule percent_accuracy)
  qed
  have e1: "usedPercent (buildCreditMetrics (Val (Finite 30)) (Val (Finite 100)) Undefined) = Finite 30"
    by (simp add: usedPercent_of_used percent_30_100 clampPercent_local_Finite round_half
          del: js_divide.simps js_times.simps)
  have e2: "usedPercent (buildCreditMetrics Undefined (Val (Finite 100)) (Val (Finite 70))) = Finite 30"
    by (simp add: usedPercent_of_left percent_left_70_100 clampPercent_local_Finite round_half
          del: js_divide.simps js_times.simps js_minus.simps)
  have e3: "usedPercent (buildCreditMetrics u (Val (Finite 0)) l) = Finite 0"
    by (simp add: buildCreditMetrics_def)
  have e4: "usedPercent (buildCreditMetrics (Val (Finite 23)) (Val (Finite 40)) Undefined) = Finite 57"
    by (simp add: usedPercent_of_used percent_23_40 clampPercent_local_Finite round_half
          del: js_divide.simps js_times.simps)
  have "usedPercent (buildCreditMetrics (Val (Finite (2 ^ 1023))) (Val (Finite 1)) Undefined)
       = clampPercent_local (js_times (js_divide (Finite (2 ^ 1023)) (Finite 1)) (Finite 100))"
    by (rule usedPercent_of_used) simp
  also have "\<dots> = Finite 0"
    by (simp only: percent_overflow) (simp add: clampPercent_local_def)
  finally have e5:
    "usedPercent (buildCreditMetrics (Val (Finite (2 ^ 1023))) (Val (Finite 1)) Undefined)
       = Finite 0" .
  from a a' b b' c acc e1 e2 e3 e4 e5 show ?thesis by blast
qed

theorem buildCreditMetrics_usedPercent_witness:
  "usedPercent (buildCreditMetrics (Val (Finite 150)) (Val (Finite 100)) Undefined) = Finite 100
   \<and> usedPercent (buildCreditMetrics Null (Val (Finite 100)) (Val (Finite 70))) = Finite 30
   \<and> usedPercent (buildCreditMetrics (Val (Finite 5)) Undefined (Val (Finite 20))) = Finite 0
   \<and> usedPercent (buildCreditMetrics (Val (Finite (2 ^ 1023))) (Val (Finite 1)) Null) = Finite 0"
proof -
  have "usedPercent (buildCreditMetrics (Val (Finite 150)) (Val (Finite 100)) Undefined)
          = Finite (of_int (max 0 (min 100 (round (150 :: real)))))"
  proof -
    have "(0::real) < 100" by simp
    then show ?thesis
      using buildCreditMetrics_usedPercent
        [where u = "Val (Finite 150)" and su = 150 and t = "Val (Finite 100)" and st = 100
           and q = 150 and l = Undefined and sl = 0]
        percent_150_100
      by blast
  qed
  moreover have "usedPercent (buildCreditMetrics Null (Val (Finite 100)) (Val (Finite 70)))
          = Finite (of_int (max 0 (min 100 (round (30 :: real)))))"
  proof -
    have "toFiniteNumber Null = None" "(0::real) < 100" by simp_all
    then show ?thesis
      using buildCreditMetrics_usedPercent
        [where u = Null and su = 0 and t = "Val (Finite 100)" and st = 100
           and q = 30 and l = "Val (Finite 70)" and sl = 70]
        percent_left_70_100
      by blast
  qed
  moreover have "usedPercent (buildCreditMetrics (Val (Finite 5)) Undefined (Val (Finite 20))) = Finite 0"
  proof -
    have "toFiniteNumber Undefined = None" by simp
    then show ?thesis
      using buildCreditMetrics_usedPercent
        [where u = "Val (Finite 5)" and su = 5 and t = Undefined and st = 0
           and q = 0 and l = "Val (Finite 20)" and sl = 20]
      by blast
  qed
  moreover have "usedPercent (buildCreditMetrics (Val (Finite (2 ^ 1023))) (Val (Finite 1)) Null) = Finite 0"
  proof -
    have "\<not> isFinite (js_times (js_divide (Finite (2 ^ 1023)) (Finite 1)) (Finite 100))"
      by (simp only: percent_overflow) simp
    moreover have "(0::real) < 1" by simp
    ultimately show ?thesis
      using buildCreditMetrics_usedPercent
        [where u = "Val (Finite (2 ^ 1023))" and su = "2 ^ 1023" and t = "Val (Finite 1)"
           and st = 1 and q = 0 and l = Null and sl = 0]
      by blast
  qed
  ultimately show ?thesis by (simp add: round_half)
qed

lemma orZero_toFiniteNumber:
  "orZero (toFiniteNumber x) = (case x of Val (Finite r) \<Rightarrow> Finite r | _ \<Rightarrow> Finite 0)"
  by (cases x rule: toFiniteNumber.cases) (simp_all add: orZero_def)

lemma usedPercent_range:
  "\<exists>k::int. 0 \<le> k \<and> k \<le> 100 \<and> usedPercent (buildCreditMetrics u t l) = Finite (of_int k)"
proof -
  have z: "\<exists>k::int. 0 \<le> k \<and> k \<le> 100 \<and> Finite 0 = Finite (of_int k)"
    by (intro exI[of _ 0]) simp
  show ?thesis
    using z clampPercent_local_range
    by (simp add: buildCreditMetrics_def Let_def split: option.splits)
qed

text \<open>
  C10. For every input triple, \<^verbatim>\<open>buildCreditMetrics\<close> returns a percentage that is an
  integer between 0 and 100, and returns used, total and left equal to the input when it
  is a finite number and 0 otherwise: the four fields are finite numbers.
\<close>

theorem buildCreditMetrics_total:
  "(\<exists>k::int. 0 \<le> k \<and> k \<le> 100 \<and> usedPercent (buildCreditMetrics u t l) = Finite (of_int k))
   \<and> used_c (buildCreditMetrics u t l) = (case u of Val (Finite r) \<Rightarrow> Finite r | _ \<Rightarrow> Finite 0)
   \<and> total_c (buildCreditMetrics u t l) = (case t of Val (Finite r) \<Rightarrow> Finite r | _ \<Rightarrow> Finite 0)
   \<and> left_c (buildCreditMetrics u t l) = (case l of Val (Finite r) \<Rightarrow> Finite r | _ \<Rightarrow> Finite 0)
   \<and> isFinite (usedPercent (buildCreditMetrics u t l))
   \<and> isFinite (used_c (buildCreditMetrics u t l))
   \<and> isFinite (total_c (buildCreditMetrics u t l))
   \<and> isFinite (left_c (buildCreditMetrics u t l))"
proof -
  obtain k :: int where k: "0 \<le> k" "k \<le> 100"
      "usedPercent (buildCreditMetrics u t l) = Finite (of_int k)"
    using usedPercent_range by blast
  have u: "used_c (buildCreditMetrics u t l) = (case u of Val (Finite r) \<Rightarrow> Finite r | _ \<Rightarrow> Finite 0)"
    by (simp add: buildCreditMetrics_def Let_def orZero_toFiniteNumber)
  have t: "total_c (buildCreditMetrics u t l) = (case t of Val (Finite r) \<Rightarrow> Finite r | _ \<Rightarrow> Finite 0)"
    by (simp add: buildCreditMetrics_def Let_def orZero_toFiniteNumber)
  have l: "left_c (buildCreditMetrics u t l) = (case l of Val (Finite r) \<Rightarrow> Finite r | _ \<Rightarrow> Finite 0)"
    by (simp add: buildCreditMetrics_def Let_def orZero_toFiniteNumber)
  have fu: "isFinite (used_c (buildCreditMetrics u t l))"
    unfolding u by (simp split: nullable.splits number.splits)
  have ft: "isFinite (total_c (buildCreditMetrics u t l))"
    unfolding t by (simp split: nullable.splits number.splits)
  have fl: "isFinite (left_c (buildCreditMetrics u t l))"
    unfolding l by (simp split: nullable.splits number.splits)
  from k u t l fu ft fl show ?thesis by auto
qed

theorem buildCreditMetrics_total_witness:
  "buildCreditMetrics (Val (Finite 250)) (Val (Finite 100)) (Val NaN)
     = \<lparr> usedPercent = Finite 100, used_c = Finite 250, total_c = Finite 100, left_c = Finite 0 \<rparr>
   \<and> buildCreditMetrics (Val (Finite (- 4))) (Val (Finite 8)) Null
     = \<lparr> usedPercent = Finite 0, used_c = Finite (- 4), total_c = Finite 8, left_c = Finite 0 \<rparr>
   \<and> isFinite (usedPercent (buildCreditMetrics (Val PosInfinity) (Val NegInfinity) Undefined))"
proof -
  have d1: "js_times (js_divide (Finite 250) (Finite 100)) (Finite 100) = Finite 250"
  proof -
    have "js_divide (Finite 250) (Finite 100) = Finite (5 / 2)"
      using toDouble_exact[of "5 / 2" 5 "- 1"] by (simp add: pow2_def)
    moreover have "js_times (Finite (5 / 2)) (Finite 100) = Finite 250"
      using toDouble_exact[of 250 250 0] by (simp add: pow2_def)
    ultimately show ?thesis by (simp only:)
  qed
  have d2: "js_times (js_divide (Finite (- 4)) (Finite 8)) (Finite 100) = Finite (- 50)"
  proof -
    have "js_divide (Finite (- 4)) (Finite 8) = Finite (- (1 / 2))"
      using toDouble_exact[of "- (1 / 2)" "- 1" "- 1"] by (simp add: pow2_def)
    moreover have "js_times (Finite (- (1 / 2))) (Finite 100) = Finite (- 50)"
      using toDouble_exact[of "- 50" "- 50" 0] by (simp add: pow2_def)
    ultimately show ?thesis by (simp only:)
  qed
  have p1: "usedPercent (buildCreditMetrics (Val (Finite 250)) (Val (Finite 100)) (Val NaN))
              = Finite 100"
    by (simp add: usedPercent_of_used d1 clampPercent_local_def js_ge_def
          del: js_divide.simps js_times.simps)
  have p2: "usedPercent (buildCreditMetrics (Val (Finite (- 4))) (Val (Finite 8)) Null)
              = Finite 0"
    by (simp add: usedPercent_of_used d2 clampPercent_local_def
          del: js_divide.simps js_times.simps)
  have "buildCreditMetrics (Val (Finite 250)) (Val (Finite 100)) (Val NaN)
     = \<lparr> usedPercent = Finite 100, used_c = Finite 250, total_c = Finite 100, left_c = Finite 0 \<rparr>"
    using buildCreditMetrics_total[of "Val (Finite 250)" "Val (Finite 100)" "Val NaN"] p1
    by (intro CreditMetrics.equality) simp_all
  moreover have "buildCreditMetrics (Val (Finite (- 4))) (Val (Finite 8)) Null
     = \<lparr> usedPercent = Finite 0, used_c = Finite (- 4), total_c = Finite 8, left_c = Finite 0 \<rparr>"
    using buildCreditMetrics_total[of "Val (Finite (- 4))" "Val (Finite 8)" Null] p2
    by (intro CreditMetrics.equality) simp_all
  moreover have "isFinite (usedPercent (buildCreditMetrics (Val PosInfinity) (Val NegInfinity) Undefined))"
    using buildCreditMetrics_total[of "Val PosInfinity" "Val NegInfinity" Undefined] by blast
  ultimately show ?thesis by blast
qed

section \<open>Properties of the preview lines\<close>

lemma truncate_real_nonneg: "0 \<le> r \<Longrightarrow> truncate_real r = \<lfloor>r\<rfloor>"
  by (simp add: truncate_real_def)

lemma length_slice0_nonneg:
  "0 \<le> r \<Longrightarrow> length (slice0 xs (Finite r)) = min (nat \<lfloor>r\<rfloor>) (length xs)"
  by (simp add: truncate_real_nonneg Let_def min_def)

lemma slice0_nonneg_take:
  "0 \<le> r \<Longrightarrow> slice0 xs (Finite r) = take (nat \<lfloor>r\<rfloor>) xs"
  by (simp add: truncate_real_nonneg Let_def min_def)

lemma math_max_zero_Finite: "math_max (Finite 0) (Finite r) = Finite (max 0 r)"
  by (simp add: max_def)

lemma previewLines_Finite:
  "buildQuotaPreviewLines items (Some (Finite r)) =
     map (\<lambda>item. \<lparr> line_key = key item, line_label = label item,
                     line_percentage = percentage item, line_quotaClass = quotaClass item,
                     line_text = label item @ '' '' @ valueText item \<rparr>)
       (take (nat \<lfloor>max 0 r\<rfloor>) items)"
  by (simp add: buildQuotaPreviewLines_def math_max_zero_Finite slice0_nonneg_take
      del: slice0.simps math_max.simps)

lemma slice0_is_take: "\<exists>k. slice0 xs n = take k xs"
proof (cases n)
  case (Finite r)
  then show ?thesis by (auto simp: Let_def)
next
  case NaN
  then show ?thesis by (auto intro: exI[of _ 0])
next
  case PosInfinity
  then show ?thesis by (auto intro: exI[of _ "length xs"])
next
  case NegInfinity
  then show ?thesis by (auto intro: exI[of _ 0])
qed

lemma previewLines_is_take:
  "\<exists>k. buildQuotaPreviewLines items arg =
     map (\<lambda>item. \<lparr> line_key = key item, line_label = label item,
                     line_percentage = percentage item, line_quotaClass = quotaClass item,
                     line_text = label item @ '' '' @ valueText item \<rparr>)
       (take k items)"
proof -
  obtain k where "slice0 items (math_max (Finite 0)
      (case arg of None \<Rightarrow> Finite 3 | Some n \<Rightarrow> n)) = take k items"
    using slice0_is_take by blast
  then show ?thesis by (auto simp: buildQuotaPreviewLines_def Let_def)
qed

text \<open>
  C9. For every list of metrics and every limit, a natural number,
  \<^verbatim>\<open>buildQuotaPreviewLines\<close> returns as many lines as the smaller of the limit and the
  number of metrics, 3 being the limit that is left out. The lines follow the order of the
  metrics, the line at each position carrying the key, the label, the percentage and the
  class of the metric at that position, and for text its label, a space and its value
  text. A finite limit that is no natural number counts as itself raised to 0 and rounded
  down.
\<close>

theorem buildQuotaPreviewLines_spec:
  "length (buildQuotaPreviewLines items (Some (Finite r))) = min (nat \<lfloor>max 0 r\<rfloor>) (length items)
   \<and> length (buildQuotaPreviewLines items (Some (Finite (real n)))) = min n (length items)
   \<and> buildQuotaPreviewLines items None = buildQuotaPreviewLines items (Some (Finite 3))
   \<and> (i < length (buildQuotaPreviewLines items arg) \<longrightarrow>
        i < length items
        \<and> line_text (buildQuotaPreviewLines items arg ! i)
            = label (items ! i) @ '' '' @ valueText (items ! i)
        \<and> line_key (buildQuotaPreviewLines items arg ! i) = key (items ! i)
        \<and> line_label (buildQuotaPreviewLines items arg ! i) = label (items ! i)
        \<and> line_percentage (buildQuotaPreviewLines items arg ! i) = percentage (items ! i)
        \<and> line_quotaClass (buildQuotaPreviewLines items arg ! i) = quotaClass (items ! i))"
proof -
  have a: "length (buildQuotaPreviewLines items (Some (Finite r)))
             = min (nat \<lfloor>max 0 r\<rfloor>) (length items)"
    by (simp add: previewLines_Finite min.commute)
  have b: "length (buildQuotaPreviewLines items (Some (Finite (real n)))) = min n (length items)"
    by (simp add: previewLines_Finite min.commute)
  have c: "buildQuotaPreviewLines items None = buildQuotaPreviewLines items (Some (Finite 3))"
    by (simp add: buildQuotaPreviewLines_def)
  have d: "i < length (buildQuotaPreviewLines items arg) \<longrightarrow>
        i < length items
        \<and> line_text (buildQuotaPreviewLines items arg ! i)
            = label (items ! i) @ '' '' @ valueText (items ! i)
        \<and> line_key (buildQuotaPreviewLines items arg ! i) = key (items ! i)
        \<and> line_label (buildQuotaPreviewLines items arg ! i) = label (items ! i)
        \<and> line_percentage (buildQuotaPreviewLines items arg ! i) = percentage (items ! i)
        \<and> line_quotaClass (buildQuotaPreviewLines items arg ! i) = quotaClass (items ! i)"
  proof
    assume i: "i < length (buildQuotaPreviewLines items arg)"
    obtain k where k: "buildQuotaPreviewLines items arg =
       map (\<lambda>item. \<lparr> line_key = key item, line_label = label item,
                     line_percentage = percentage item, line_quotaClass = quotaClass item,
                     line_text = label item @ '' '' @ valueText item \<rparr>) (take k items)"
      using previewLines_is_take by blast
    from i have ik: "i < k" "i < length items" unfolding k by simp_all
    then show "i < length items
        \<and> line_text (buildQuotaPreviewLines items arg ! i)
            = label (items ! i) @ '' '' @ valueText (items ! i)
        \<and> line_key (buildQuotaPreviewLines items arg ! i) = key (items ! i)
        \<and> line_label (buildQuotaPreviewLines items arg ! i) = label (items ! i)
        \<and> line_percentage (buildQuotaPreviewLines items arg ! i) = percentage (items ! i)
        \<and> line_quotaClass (buildQuotaPreviewLines items arg ! i) = quotaClass (items ! i)"
      unfolding k by simp
  qed
  from a b c d show ?thesis by blast
qed

theorem buildQuotaPreviewLines_spec_witness:
  "map line_text (buildQuotaPreviewLines
      [exampleMetric ''a'' ''Prompt'' ''30%'', exampleMetric ''b'' ''Add-on'' ''0%'',
       exampleMetric ''c'' ''Weekly'' ''7%'', exampleMetric ''d'' ''Hourly'' ''9%''] None)
     = [''Prompt 30%'', ''Add-on 0%'', ''Weekly 7%'']
   \<and> line_text (buildQuotaPreviewLines
      [exampleMetric ''a'' ''Prompt'' ''30%'', exampleMetric ''b'' ''Add-on'' ''0%''] (Some (Finite 5)) ! 1)
     = ''Add-on 0%''"
  using buildQuotaPreviewLines_spec[of
      "[exampleMetric ''a'' ''Prompt'' ''30%'', exampleMetric ''b'' ''Add-on'' ''0%'']"
      5 5 1 "Some (Finite 5)"]
  by (simp add: buildQuotaPreviewLines_def exampleMetric_def truncate_real_def)

section \<open>Properties of the presentation builders\<close>

lemma kiro_quotaItems:
  "quotaItems (buildKiroAccountPresentation R E account t) =
     (let credits = getKiroCreditsSummary E account in
      [creditItem R (getKiroQuotaClass E) ''prompt''
         (t ''common.shared.columns.promptCredits'' ''User Prompt credits'' [])
         (buildCreditMetrics (promptCreditsUsed credits) (promptCreditsTotal credits)
            (promptCreditsLeft credits))]
      @ (if shouldShowKiroAddOn
              (buildCreditMetrics (addOnCreditsUsed credits) (addOnCreditsTotal credits)
                 (addOnCredits credits))
              (bonusExpireDays credits)
         then [creditItem R (getKiroQuotaClass E) ''addon''
                 (t ''common.shared.columns.addOnPromptCredits'' ''Add-on prompt credits'' [])
                 (buildCreditMetrics (addOnCreditsUsed credits) (addOnCreditsTotal credits)
                    (addOnCredits credits))]
         else []))"
  by (simp add: buildKiroAccountPresentation_def Let_def)

lemma key_creditItem: "key (creditItem R q k lbl m) = k"
  by (simp add: creditItem_def)

lemma finite_gt_iff_not_le:
  "isFinite x \<Longrightarrow> js_gt x (Finite 0) \<longleftrightarrow> \<not> js_le x (Finite 0)"
  by (cases x) (auto simp: js_gt_def)

lemma buildCreditMetrics_finite_fields:
  "isFinite (used_c (buildCreditMetrics u t l))"
  "isFinite (total_c (buildCreditMetrics u t l))"
  "isFinite (left_c (buildCreditMetrics u t l))"
  by (simp_all add: buildCreditMetrics_def Let_def orZero_def split: option.splits)

lemma positiveDays_iff:
  "(case days of Val d \<Rightarrow> isFinite d \<and> js_gt d (Finite 0) | _ \<Rightarrow> False)
     \<longleftrightarrow> (\<exists>d. days = Val (Finite d) \<and> 0 < d)"
proof (cases days)
  case (Val n)
  then show ?thesis by (cases n) (auto simp: js_gt_def)
qed simp_all

lemma shouldShowKiroAddOn_iff:
  "shouldShowKiroAddOn (buildCreditMetrics u t l) days \<longleftrightarrow>
     \<not> (js_le (left_c (buildCreditMetrics u t l)) (Finite 0)
        \<and> js_le (used_c (buildCreditMetrics u t l)) (Finite 0)
        \<and> js_le (total_c (buildCreditMetrics u t l)) (Finite 0)
        \<and> \<not> (\<exists>d. days = Val (Finite d) \<and> 0 < d))"
  unfolding shouldShowKiroAddOn_def positiveDays_iff
  by (simp add: finite_gt_iff_not_le buildCreditMetrics_finite_fields)

text \<open>
  C2. For every Kiro account, the builder leaves the add-on metric out exactly when the
  add-on credit metrics have left, used and total at most 0 and the days to the expiry of
  the bonus are not a finite number above 0: the items are then the prompt metric alone,
  and the prompt and the add-on metric otherwise. With the metrics all 0, an undefined
  number of days hides the add-on metric and 5 days show it.
\<close>

theorem kiro_addOn_visibility:
  "(let credits = getKiroCreditsSummary E account;
        addOnMetrics = buildCreditMetrics (addOnCreditsUsed credits) (addOnCreditsTotal credits)
                         (addOnCredits credits);
        quiet = (js_le (left_c addOnMetrics) (Finite 0)
                 \<and> js_le (used_c addOnMetrics) (Finite 0)
                 \<and> js_le (total_c addOnMetrics) (Finite 0)
                 \<and> \<not> (\<exists>d. bonusExpireDays credits = Val (Finite d) \<and> 0 < d))
    in (quiet \<longrightarrow>
          map key (quotaItems (buildKiroAccountPresentation R E account t)) = [''prompt''])
       \<and> (\<not> quiet \<longrightarrow>
          map key (quotaItems (buildKiroAccountPresentation R E account t))
            = [''prompt'', ''addon'']))
   \<and> shouldShowKiroAddOn
         \<lparr> usedPercent = p, used_c = Finite 0, total_c = Finite 0, left_c = Finite 0 \<rparr>
         Undefined = False
   \<and> shouldShowKiroAddOn
         \<lparr> usedPercent = p, used_c = Finite 0, total_c = Finite 0, left_c = Finite 0 \<rparr>
         (Val (Finite 5)) = True
   \<and> (buildCreditMetrics (addOnCreditsUsed (getKiroCreditsSummary E account))
           (addOnCreditsTotal (getKiroCreditsSummary E account))
           (addOnCredits (getKiroCreditsSummary E account))
         = \<lparr> usedPercent = p, used_c = Finite 0, total_c = Finite 0, left_c = Finite 0 \<rparr>
       \<longrightarrow> (bonusExpireDays (getKiroCreditsSummary E account) = Undefined \<longrightarrow>
              length (quotaItems (buildKiroAccountPresentation R E account t)) = 1)
           \<and> (bonusExpireDays (getKiroCreditsSummary E account) = Val (Finite 5) \<longrightarrow>
              length (quotaItems (buildKiroAccountPresentation R E account t)) = 2))"
proof -
  let ?c = "getKiroCreditsSummary E account"
  let ?m = "buildCreditMetrics (addOnCreditsUsed ?c) (addOnCreditsTotal ?c) (addOnCredits ?c)"
  let ?quiet = "js_le (left_c ?m) (Finite 0) \<and> js_le (used_c ?m) (Finite 0)
     \<and> js_le (total_c ?m) (Finite 0)
     \<and> \<not> (\<exists>d. bonusExpireDays ?c = Val (Finite d) \<and> 0 < d)"
  have show_iff: "shouldShowKiroAddOn ?m (bonusExpireDays ?c) \<longleftrightarrow> \<not> ?quiet"
    by (rule shouldShowKiroAddOn_iff)
  have a: "?quiet \<longrightarrow>
      map key (quotaItems (buildKiroAccountPresentation R E account t)) = [''prompt'']"
    using show_iff by (simp add: kiro_quotaItems Let_def key_creditItem)
  have b: "\<not> ?quiet \<longrightarrow>
      map key (quotaItems (buildKiroAccountPresentation R E account t)) = [''prompt'', ''addon'']"
    using show_iff by (simp add: kiro_quotaItems Let_def key_creditItem)
  have c: "shouldShowKiroAddOn
         \<lparr> usedPercent = p, used_c = Finite 0, total_c = Finite 0, left_c = Finite 0 \<rparr>
         Undefined = False"
    by (simp add: shouldShowKiroAddOn_def js_gt_def)
  have d: "shouldShowKiroAddOn
         \<lparr> usedPercent = p, used_c = Finite 0, total_c = Finite 0, left_c = Finite 0 \<rparr>
         (Val (Finite 5)) = True"
    by (simp add: shouldShowKiroAddOn_def js_gt_def)
  have e: "buildCreditMetrics (addOnCreditsUsed ?c) (addOnCreditsTotal ?c) (addOnCredits ?c)
         = \<lparr> usedPercent = p, used_c = Finite 0, total_c = Finite 0, left_c = Finite 0 \<rparr>
       \<longrightarrow> (bonusExpireDays ?c = Undefined \<longrightarrow>
              length (quotaItems (buildKiroAccountPresentation R E account t)) = 1)
           \<and> (bonusExpireDays ?c = Val (Finite 5) \<longrightarrow>
              length (quotaItems (buildKiroAccountPresentation R E account t)) = 2)"
    using c d by (auto simp: kiro_quotaItems Let_def)
  from a b c d e show ?thesis unfolding Let_def by blast
qed

theorem kiro_addOn_visibility_witness:
  "length (quotaItems (buildKiroAccountPresentation exampleRuntime
       (exampleKiroEnv (exampleCredits (Val (Finite 0)) Undefined))
       (exampleKiroAccount Undefined) exampleTranslate)) = 1
   \<and> length (quotaItems (buildKiroAccountPresentation exampleRuntime
       (exampleKiroEnv (exampleCredits (Val (Finite 0)) (Val (Finite 5))))
       (exampleKiroAccount Undefined) exampleTranslate)) = 2"
proof -
  have "map key (quotaItems (buildKiroAccountPresentation exampleRuntime
       (exampleKiroEnv (exampleCredits (Val (Finite 0)) Undefined))
       (exampleKiroAccount Undefined) exampleTranslate)) = [''prompt'']"
    using kiro_addOn_visibility[of "exampleKiroEnv (exampleCredits (Val (Finite 0)) Undefined)"
        "exampleKiroAccount Undefined" exampleRuntime exampleTranslate]
    by (simp add: Let_def exampleKiroEnv_def exampleCredits_def buildCreditMetrics_def orZero_def)
  moreover have "map key (quotaItems (buildKiroAccountPresentation exampleRuntime
       (exampleKiroEnv (exampleCredits (Val (Finite 0)) (Val (Finite 5))))
       (exampleKiroAccount Undefined) exampleTranslate)) = [''prompt'', ''addon'']"
    using kiro_addOn_visibility[of "exampleKiroEnv (exampleCredits (Val (Finite 0)) (Val (Finite 5)))"
        "exampleKiroAccount Undefined" exampleRuntime exampleTranslate]
    by (simp add: Let_def exampleKiroEnv_def exampleCredits_def buildCreditMetrics_def orZero_def)
  ultimately show ?thesis by (metis length_map list.size(3) list.size(4) One_nat_def Suc_eq_plus1 one_add_one)
qed

lemma kiro_planClass_label:
  "planClass (buildKiroAccountPresentation R E k t)
     = getKiroPlanBadgeClass E (planLabel (buildKiroAccountPresentation R E k t))"
  by (simp add: buildKiroAccountPresentation_def Let_def)

lemma kiro_planLabel:
  "planLabel (buildKiroAccountPresentation R E k t)
     = orDefault (orStr (orStr (optTrim (kiro_plan_type k)) (optTrim (kiro_plan_name k)))
                    (optTrim (kiro_plan_tier k)))
         (kiroNormalizedPlan E k)"
  by (simp add: buildKiroAccountPresentation_def Let_def kiroNormalizedPlan_def)

lemma trim_empty: "trim [] = []"
  by (simp add: trim_def)

lemma trim_PRO: "trim ''PRO'' = ''PRO''"
  by code_simp

lemma kiro_same_label_examples:
  assumes "trim raw = raw" "raw \<noteq> []"
  shows "planLabel (buildKiroAccountPresentation R E (exampleKiroNamedAccount (Val []) (Val raw)) t)
           = raw"
    and "planLabel (buildKiroAccountPresentation R E (exampleKiroNamedAccount (Val raw) Undefined) t)
           = raw"
    and "kiroNormalizedPlan E (exampleKiroNamedAccount (Val []) (Val raw))
           = getKiroPlanDisplayName E (Val [])"
    and "kiroNormalizedPlan E (exampleKiroNamedAccount (Val raw) Undefined)
           = getKiroPlanDisplayName E (Val raw)"
  using assms
  by (simp_all add: kiro_planLabel kiroNormalizedPlan_def exampleKiroNamedAccount_def
      trim_empty orStr_def orDefault_def)

text \<open>
  Two Kiro accounts display the same raw plan: the first has an empty plan type and the
  raw plan as its plan name, so that its normalised plan name is that of the empty plan
  type; the second has the raw plan as its plan type. Whatever the helpers of the Kiro
  type module are, the builder gives both accounts one class, the badge class of the
  label: if that class is the lowered normalised plan name of both, the plan-name helper
  gives the empty plan type and the raw plan the same name up to case. The plan class of
  every Kiro account can be its lowered normalised plan name only if every raw plan has
  the normalised name of the empty one.
\<close>

lemma kiro_planClass_dilemma:
  assumes "trim raw = raw" "raw \<noteq> []"
    and "planClass (buildKiroAccountPresentation R E
               (exampleKiroNamedAccount (Val []) (Val raw)) t)
             = toLowerCase (kiroNormalizedPlan E (exampleKiroNamedAccount (Val []) (Val raw)))"
    and "planClass (buildKiroAccountPresentation R E
               (exampleKiroNamedAccount (Val raw) Undefined) t)
             = toLowerCase (kiroNormalizedPlan E (exampleKiroNamedAccount (Val raw) Undefined))"
  shows "toLowerCase (getKiroPlanDisplayName E (Val []))
           = toLowerCase (getKiroPlanDisplayName E (Val raw))"
  using assms(3,4) by (simp add: kiro_planClass_label kiro_same_label_examples[OF assms(1,2)])

text \<open>
  C4, as stated, on these two Kiro accounts with the raw plan "PRO", and a plan-name
  helper that tells the empty plan type ("FREE") from "PRO": the plan class is not the
  lowered normalised plan name of both accounts, whatever the badge helper returns. The
  helpers belong to the Kiro type module, which the builder imports.
\<close>

theorem kiro_planClass_follows_label_counterexample:
  "\<not> (planClass (buildKiroAccountPresentation exampleRuntime
            (exampleKiroEnv (exampleCredits Null Null))
            (exampleKiroNamedAccount (Val []) (Val ''PRO'')) exampleTranslate)
          = toLowerCase (kiroNormalizedPlan (exampleKiroEnv (exampleCredits Null Null))
              (exampleKiroNamedAccount (Val []) (Val ''PRO'')))
        \<and> planClass (buildKiroAccountPresentation exampleRuntime
            (exampleKiroEnv (exampleCredits Null Null))
            (exampleKiroNamedAccount (Val ''PRO'') Undefined) exampleTranslate)
          = toLowerCase (kiroNormalizedPlan (exampleKiroEnv (exampleCredits Null Null))
              (exampleKiroNamedAccount (Val ''PRO'') Undefined)))"
proof
  assume "planClass (buildKiroAccountPresentation exampleRuntime
            (exampleKiroEnv (exampleCredits Null Null))
            (exampleKiroNamedAccount (Val []) (Val ''PRO'')) exampleTranslate)
          = toLowerCase (kiroNormalizedPlan (exampleKiroEnv (exampleCredits Null Null))
              (exampleKiroNamedAccount (Val []) (Val ''PRO'')))
        \<and> planClass (buildKiroAccountPresentation exampleRuntime
            (exampleKiroEnv (exampleCredits Null Null))
            (exampleKiroNamedAccount (Val ''PRO'') Undefined) exampleTranslate)
          = toLowerCase (kiroNormalizedPlan (exampleKiroEnv (exampleCredits Null Null))
              (exampleKiroNamedAccount (Val ''PRO'') Undefined))"
  then have "toLowerCase (getKiroPlanDisplayName (exampleKiroEnv (exampleCredits Null Null)) (Val []))
           = toLowerCase (getKiroPlanDisplayName (exampleKiroEnv (exampleCredits Null Null))
               (Val ''PRO''))"
    using kiro_planClass_dilemma[of "''PRO''"] trim_PRO by blast
  moreover have "toLowerCase (examplePlanName (Val [])) = ''free''"
    "toLowerCase (examplePlanName (Val ''PRO'')) = ''pro''"
    by code_simp+
  ultimately show False by (simp add: exampleKiroEnv_def)
qed

text \<open>
  C4, amended. For every Antigravity, Codex, GitHub Copilot and Windsurf account the plan
  class is the normalised plan name in lower case, also when a raw plan is present and
  displayed as the plan label. For every Kiro account the plan class is the badge class of
  the displayed plan label; that label is the first of the trimmed plan type, plan name
  and plan tier that is not empty, and the normalised plan name when none is; two Kiro
  accounts with the same label have the same class.
\<close>

theorem planClass_derivation:
  "planClass (buildAntigravityAccountPresentation R Ea a groups t)
     = toLowerCase (getSubscriptionTier Ea (ag_quota a))
   \<and> planClass (buildCodexAccountPresentation R Ec c t)
     = toLowerCase (getCodexPlanDisplayName Ec (cx_plan_type c))
   \<and> planClass (buildGitHubCopilotAccountPresentation R Eg g t)
     = toLowerCase (getGitHubCopilotPlanDisplayName Eg
         (orNullable (gh_plan_type g) (gh_copilot_plan g)))
   \<and> planClass (buildWindsurfAccountPresentation R Ew w t)
     = toLowerCase (getWindsurfPlanDisplayName Ew
         (nullish (nullish (nullish (ws_plan_type w) (ws_copilot_plan w))
            (planName (getWindsurfCreditsSummary Ew w))) Null))
   \<and> (optTrim (cx_plan_type c) = Some raw \<and> raw \<noteq> [] \<longrightarrow>
        planLabel (buildCodexAccountPresentation R Ec c t) = raw)
   \<and> (optTrim (gh_plan_type g) = Some raw \<and> raw \<noteq> [] \<longrightarrow>
        planLabel (buildGitHubCopilotAccountPresentation R Eg g t) = raw)
   \<and> (optTrim (ws_plan_type w) = Some raw \<and> raw \<noteq> [] \<longrightarrow>
        planLabel (buildWindsurfAccountPresentation R Ew w t) = raw)
   \<and> planClass (buildKiroAccountPresentation R Ek k t)
     = getKiroPlanBadgeClass Ek (planLabel (buildKiroAccountPresentation R Ek k t))
   \<and> (optTrim (kiro_plan_type k) = Some raw \<and> raw \<noteq> [] \<longrightarrow>
        planLabel (buildKiroAccountPresentation R Ek k t) = raw)
   \<and> (\<not> truthyStr (optTrim (kiro_plan_type k))
        \<and> optTrim (kiro_plan_name k) = Some raw \<and> raw \<noteq> [] \<longrightarrow>
        planLabel (buildKiroAccountPresentation R Ek k t) = raw)
   \<and> (\<not> truthyStr (optTrim (kiro_plan_type k)) \<and> \<not> truthyStr (optTrim (kiro_plan_name k))
        \<and> optTrim (kiro_plan_tier k) = Some raw \<and> raw \<noteq> [] \<longrightarrow>
        planLabel (buildKiroAccountPresentation R Ek k t) = raw)
   \<and> (\<not> truthyStr (optTrim (kiro_plan_type k)) \<and> \<not> truthyStr (optTrim (kiro_plan_name k))
        \<and> \<not> truthyStr (optTrim (kiro_plan_tier k)) \<longrightarrow>
        planLabel (buildKiroAccountPresentation R Ek k t) = kiroNormalizedPlan Ek k)
   \<and> (planLabel (buildKiroAccountPresentation R Ek k t)
          = planLabel (buildKiroAccountPresentation R Ek k' t) \<longrightarrow>
        planClass (buildKiroAccountPresentation R Ek k t)
          = planClass (buildKiroAccountPresentation R Ek k' t))"
proof -
  have ag: "planClass (buildAntigravityAccountPresentation R Ea a groups t)
     = toLowerCase (getSubscriptionTier Ea (ag_quota a))"
    by (simp add: buildAntigravityAccountPresentation_def Let_def)
  have cx: "planClass (buildCodexAccountPresentation R Ec c t)
     = toLowerCase (getCodexPlanDisplayName Ec (cx_plan_type c))"
    by (simp add: buildCodexAccountPresentation_def Let_def)
  have gh: "planClass (buildGitHubCopilotAccountPresentation R Eg g t)
     = toLowerCase (getGitHubCopilotPlanDisplayName Eg
         (orNullable (gh_plan_type g) (gh_copilot_plan g)))"
    by (simp add: buildGitHubCopilotAccountPresentation_def Let_def)
  have ws: "planClass (buildWindsurfAccountPresentation R Ew w t)
     = toLowerCase (getWindsurfPlanDisplayName Ew
         (nullish (nullish (nullish (ws_plan_type w) (ws_copilot_plan w))
            (planName (getWindsurfCreditsSummary Ew w))) Null))"
    by (simp add: buildWindsurfAccountPresentation_def Let_def)
  have cxl: "optTrim (cx_plan_type c) = Some raw \<and> raw \<noteq> [] \<longrightarrow>
        planLabel (buildCodexAccountPresentation R Ec c t) = raw"
    by (simp add: buildCodexAccountPresentation_def Let_def orDefault_def)
  have ghl: "optTrim (gh_plan_type g) = Some raw \<and> raw \<noteq> [] \<longrightarrow>
        planLabel (buildGitHubCopilotAccountPresentation R Eg g t) = raw"
    by (simp add: buildGitHubCopilotAccountPresentation_def Let_def orDefault_def orStr_def)
  have wsl: "optTrim (ws_plan_type w) = Some raw \<and> raw \<noteq> [] \<longrightarrow>
        planLabel (buildWindsurfAccountPresentation R Ew w t) = raw"
    by (simp add: buildWindsurfAccountPresentation_def Let_def orDefault_def orStr_def)
  have ki: "planClass (buildKiroAccountPresentation R Ek k t)
     = getKiroPlanBadgeClass Ek (planLabel (buildKiroAccountPresentation R Ek k t))"
    by (rule kiro_planClass_label)
  have k1: "optTrim (kiro_plan_type k) = Some raw \<and> raw \<noteq> [] \<longrightarrow>
        planLabel (buildKiroAccountPresentation R Ek k t) = raw"
    by (simp add: kiro_planLabel orDefault_def orStr_def)
  have k2: "\<not> truthyStr (optTrim (kiro_plan_type k))
        \<and> optTrim (kiro_plan_name k) = Some raw \<and> raw \<noteq> [] \<longrightarrow>
        planLabel (buildKiroAccountPresentation R Ek k t) = raw"
    by (simp add: kiro_planLabel orDefault_def orStr_def)
  have k3: "\<not> truthyStr (optTrim (kiro_plan_type k)) \<and> \<not> truthyStr (optTrim (kiro_plan_name k))
        \<and> optTrim (kiro_plan_tier k) = Some raw \<and> raw \<noteq> [] \<longrightarrow>
        planLabel (buildKiroAccountPresentation R Ek k t) = raw"
    by (simp add: kiro_planLabel orDefault_def orStr_def)
  have k4: "\<not> truthyStr (optTrim (kiro_plan_type k)) \<and> \<not> truthyStr (optTrim (kiro_plan_name k))
        \<and> \<not> truthyStr (optTrim (kiro_plan_tier k)) \<longrightarrow>
        planLabel (buildKiroAccountPresentation R Ek k t) = kiroNormalizedPlan Ek k"
    by (cases "optTrim (kiro_plan_tier k)")
      (auto simp: kiro_planLabel orDefault_def orStr_def)
  have k5: "planLabel (buildKiroAccountPresentation R Ek k t)
          = planLabel (buildKiroAccountPresentation R Ek k' t) \<longrightarrow>
        planClass (buildKiroAccountPresentation R Ek k t)
          = planClass (buildKiroAccountPresentation R Ek k' t)"
    by (simp add: kiro_planClass_label)
  from ag cx gh ws cxl ghl wsl ki k1 k2 k3 k4 k5 show ?thesis by blast
qed

theorem planClass_derivation_witness:
  "planClass (buildCodexAccountPresentation exampleRuntime exampleCodexEnv
      (exampleCodexAccount ''c1'' 1 (Val '' Pro (legacy) '') Null Undefined) exampleTranslate) = ''pro''
   \<and> planLabel (buildCodexAccountPresentation exampleRuntime exampleCodexEnv
      (exampleCodexAccount ''c1'' 1 (Val '' Pro (legacy) '') Null Undefined) exampleTranslate)
       = ''Pro (legacy)''
   \<and> planLabel (buildKiroAccountPresentation exampleRuntime
       (exampleKiroEnv (exampleCredits Null Null))
       (exampleKiroAccount (Val '' Pro (legacy) '')) exampleTranslate) = ''Pro (legacy)''
   \<and> planClass (buildKiroAccountPresentation exampleRuntime
       (exampleKiroEnv (exampleCredits Null Null))
       (exampleKiroAccount (Val '' Pro (legacy) '')) exampleTranslate)
       = getKiroPlanBadgeClass (exampleKiroEnv (exampleCredits Null Null)) ''Pro (legacy)''
   \<and> planLabel (buildKiroAccountPresentation exampleRuntime
       (exampleKiroEnv (exampleCredits Null Null))
       (exampleKiroNamedAccount (Val []) (Val ''PRO'')) exampleTranslate) = ''PRO''
   \<and> planLabel (buildKiroAccountPresentation exampleRuntime
       (exampleKiroEnv (exampleCredits Null Null))
       (exampleKiroNamedAccount Undefined Null) exampleTranslate) = ''FREE''
   \<and> planClass (buildKiroAccountPresentation exampleRuntime
       (exampleKiroEnv (exampleCredits Null Null))
       (exampleKiroNamedAccount (Val []) (Val ''PRO'')) exampleTranslate)
       = planClass (buildKiroAccountPresentation exampleRuntime
           (exampleKiroEnv (exampleCredits Null Null))
           (exampleKiroNamedAccount (Val ''PRO'') Undefined) exampleTranslate)
   \<and> planClass (buildWindsurfAccountPresentation exampleRuntime
       (exampleWindsurfEnv (exampleCredits Null Null))
       (exampleWindsurfAccount (Val '' Pro (legacy) '')) exampleTranslate) = ''pro''
   \<and> planClass (buildGitHubCopilotAccountPresentation exampleRuntime exampleCopilotEnv
       (exampleCopilotAccount (Val '' Pro (legacy) '')) exampleTranslate) = ''pro''
   \<and> planClass (buildAntigravityAccountPresentation exampleRuntime exampleAntigravityEnv
       exampleAccount [] exampleTranslate) = ''pro''"
proof -
  let ?E = "exampleKiroEnv (exampleCredits Null Null)"
  have raw: "optTrim (Val '' Pro (legacy) '') = Some ''Pro (legacy)''"
    by code_simp
  have lower: "toLowerCase ''PRO'' = ''pro''"
    by code_simp
  have name: "examplePlanName (Val '' Pro (legacy) '') = ''PRO''"
    "examplePlanName (orNullable (Val '' Pro (legacy) '') (Val ''business'')) = ''PRO''"
    "examplePlanName Null = ''FREE''"
    by code_simp+
  have main: "planClass (buildCodexAccountPresentation exampleRuntime exampleCodexEnv
      (exampleCodexAccount ''c1'' 1 (Val '' Pro (legacy) '') Null Undefined) exampleTranslate) = ''pro''
   \<and> planLabel (buildCodexAccountPresentation exampleRuntime exampleCodexEnv
      (exampleCodexAccount ''c1'' 1 (Val '' Pro (legacy) '') Null Undefined) exampleTranslate)
       = ''Pro (legacy)''
   \<and> planLabel (buildKiroAccountPresentation exampleRuntime ?E
       (exampleKiroAccount (Val '' Pro (legacy) '')) exampleTranslate) = ''Pro (legacy)''
   \<and> planClass (buildKiroAccountPresentation exampleRuntime ?E
       (exampleKiroAccount (Val '' Pro (legacy) '')) exampleTranslate)
       = getKiroPlanBadgeClass ?E ''Pro (legacy)''
   \<and> planClass (buildWindsurfAccountPresentation exampleRuntime
       (exampleWindsurfEnv (exampleCredits Null Null))
       (exampleWindsurfAccount (Val '' Pro (legacy) '')) exampleTranslate) = ''pro''
   \<and> planClass (buildGitHubCopilotAccountPresentation exampleRuntime exampleCopilotEnv
       (exampleCopilotAccount (Val '' Pro (legacy) '')) exampleTranslate) = ''pro''
   \<and> planClass (buildAntigravityAccountPresentation exampleRuntime exampleAntigravityEnv
       exampleAccount [] exampleTranslate) = ''pro''"
    using planClass_derivation[of exampleRuntime exampleAntigravityEnv exampleAccount "[]"
        exampleTranslate exampleCodexEnv
        "exampleCodexAccount ''c1'' 1 (Val '' Pro (legacy) '') Null Undefined"
        exampleCopilotEnv "exampleCopilotAccount (Val '' Pro (legacy) '')"
        "exampleWindsurfEnv (exampleCredits Null Null)"
        "exampleWindsurfAccount (Val '' Pro (legacy) '')" "''Pro (legacy)''"
        ?E "exampleKiroAccount (Val '' Pro (legacy) '')"
        "exampleKiroAccount (Val '' Pro (legacy) '')"]
      raw lower name
    by (simp add: exampleCodexEnv_def exampleCodexAccount_def
        exampleKiroAccount_def exampleWindsurfEnv_def exampleWindsurfAccount_def
        exampleCopilotEnv_def exampleCopilotAccount_def exampleAntigravityEnv_def
        exampleAccount_def exampleCredits_def)
  have t1: "optTrim (kiro_plan_type (exampleKiroNamedAccount (Val []) (Val ''PRO''))) = Some []"
    "optTrim (kiro_plan_name (exampleKiroNamedAccount (Val []) (Val ''PRO''))) = Some ''PRO''"
    "optTrim (kiro_plan_type (exampleKiroNamedAccount (Val ''PRO'') Undefined)) = Some ''PRO''"
    by (simp_all add: exampleKiroNamedAccount_def trim_empty trim_PRO)
  have l1: "planLabel (buildKiroAccountPresentation exampleRuntime ?E
       (exampleKiroNamedAccount (Val []) (Val ''PRO'')) exampleTranslate) = ''PRO''"
    using planClass_derivation[of exampleRuntime exampleAntigravityEnv exampleAccount "[]"
        exampleTranslate exampleCodexEnv
        "exampleCodexAccount ''c1'' 1 (Val '' Pro (legacy) '') Null Undefined"
        exampleCopilotEnv "exampleCopilotAccount (Val '' Pro (legacy) '')"
        "exampleWindsurfEnv (exampleCredits Null Null)"
        "exampleWindsurfAccount (Val '' Pro (legacy) '')" "''PRO''"
        ?E "exampleKiroNamedAccount (Val []) (Val ''PRO'')"
        "exampleKiroNamedAccount (Val ''PRO'') Undefined"] t1
    by simp
  have l2: "planLabel (buildKiroAccountPresentation exampleRuntime ?E
       (exampleKiroNamedAccount (Val ''PRO'') Undefined) exampleTranslate) = ''PRO''"
    using planClass_derivation[of exampleRuntime exampleAntigravityEnv exampleAccount "[]"
        exampleTranslate exampleCodexEnv
        "exampleCodexAccount ''c1'' 1 (Val '' Pro (legacy) '') Null Undefined"
        exampleCopilotEnv "exampleCopilotAccount (Val '' Pro (legacy) '')"
        "exampleWindsurfEnv (exampleCredits Null Null)"
        "exampleWindsurfAccount (Val '' Pro (legacy) '')" "''PRO''"
        ?E "exampleKiroNamedAccount (Val ''PRO'') Undefined"
        "exampleKiroNamedAccount (Val ''PRO'') Undefined"] t1
    by simp
  have c12: "planClass (buildKiroAccountPresentation exampleRuntime ?E
       (exampleKiroNamedAccount (Val []) (Val ''PRO'')) exampleTranslate)
       = planClass (buildKiroAccountPresentation exampleRuntime ?E
           (exampleKiroNamedAccount (Val ''PRO'') Undefined) exampleTranslate)"
    using planClass_derivation[of exampleRuntime exampleAntigravityEnv exampleAccount "[]"
        exampleTranslate exampleCodexEnv
        "exampleCodexAccount ''c1'' 1 (Val '' Pro (legacy) '') Null Undefined"
        exampleCopilotEnv "exampleCopilotAccount (Val '' Pro (legacy) '')"
        "exampleWindsurfEnv (exampleCredits Null Null)"
        "exampleWindsurfAccount (Val '' Pro (legacy) '')" "''PRO''"
        ?E "exampleKiroNamedAccount (Val []) (Val ''PRO'')"
        "exampleKiroNamedAccount (Val ''PRO'') Undefined"] l1 l2
    by metis
  have t3: "\<not> truthyStr (optTrim (kiro_plan_type (exampleKiroNamedAccount Undefined Null)))"
    "\<not> truthyStr (optTrim (kiro_plan_name (exampleKiroNamedAccount Undefined Null)))"
    "\<not> truthyStr (optTrim (kiro_plan_tier (exampleKiroNamedAccount Undefined Null)))"
    by (simp_all add: exampleKiroNamedAccount_def)
  have "kiroNormalizedPlan ?E (exampleKiroNamedAccount Undefined Null) = ''FREE''"
    by (simp add: kiroNormalizedPlan_def exampleKiroNamedAccount_def exampleKiroEnv_def
        exampleCredits_def name)
  then have l3: "planLabel (buildKiroAccountPresentation exampleRuntime ?E
       (exampleKiroNamedAccount Undefined Null) exampleTranslate) = ''FREE''"
    using planClass_derivation[of exampleRuntime exampleAntigravityEnv exampleAccount "[]"
        exampleTranslate exampleCodexEnv
        "exampleCodexAccount ''c1'' 1 (Val '' Pro (legacy) '') Null Undefined"
        exampleCopilotEnv "exampleCopilotAccount (Val '' Pro (legacy) '')"
        "exampleWindsurfEnv (exampleCredits Null Null)"
        "exampleWindsurfAccount (Val '' Pro (legacy) '')" "''PRO''"
        ?E "exampleKiroNamedAccount Undefined Null"
        "exampleKiroNamedAccount Undefined Null"] t3
    by simp
  from main l1 l3 c12 show ?thesis by simp
qed

section \<open>Properties of the account list\<close>

lemma set_js_insert: "set (js_insert cmp x ys) = insert x (set ys)"
  by (induction ys) auto

lemma set_js_sort: "set (js_sort cmp xs) = set xs"
  by (induction xs) (simp_all add: set_js_insert)

lemma length_js_insert: "length (js_insert cmp x ys) = Suc (length ys)"
  by (induction ys) auto

lemma length_js_sort: "length (js_sort cmp xs) = length xs"
  by (induction xs) (simp_all add: length_js_insert)

lemma distinct_js_insert: "distinct (map f (js_insert cmp x ys)) = distinct (map f (x # ys))"
  by (induction ys) (auto simp: set_js_insert)

lemma distinct_js_sort: "distinct (map f (js_sort cmp xs)) = distinct (map f xs)"
  by (induction xs) (simp_all add: distinct_js_insert set_js_sort)

lemma sorted_wrt_js_insert:
  assumes after: "\<And>x y. cmp x y > 0 \<Longrightarrow> R y x"
    and before: "\<And>x y. \<not> cmp x y > 0 \<Longrightarrow> R x y"
    and trans: "\<And>x y z. R x y \<Longrightarrow> R y z \<Longrightarrow> R x z"
    and sorted: "sorted_wrt R ys"
  shows "sorted_wrt R (js_insert cmp x ys)"
  using sorted
proof (induction ys)
  case Nil
  show ?case by simp
next
  case (Cons y ys)
  show ?case
  proof (cases "cmp x y > 0")
    case True
    with Cons after show ?thesis by (auto simp: set_js_insert)
  next
    case False
    then have "R x y" by (rule before)
    with Cons.prems trans have "\<forall>z\<in>set ys. R x z" by auto
    with False \<open>R x y\<close> Cons.prems show ?thesis by simp
  qed
qed

lemma sorted_wrt_js_sort:
  assumes after: "\<And>x y. cmp x y > 0 \<Longrightarrow> R y x"
    and before: "\<And>x y. \<not> cmp x y > 0 \<Longrightarrow> R x y"
    and trans: "\<And>x y z. R x y \<Longrightarrow> R y z \<Longrightarrow> R x z"
  shows "sorted_wrt R (js_sort cmp xs)"
proof (induction xs)
  case Nil
  show ?case by simp
next
  case (Cons x xs)
  then show ?case
    using sorted_wrt_js_insert[of cmp R "js_sort cmp xs" x] after before trans by simp
qed

lemma filteredAccounts_is_sort:
  "\<exists>xs. filteredAccounts R E t st accounts = js_sort (codexCompare (sortBy st) (sortDirection st)) xs"
  unfolding filteredAccounts_def Let_def by (rule exI) (rule refl)

lemma reset_nulls_last:
  assumes key: "k = ''weekly_reset'' \<or> k = ''hourly_reset''"
  shows "sorted_wrt (\<lambda>a b. codexResetOf k a = None \<longrightarrow> codexResetOf k b = None)
           (js_sort (codexCompare k dir) xs)"
proof (rule sorted_wrt_js_sort)
  fix x y :: CodexAccount
  assume "codexCompare k dir x y > 0"
  with key show "codexResetOf k y = None \<longrightarrow> codexResetOf k x = None"
    by (auto simp: codexCompare_def split: option.splits)
next
  fix x y :: CodexAccount
  assume "\<not> codexCompare k dir x y > 0"
  with key show "codexResetOf k x = None \<longrightarrow> codexResetOf k y = None"
    by (auto simp: codexCompare_def split: option.splits)
qed auto

lemma quota_desc_sorted:
  assumes key: "k \<noteq> ''created_at''" "k \<noteq> ''weekly_reset''" "k \<noteq> ''hourly_reset''"
  shows "sorted_wrt (\<lambda>a b. codexValueOf k a \<ge> codexValueOf k b)
           (js_sort (codexCompare k Desc) xs)"
proof (rule sorted_wrt_js_sort)
  fix x y :: CodexAccount
  assume "codexCompare k Desc x y > 0"
  with key show "codexValueOf k y \<ge> codexValueOf k x"
    by (simp add: codexCompare_def Let_def)
next
  fix x y :: CodexAccount
  assume "\<not> codexCompare k Desc x y > 0"
  with key show "codexValueOf k x \<ge> codexValueOf k y"
    by (simp add: codexCompare_def Let_def)
qed auto

lemma quota_asc_sorted:
  assumes key: "k \<noteq> ''created_at''" "k \<noteq> ''weekly_reset''" "k \<noteq> ''hourly_reset''"
  shows "sorted_wrt (\<lambda>a b. codexValueOf k a \<le> codexValueOf k b)
           (js_sort (codexCompare k Asc) xs)"
proof (rule sorted_wrt_js_sort)
  fix x y :: CodexAccount
  assume "codexCompare k Asc x y > 0"
  with key show "codexValueOf k y \<le> codexValueOf k x"
    by (simp add: codexCompare_def Let_def)
next
  fix x y :: CodexAccount
  assume "\<not> codexCompare k Asc x y > 0"
  with key show "codexValueOf k x \<le> codexValueOf k y"
    by (simp add: codexCompare_def Let_def)
qed auto

text \<open>
  C5, as stated, with the key \<^verbatim>\<open>weekly\<close> in ascending direction: the account without
  quota comes before the account with a weekly percentage of 50.
\<close>

theorem missing_quota_sorts_first_counterexample:
  "cx_quota (exampleCodexAccount ''a'' 1 Null Null Undefined) = Undefined
   \<and> quotaField weekly_percentage (cx_quota (exampleCodexAccount ''b'' 2 Null Null
        (exampleQuota 50 Null))) = Val 50
   \<and> filteredAccounts exampleRuntime exampleCodexEnv exampleTranslate
        (exampleState ''weekly'' Asc)
        [exampleCodexAccount ''b'' 2 Null Null (exampleQuota 50 Null),
         exampleCodexAccount ''a'' 1 Null Null Undefined]
      = [exampleCodexAccount ''a'' 1 Null Null Undefined,
         exampleCodexAccount ''b'' 2 Null Null (exampleQuota 50 Null)]"
  by (simp add: filteredAccounts_def exampleState_def trim_def codexCompare_def codexValueOf_def
      exampleCodexAccount_def exampleQuota_def)

text \<open>
  C5, amended. With a reset-time key (\<^verbatim>\<open>weekly_reset\<close>, \<^verbatim>\<open>hourly_reset\<close>) an account
  whose reset time is null or missing comes after every account that has one, in both
  directions. With a quota key a missing percentage counts as -1 and the list is ordered
  by that value: in descending direction an account without percentage comes after every
  account whose percentage is above -1, in ascending direction before it. The creation
  time is a number and is never missing.
\<close>

theorem codex_sort_null_placement:
  "((sortBy st = ''weekly_reset'' \<or> sortBy st = ''hourly_reset'')
      \<and> i < j \<and> j < length (filteredAccounts R E t st accounts)
      \<and> codexResetOf (sortBy st) (filteredAccounts R E t st accounts ! i) = None
     \<longrightarrow> codexResetOf (sortBy st) (filteredAccounts R E t st accounts ! j) = None)
   \<and> ((sortBy st \<noteq> ''created_at'' \<and> sortBy st \<noteq> ''weekly_reset'' \<and> sortBy st \<noteq> ''hourly_reset'')
      \<and> sortDirection st = Desc
      \<and> i < j \<and> j < length (filteredAccounts R E t st accounts)
     \<longrightarrow> codexValueOf (sortBy st) (filteredAccounts R E t st accounts ! j)
          \<le> codexValueOf (sortBy st) (filteredAccounts R E t st accounts ! i))
   \<and> ((sortBy st \<noteq> ''created_at'' \<and> sortBy st \<noteq> ''weekly_reset'' \<and> sortBy st \<noteq> ''hourly_reset'')
      \<and> sortDirection st = Asc
      \<and> i < j \<and> j < length (filteredAccounts R E t st accounts)
     \<longrightarrow> codexValueOf (sortBy st) (filteredAccounts R E t st accounts ! i)
          \<le> codexValueOf (sortBy st) (filteredAccounts R E t st accounts ! j))
   \<and> ((\<forall>v. quotaField weekly_percentage (cx_quota a) \<noteq> Val v) \<longrightarrow> codexValueOf ''weekly'' a = - 1)
   \<and> ((\<forall>v. quotaField hourly_percentage (cx_quota a) \<noteq> Val v) \<and> k \<noteq> ''weekly''
        \<longrightarrow> codexValueOf k a = - 1)"
proof -
  obtain xs where xs: "filteredAccounts R E t st accounts
      = js_sort (codexCompare (sortBy st) (sortDirection st)) xs"
    using filteredAccounts_is_sort by blast
  have a: "(sortBy st = ''weekly_reset'' \<or> sortBy st = ''hourly_reset'')
      \<and> i < j \<and> j < length (filteredAccounts R E t st accounts)
      \<and> codexResetOf (sortBy st) (filteredAccounts R E t st accounts ! i) = None
     \<longrightarrow> codexResetOf (sortBy st) (filteredAccounts R E t st accounts ! j) = None"
    unfolding xs using reset_nulls_last[of "sortBy st" "sortDirection st" xs]
    by (auto simp: sorted_wrt_iff_nth_less)
  have b: "(sortBy st \<noteq> ''created_at'' \<and> sortBy st \<noteq> ''weekly_reset'' \<and> sortBy st \<noteq> ''hourly_reset'')
      \<and> sortDirection st = Desc
      \<and> i < j \<and> j < length (filteredAccounts R E t st accounts)
     \<longrightarrow> codexValueOf (sortBy st) (filteredAccounts R E t st accounts ! j)
          \<le> codexValueOf (sortBy st) (filteredAccounts R E t st accounts ! i)"
    unfolding xs using quota_desc_sorted[of "sortBy st" xs]
    by (auto simp: sorted_wrt_iff_nth_less)
  have c: "(sortBy st \<noteq> ''created_at'' \<and> sortBy st \<noteq> ''weekly_reset'' \<and> sortBy st \<noteq> ''hourly_reset'')
      \<and> sortDirection st = Asc
      \<and> i < j \<and> j < length (filteredAccounts R E t st accounts)
     \<longrightarrow> codexValueOf (sortBy st) (filteredAccounts R E t st accounts ! i)
          \<le> codexValueOf (sortBy st) (filteredAccounts R E t st accounts ! j)"
    unfolding xs using quota_asc_sorted[of "sortBy st" xs]
    by (auto simp: sorted_wrt_iff_nth_less)
  have d: "(\<forall>v. quotaField weekly_percentage (cx_quota a) \<noteq> Val v) \<longrightarrow> codexValueOf ''weekly'' a = - 1"
    by (cases "quotaField weekly_percentage (cx_quota a)") (simp_all add: codexValueOf_def)
  have e: "(\<forall>v. quotaField hourly_percentage (cx_quota a) \<noteq> Val v) \<and> k \<noteq> ''weekly''
        \<longrightarrow> codexValueOf k a = - 1"
    by (cases "quotaField hourly_percentage (cx_quota a)") (simp_all add: codexValueOf_def)
  from a b c d e show ?thesis by blast
qed

theorem codex_sort_null_placement_witness:
  "filteredAccounts exampleRuntime exampleCodexEnv exampleTranslate
       (exampleState ''weekly_reset'' Asc) exampleAccounts
     = [exampleAccounts ! 1, exampleAccounts ! 0, exampleAccounts ! 2]
   \<and> codexResetOf ''weekly_reset''
       (filteredAccounts exampleRuntime exampleCodexEnv exampleTranslate
          (exampleState ''weekly_reset'' Asc) exampleAccounts ! 2) = None
   \<and> codexValueOf ''weekly''
       (filteredAccounts exampleRuntime exampleCodexEnv exampleTranslate
          (exampleState ''weekly'' Desc) exampleAccounts ! 2)
     \<le> codexValueOf ''weekly''
       (filteredAccounts exampleRuntime exampleCodexEnv exampleTranslate
          (exampleState ''weekly'' Desc) exampleAccounts ! 1)"
proof -
  let ?f = "\<lambda>k d. filteredAccounts exampleRuntime exampleCodexEnv exampleTranslate
       (exampleState k d) exampleAccounts"
  have r: "?f ''weekly_reset'' Asc = [exampleAccounts ! 1, exampleAccounts ! 0, exampleAccounts ! 2]"
    by code_simp
  have len: "length (?f ''weekly_reset'' Asc) = 3" "length (?f ''weekly'' Desc) = 3"
    by code_simp+
  have null: "codexResetOf ''weekly_reset'' (?f ''weekly_reset'' Asc ! 1) = None"
    by code_simp
  have k1: "sortBy (exampleState ''weekly_reset'' Asc) = ''weekly_reset''"
    and k2: "sortBy (exampleState ''weekly'' Desc) = ''weekly''"
      "sortDirection (exampleState ''weekly'' Desc) = Desc"
    by (simp_all add: exampleState_def)
  have a: "codexResetOf ''weekly_reset'' (?f ''weekly_reset'' Asc ! 2) = None"
    using codex_sort_null_placement[of "exampleState ''weekly_reset'' Asc" 1 2 exampleRuntime
        exampleCodexEnv exampleTranslate exampleAccounts] null len
    unfolding k1 by simp
  have b: "codexValueOf ''weekly'' (?f ''weekly'' Desc ! 2)
             \<le> codexValueOf ''weekly'' (?f ''weekly'' Desc ! 1)"
    using codex_sort_null_placement[of "exampleState ''weekly'' Desc" 1 2 exampleRuntime
        exampleCodexEnv exampleTranslate exampleAccounts] len
    unfolding k2 by simp
  from r a b show ?thesis by (intro conjI)
qed

subsection \<open>Groups\<close>

lemma groupStep_pushAll: "groupStep tf g a = pushAll g (map (\<lambda>k. (k, a)) (groupKeysOf tf a))"
  by (simp add: groupStep_def groupKeysOf_def pushAll_def Let_def foldl_map)

lemma pushAll_append: "pushAll g (ps @ qs) = pushAll (pushAll g ps) qs"
  by (simp add: pushAll_def)

lemma foldl_groupStep: "foldl (groupStep tf) g xs = pushAll g (groupPairs tf xs)"
proof (induction xs arbitrary: g)
  case Nil
  show ?case by (simp add: groupPairs_def pushAll_def)
next
  case (Cons a xs)
  have pairs: "groupPairs tf (a # xs) = map (\<lambda>k. (k, a)) (groupKeysOf tf a) @ groupPairs tf xs"
    by (simp add: groupPairs_def)
  have "foldl (groupStep tf) g (a # xs) = foldl (groupStep tf) (groupStep tf g a) xs"
    by simp
  also have "\<dots> = pushAll (groupStep tf g a) (groupPairs tf xs)"
    by (rule Cons.IH)
  also have "\<dots> = pushAll g (groupPairs tf (a # xs))"
    unfolding pairs pushAll_append groupStep_pushAll ..
  finally show ?case .
qed

lemma keys_mapPush: "fst ` set (mapPush g k a) = insert k (fst ` set g)"
  by (induction g k a rule: mapPush.induct) auto

lemma distinct_mapPush: "distinct (map fst g) \<Longrightarrow> distinct (map fst (mapPush g k a))"
  by (induction g k a rule: mapPush.induct) (auto simp: keys_mapPush)

lemma bucketOf_mapPush:
  "bucketOf (mapPush g k a) k' = (if k' = k then bucketOf g k @ [a] else bucketOf g k')"
  by (induction g k a rule: mapPush.induct) (auto simp: bucketOf_def)

lemma keys_pushAll: "fst ` set (pushAll g ps) = fst ` set g \<union> fst ` set ps"
proof (induction ps arbitrary: g)
  case Nil
  show ?case by (simp add: pushAll_def)
next
  case (Cons p ps)
  have "pushAll g (p # ps) = pushAll (mapPush g (fst p) (snd p)) ps"
    by (simp add: pushAll_def)
  then show ?case by (simp add: Cons.IH keys_mapPush)
qed

lemma distinct_pushAll: "distinct (map fst g) \<Longrightarrow> distinct (map fst (pushAll g ps))"
proof (induction ps arbitrary: g)
  case Nil
  then show ?case by (simp add: pushAll_def)
next
  case (Cons p ps)
  have "pushAll g (p # ps) = pushAll (mapPush g (fst p) (snd p)) ps"
    by (simp add: pushAll_def)
  with Cons show ?case by (simp add: distinct_mapPush)
qed

lemma bucketOf_pushAll:
  "bucketOf (pushAll g ps) k = bucketOf g k @ map snd (filter (\<lambda>p. fst p = k) ps)"
proof (induction ps arbitrary: g)
  case Nil
  show ?case by (simp add: pushAll_def)
next
  case (Cons p ps)
  have "pushAll g (p # ps) = pushAll (mapPush g (fst p) (snd p)) ps"
    by (simp add: pushAll_def)
  then show ?case by (simp add: Cons.IH bucketOf_mapPush)
qed

lemma bucketOf_Nil: "bucketOf [] k = []"
  by (simp add: bucketOf_def)

lemma entry_iff_bucket:
  assumes "distinct (map fst g)"
  shows "(k, b) \<in> set g \<longleftrightarrow> k \<in> fst ` set g \<and> bucketOf g k = b"
proof
  assume "(k, b) \<in> set g"
  with assms have "map_of g k = Some b" by simp
  with \<open>(k, b) \<in> set g\<close> show "k \<in> fst ` set g \<and> bucketOf g k = b"
    by (force simp: bucketOf_def)
next
  assume r: "k \<in> fst ` set g \<and> bucketOf g k = b"
  then obtain b' where "(k, b') \<in> set g" by auto
  with assms have "map_of g k = Some b'" by simp
  with r \<open>(k, b') \<in> set g\<close> show "(k, b) \<in> set g" by (simp add: bucketOf_def)
qed

lemma count_bucket: "count_list (map snd (filter (\<lambda>p. fst p = k) ps)) a = count_list ps (k, a)"
  by (induction ps) (auto simp: prod_eq_iff)

lemma count_tagged: "count_list (map (\<lambda>k. (k, x)) ks) (k, a) = (if x = a then count_list ks k else 0)"
  by (induction ks) auto

lemma count_groupPairs:
  "count_list (groupPairs tf xs) (k, a) = count_list xs a * count_list (groupKeysOf tf a) k"
proof (induction xs)
  case Nil
  show ?case by (simp add: groupPairs_def)
next
  case (Cons x xs)
  have "groupPairs tf (x # xs) = map (\<lambda>k. (k, x)) (groupKeysOf tf x) @ groupPairs tf xs"
    by (simp add: groupPairs_def)
  then show ?case by (simp add: Cons.IH count_tagged)
qed

lemma set_groupPairs:
  "(k, a) \<in> set (groupPairs tf xs) \<longleftrightarrow> a \<in> set xs \<and> k \<in> set (groupKeysOf tf a)"
  by (auto simp: groupPairs_def)

lemma grouped_entries:
  assumes "groupByTag st"
  shows "set (groupedAccounts R st xs) = set (pushAll [] (groupPairs (tagFilter st) xs))"
    and "distinct (map fst (groupedAccounts R st xs))"
  using assms
  by (simp_all add: groupedAccounts_def foldl_groupStep set_js_sort distinct_js_sort
      distinct_pushAll)

lemma grouped_entry_iff:
  assumes "groupByTag st"
  shows "(k, b) \<in> set (groupedAccounts R st xs) \<longleftrightarrow>
     k \<in> fst ` set (groupPairs (tagFilter st) xs)
     \<and> b = map snd (filter (\<lambda>p. fst p = k) (groupPairs (tagFilter st) xs))"
proof -
  have d: "distinct (map fst (pushAll [] (groupPairs (tagFilter st) xs)))"
    by (simp add: distinct_pushAll)
  show ?thesis
    unfolding grouped_entries(1)[OF assms] entry_iff_bucket[OF d]
    by (auto simp: keys_pushAll bucketOf_pushAll bucketOf_Nil)
qed

lemma grouped_bucket:
  assumes g: "groupByTag st" and a: "a \<in> set xs" and k: "k \<in> set (groupKeysOf (tagFilter st) a)"
  shows "\<exists>b. (k, b) \<in> set (groupedAccounts R st xs) \<and> a \<in> set b
           \<and> count_list b a = count_list xs a * count_list (groupKeysOf (tagFilter st) a) k"
proof -
  let ?ps = "groupPairs (tagFilter st) xs"
  let ?b = "map snd (filter (\<lambda>p. fst p = k) ?ps)"
  from a k have in_ps: "(k, a) \<in> set ?ps" by (simp add: set_groupPairs)
  then have "k \<in> fst ` set ?ps" by force
  then have "(k, ?b) \<in> set (groupedAccounts R st xs)"
    by (simp add: grouped_entry_iff[OF g])
  moreover from in_ps have "a \<in> set ?b" by force
  moreover have "count_list ?b a = count_list xs a * count_list (groupKeysOf (tagFilter st) a) k"
    by (simp add: count_bucket count_groupPairs)
  ultimately show ?thesis by blast
qed

lemma grouped_member:
  assumes g: "groupByTag st" and e: "(k, b) \<in> set (groupedAccounts R st xs)" and a: "a \<in> set b"
  shows "a \<in> set xs \<and> k \<in> set (groupKeysOf (tagFilter st) a)"
proof -
  from e have "b = map snd (filter (\<lambda>p. fst p = k) (groupPairs (tagFilter st) xs))"
    by (simp add: grouped_entry_iff[OF g])
  with a have "(k, a) \<in> set (groupPairs (tagFilter st) xs)" by auto
  then show ?thesis by (simp add: set_groupPairs)
qed

lemma untagged_sorted:
  "sorted_wrt (\<lambda>x y. fst x = untaggedKey \<longrightarrow> fst y = untaggedKey) (js_sort (groupCompare R) g)"
  by (rule sorted_wrt_js_sort) (auto simp: groupCompare_def split: if_splits)

lemma untagged_last:
  assumes d: "distinct (map fst (js_sort (groupCompare R) g))"
    and i: "i < length (js_sort (groupCompare R) g)"
    and u: "fst (js_sort (groupCompare R) g ! i) = untaggedKey"
  shows "Suc i = length (js_sort (groupCompare R) g)"
proof (rule ccontr)
  let ?r = "js_sort (groupCompare R) g"
  assume "Suc i \<noteq> length ?r"
  with i have j: "Suc i < length ?r" by simp
  have "\<forall>a b. a < b \<longrightarrow> b < length ?r \<longrightarrow>
      (fst (?r ! a) = untaggedKey \<longrightarrow> fst (?r ! b) = untaggedKey)"
    using untagged_sorted[of R g] by (simp add: sorted_wrt_iff_nth_less)
  with j u have "fst (?r ! Suc i) = untaggedKey" by blast
  with u have "map fst ?r ! i = map fst ?r ! Suc i" using i j by simp
  moreover have "i < length (map fst ?r)" "Suc i < length (map fst ?r)" using i j by simp_all
  ultimately have "i = Suc i" using d nth_eq_iff_index_eq by blast
  then show False by simp
qed

lemma alphabetical_sorted:
  assumes total: "\<And>x y. localeCompare R x y \<le> 0 \<or> localeCompare R y x \<le> 0"
    and trans: "\<And>x y z. localeCompare R x y \<le> 0 \<Longrightarrow> localeCompare R y z \<le> 0
                  \<Longrightarrow> localeCompare R x z \<le> 0"
  shows "sorted_wrt (\<lambda>x y. localeCompare R x y \<le> 0)
           (filter (\<lambda>k. k \<noteq> untaggedKey) (map fst (js_sort (groupCompare R) g)))"
proof -
  let ?rel = "\<lambda>x y :: string \<times> 'a. fst y = untaggedKey
      \<or> (fst x \<noteq> untaggedKey \<and> localeCompare R (fst x) (fst y) \<le> 0)"
  have s: "sorted_wrt ?rel (js_sort (groupCompare R) g)"
  proof (rule sorted_wrt_js_sort)
    fix x y :: "string \<times> 'a"
    assume "groupCompare R x y > 0"
    then show "?rel y x" using total[of "fst x" "fst y"]
      by (auto simp: groupCompare_def split: if_splits)
  next
    fix x y :: "string \<times> 'a"
    assume "\<not> groupCompare R x y > 0"
    then show "?rel x y" by (auto simp: groupCompare_def split: if_splits)
  next
    fix x y z :: "string \<times> 'a"
    assume "?rel x y" "?rel y z"
    then show "?rel x z" using trans[of "fst x" "fst y" "fst z"] by auto
  qed
  have "sorted_wrt (\<lambda>x y. localeCompare R (fst x) (fst y) \<le> 0)
          (filter (\<lambda>e. fst e \<noteq> untaggedKey) (js_sort (groupCompare R) g))"
    using s by (auto simp: sorted_wrt_filter intro: sorted_wrt_mono_rel[rotated]
        sorted_wrt_filter)
  then show ?thesis
    by (simp add: filter_map sorted_wrt_map comp_def)
qed

lemma matchedTagsOf_no_filter:
  "matchedTagsOf [] a = filter (\<lambda>tag. tag \<noteq> []) (map normalizeTag (tagsOrEmpty (cx_tags a)))"
  by (simp add: matchedTagsOf_def Let_def)

text \<open>
  C6, as stated, on one account tagged "x" and "X ": the two tags are the same after
  normalisation, and the account is listed twice in the bucket "x".
\<close>

theorem duplicate_tag_listed_twice_counterexample:
  "groupedAccounts exampleRuntime (exampleState ''created_at'' Desc)
     [exampleCodexAccount ''a'' 1 Null (Val [''x'', ''X '']) Undefined]
   = [(''x'', [exampleCodexAccount ''a'' 1 Null (Val [''x'', ''X '']) Undefined,
               exampleCodexAccount ''a'' 1 Null (Val [''x'', ''X '']) Undefined])]"
proof -
  have n: "normalizeTag ''x'' = ''x''" "normalizeTag ''X '' = ''x''" by code_simp+
  show ?thesis
    by (simp add: groupedAccounts_def exampleState_def groupStep_def matchedTagsOf_def
        exampleCodexAccount_def n)
qed

text \<open>
  C6, amended. When grouping by tag is on and no tag filter is active, the groups have
  distinct keys; every filtered account is in the bucket of each of its normalised tags
  that is not empty, exactly once when the account is once in the list and the tag once
  among its normalised tags; an account without such a tag is in the bucket of the
  untagged key, again once; a bucket holds nothing else; the untagged bucket, when there
  is one, is the last group; and the other groups are in the order of
  \<^verbatim>\<open>localeCompare\<close>, provided it is a consistent ordering.
\<close>

theorem groupedAccounts_fan_out:
  "groupByTag st \<and> tagFilter st = [] \<longrightarrow>
     distinct (map fst (groupedAccounts R st filtered))
     \<and> matchedTagsOf (tagFilter st) a
         = filter (\<lambda>tag. tag \<noteq> []) (map normalizeTag (tagsOrEmpty (cx_tags a)))
     \<and> (a \<in> set filtered \<and> k \<in> set (matchedTagsOf [] a) \<longrightarrow>
          (\<exists>bucket. (k, bucket) \<in> set (groupedAccounts R st filtered) \<and> a \<in> set bucket
             \<and> (count_list filtered a = 1 \<and> count_list (matchedTagsOf [] a) k = 1
                  \<longrightarrow> count_list bucket a = 1)))
     \<and> (a \<in> set filtered \<and> matchedTagsOf [] a = [] \<longrightarrow>
          (\<exists>bucket. (untaggedKey, bucket) \<in> set (groupedAccounts R st filtered)
             \<and> a \<in> set bucket
             \<and> (count_list filtered a = 1 \<longrightarrow> count_list bucket a = 1)))
     \<and> ((k, b) \<in> set (groupedAccounts R st filtered) \<and> a \<in> set b \<longrightarrow>
          a \<in> set filtered
          \<and> (k \<in> set (matchedTagsOf [] a) \<or> (k = untaggedKey \<and> matchedTagsOf [] a = [])))
     \<and> (i < length (groupedAccounts R st filtered)
          \<and> fst (groupedAccounts R st filtered ! i) = untaggedKey
          \<longrightarrow> Suc i = length (groupedAccounts R st filtered))
     \<and> ((\<forall>x y. localeCompare R x y \<le> 0 \<or> localeCompare R y x \<le> 0)
          \<and> (\<forall>x y z. localeCompare R x y \<le> 0 \<and> localeCompare R y z \<le> 0
                \<longrightarrow> localeCompare R x z \<le> 0)
          \<longrightarrow> sorted_wrt (\<lambda>x y. localeCompare R x y \<le> 0)
                (filter (\<lambda>k. k \<noteq> untaggedKey) (map fst (groupedAccounts R st filtered))))"
proof
  assume h: "groupByTag st \<and> tagFilter st = []"
  then have g: "groupByTag st" and tf: "tagFilter st = []" by simp_all
  let ?r = "groupedAccounts R st filtered"
  have r: "?r = js_sort (groupCompare R) (foldl (groupStep (tagFilter st)) [] filtered)"
    using g by (simp add: groupedAccounts_def)
  have c1: "distinct (map fst ?r)" by (rule grouped_entries(2)[OF g])
  have c2: "matchedTagsOf (tagFilter st) a
         = filter (\<lambda>tag. tag \<noteq> []) (map normalizeTag (tagsOrEmpty (cx_tags a)))"
    by (simp add: tf matchedTagsOf_no_filter)
  have c3: "a \<in> set filtered \<and> k \<in> set (matchedTagsOf [] a) \<longrightarrow>
          (\<exists>bucket. (k, bucket) \<in> set ?r \<and> a \<in> set bucket
             \<and> (count_list filtered a = 1 \<and> count_list (matchedTagsOf [] a) k = 1
                  \<longrightarrow> count_list bucket a = 1))"
  proof
    assume p: "a \<in> set filtered \<and> k \<in> set (matchedTagsOf [] a)"
    then have ne: "matchedTagsOf [] a \<noteq> []" by auto
    then have keys: "groupKeysOf (tagFilter st) a = matchedTagsOf [] a"
      by (simp add: groupKeysOf_def tf)
    with p have "k \<in> set (groupKeysOf (tagFilter st) a)" by simp
    from grouped_bucket[OF g _ this, of filtered R] p
    obtain bucket where "(k, bucket) \<in> set ?r" "a \<in> set bucket"
      "count_list bucket a = count_list filtered a * count_list (groupKeysOf (tagFilter st) a) k"
      by blast
    then show "\<exists>bucket. (k, bucket) \<in> set ?r \<and> a \<in> set bucket
             \<and> (count_list filtered a = 1 \<and> count_list (matchedTagsOf [] a) k = 1
                  \<longrightarrow> count_list bucket a = 1)"
      unfolding keys by (intro exI[of _ bucket]) simp
  qed
  have c4: "a \<in> set filtered \<and> matchedTagsOf [] a = [] \<longrightarrow>
          (\<exists>bucket. (untaggedKey, bucket) \<in> set ?r \<and> a \<in> set bucket
             \<and> (count_list filtered a = 1 \<longrightarrow> count_list bucket a = 1))"
  proof
    assume p: "a \<in> set filtered \<and> matchedTagsOf [] a = []"
    then have keys: "groupKeysOf (tagFilter st) a = [untaggedKey]"
      by (simp add: groupKeysOf_def tf)
    then have "untaggedKey \<in> set (groupKeysOf (tagFilter st) a)" by simp
    from grouped_bucket[OF g _ this, of filtered R] p
    obtain bucket where "(untaggedKey, bucket) \<in> set ?r" "a \<in> set bucket"
      "count_list bucket a
         = count_list filtered a * count_list (groupKeysOf (tagFilter st) a) untaggedKey"
      by blast
    then show "\<exists>bucket. (untaggedKey, bucket) \<in> set ?r \<and> a \<in> set bucket
             \<and> (count_list filtered a = 1 \<longrightarrow> count_list bucket a = 1)"
      unfolding keys by (intro exI[of _ bucket]) simp
  qed
  have c5: "(k, b) \<in> set ?r \<and> a \<in> set b \<longrightarrow>
          a \<in> set filtered
          \<and> (k \<in> set (matchedTagsOf [] a) \<or> (k = untaggedKey \<and> matchedTagsOf [] a = []))"
  proof
    assume p: "(k, b) \<in> set ?r \<and> a \<in> set b"
    then have "a \<in> set filtered \<and> k \<in> set (groupKeysOf (tagFilter st) a)"
      using grouped_member[OF g, of k b R filtered a] by blast
    then show "a \<in> set filtered
          \<and> (k \<in> set (matchedTagsOf [] a) \<or> (k = untaggedKey \<and> matchedTagsOf [] a = []))"
      by (auto simp: groupKeysOf_def tf split: if_splits)
  qed
  have c6: "i < length ?r \<and> fst (?r ! i) = untaggedKey \<longrightarrow> Suc i = length ?r"
    using untagged_last[of R "foldl (groupStep (tagFilter st)) [] filtered" i] c1
    unfolding r by blast
  have c7: "(\<forall>x y. localeCompare R x y \<le> 0 \<or> localeCompare R y x \<le> 0)
          \<and> (\<forall>x y z. localeCompare R x y \<le> 0 \<and> localeCompare R y z \<le> 0
                \<longrightarrow> localeCompare R x z \<le> 0)
          \<longrightarrow> sorted_wrt (\<lambda>x y. localeCompare R x y \<le> 0)
                (filter (\<lambda>k. k \<noteq> untaggedKey) (map fst ?r))"
  proof
    assume lc: "(\<forall>x y. localeCompare R x y \<le> 0 \<or> localeCompare R y x \<le> 0)
          \<and> (\<forall>x y z. localeCompare R x y \<le> 0 \<and> localeCompare R y z \<le> 0
                \<longrightarrow> localeCompare R x z \<le> 0)"
    show "sorted_wrt (\<lambda>x y. localeCompare R x y \<le> 0)
                (filter (\<lambda>k. k \<noteq> untaggedKey) (map fst ?r))"
      unfolding r
    proof (rule alphabetical_sorted)
      fix x y show "localeCompare R x y \<le> 0 \<or> localeCompare R y x \<le> 0" using lc by blast
    next
      fix x y z
      assume "localeCompare R x y \<le> 0" "localeCompare R y z \<le> 0"
      then show "localeCompare R x z \<le> 0" using lc by blast
    qed
  qed
  from c1 c2 c3 c4 c5 c6 c7
  show "distinct (map fst ?r)
     \<and> matchedTagsOf (tagFilter st) a
         = filter (\<lambda>tag. tag \<noteq> []) (map normalizeTag (tagsOrEmpty (cx_tags a)))
     \<and> (a \<in> set filtered \<and> k \<in> set (matchedTagsOf [] a) \<longrightarrow>
          (\<exists>bucket. (k, bucket) \<in> set ?r \<and> a \<in> set bucket
             \<and> (count_list filtered a = 1 \<and> count_list (matchedTagsOf [] a) k = 1
                  \<longrightarrow> count_list bucket a = 1)))
     \<and> (a \<in> set filtered \<and> matchedTagsOf [] a = [] \<longrightarrow>
          (\<exists>bucket. (untaggedKey, bucket) \<in> set ?r \<and> a \<in> set bucket
             \<and> (count_list filtered a = 1 \<longrightarrow> count_list bucket a = 1)))
     \<and> ((k, b) \<in> set ?r \<and> a \<in> set b \<longrightarrow>
          a \<in> set filtered
          \<and> (k \<in> set (matchedTagsOf [] a) \<or> (k = untaggedKey \<and> matchedTagsOf [] a = [])))
     \<and> (i < length ?r \<and> fst (?r ! i) = untaggedKey \<longrightarrow> Suc i = length ?r)
     \<and> ((\<forall>x y. localeCompare R x y \<le> 0 \<or> localeCompare R y x \<le> 0)
          \<and> (\<forall>x y z. localeCompare R x y \<le> 0 \<and> localeCompare R y z \<le> 0
                \<longrightarrow> localeCompare R x z \<le> 0)
          \<longrightarrow> sorted_wrt (\<lambda>x y. localeCompare R x y \<le> 0)
                (filter (\<lambda>k. k \<noteq> untaggedKey) (map fst ?r)))"
    by (intro conjI)
qed

lemma exampleRuntime_localeCompare:
  "(\<forall>x y. localeCompare exampleRuntime x y \<le> 0 \<or> localeCompare exampleRuntime y x \<le> 0)
   \<and> (\<forall>x y z. localeCompare exampleRuntime x y \<le> 0 \<and> localeCompare exampleRuntime y z \<le> 0
         \<longrightarrow> localeCompare exampleRuntime x z \<le> 0)"
proof -
  have eq: "localeCompare exampleRuntime x y \<le> 0 \<longleftrightarrow> x \<le> y" for x y
    by (auto simp: exampleRuntime_def)
  show ?thesis unfolding eq by auto
qed

lemma example_grouped:
  "groupedAccounts exampleRuntime (exampleState ''created_at'' Desc) exampleAccounts
     = [(''b'', [exampleAccounts ! 2]),
        (''x'', [exampleAccounts ! 0]),
        (''y'', [exampleAccounts ! 0]),
        (untaggedKey, [exampleAccounts ! 1])]"
  by code_simp

theorem groupedAccounts_fan_out_witness:
  "map fst (groupedAccounts exampleRuntime (exampleState ''created_at'' Desc) exampleAccounts)
     = [''b'', ''x'', ''y'', untaggedKey]
   \<and> (\<exists>bucket. (''x'', bucket)
          \<in> set (groupedAccounts exampleRuntime (exampleState ''created_at'' Desc) exampleAccounts)
        \<and> count_list bucket (exampleAccounts ! 0) = 1)
   \<and> sorted_wrt (\<lambda>x y. localeCompare exampleRuntime x y \<le> 0)
        (filter (\<lambda>k. k \<noteq> untaggedKey)
           (map fst (groupedAccounts exampleRuntime (exampleState ''created_at'' Desc)
              exampleAccounts)))"
proof -
  let ?st = "exampleState ''created_at'' Desc"
  have st: "groupByTag ?st \<and> tagFilter ?st = []"
    by (simp add: exampleState_def)
  have tags: "matchedTagsOf [] (exampleAccounts ! 0) = [''x'', ''y'']"
    by code_simp
  have mem: "exampleAccounts ! 0 \<in> set exampleAccounts \<and> ''x'' \<in> set (matchedTagsOf [] (exampleAccounts ! 0))"
    unfolding tags by (simp add: exampleAccounts_def)
  have once: "count_list exampleAccounts (exampleAccounts ! 0) = 1
      \<and> count_list (matchedTagsOf [] (exampleAccounts ! 0)) ''x'' = 1"
    unfolding tags by (simp add: exampleAccounts_def exampleCodexAccount_def)
  note all = groupedAccounts_fan_out[of ?st exampleRuntime exampleAccounts
      "exampleAccounts ! 0" "''x''" "[]" 3, THEN mp, OF st]
  have keys: "map fst (groupedAccounts exampleRuntime ?st exampleAccounts)
     = [''b'', ''x'', ''y'', untaggedKey]"
    by (simp add: example_grouped)
  from all have "exampleAccounts ! 0 \<in> set exampleAccounts
        \<and> ''x'' \<in> set (matchedTagsOf [] (exampleAccounts ! 0)) \<longrightarrow>
      (\<exists>bucket. (''x'', bucket) \<in> set (groupedAccounts exampleRuntime ?st exampleAccounts)
         \<and> exampleAccounts ! 0 \<in> set bucket
         \<and> (count_list exampleAccounts (exampleAccounts ! 0) = 1
              \<and> count_list (matchedTagsOf [] (exampleAccounts ! 0)) ''x'' = 1
             \<longrightarrow> count_list bucket (exampleAccounts ! 0) = 1))"
    by blast
  with mem once have b: "\<exists>bucket. (''x'', bucket)
          \<in> set (groupedAccounts exampleRuntime ?st exampleAccounts)
        \<and> count_list bucket (exampleAccounts ! 0) = 1"
    by blast
  from all exampleRuntime_localeCompare
  have s: "sorted_wrt (\<lambda>x y. localeCompare exampleRuntime x y \<le> 0)
        (filter (\<lambda>k. k \<noteq> untaggedKey)
           (map fst (groupedAccounts exampleRuntime ?st exampleAccounts)))"
    by blast
  from keys b s show ?thesis by (intro conjI)
qed

section \<open>Properties of the sign-in flow\<close>

lemma prepareOauthUrl_guard:
  "oauthActiveRef s \<or> oauthCompletingRef s \<Longrightarrow> prepareOauthUrl C s = s"
  by (auto simp: prepareOauthUrl_def)

lemma prepareOauthUrl_cases:
  "prepareOauthUrl C s = s
   \<or> (\<not> oauthActiveRef s \<and>
      prepareOauthUrl C s
        = s\<lparr> oauthActiveRef := True, oauthPrepareError := None, oauthCompleteError := None,
              oauthTimedOut := False, oauthPolling := False, oauthUserCode := None,
              startCalls := startCalls s + 1, pendingStart := pendingStart s + 1 \<rparr>)"
  by (simp add: prepareOauthUrl_def)

lemma autoPrepareEffect_inv:
  assumes "flowInv c0 s" "startBudget c0 b0 s n"
  shows "flowInv c0 (autoPrepareEffect C s) \<and> startBudget c0 b0 (autoPrepareEffect C s) n
         \<and> startCalls s \<le> startCalls (autoPrepareEffect C s)
         \<and> showAddModal (autoPrepareEffect C s) = showAddModal s
         \<and> addTab (autoPrepareEffect C s) = addTab s"
proof (cases "\<not> showAddModal s \<or> addTab s \<noteq> ''oauth'' \<or> truthyStr (oauthUrl s)")
  case True
  with assms show ?thesis by (simp add: autoPrepareEffect_def)
next
  case False
  then have eff: "autoPrepareEffect C s = prepareOauthUrl C s"
    by (simp add: autoPrepareEffect_def)
  from False assms(1) have none: "length (completeCalls s) = c0"
    by (auto simp: flowInv_def)
  from prepareOauthUrl_cases[of C s] show ?thesis
  proof
    assume "prepareOauthUrl C s = s"
    with assms eff show ?thesis by simp
  next
    assume act: "\<not> oauthActiveRef s \<and>
      prepareOauthUrl C s
        = s\<lparr> oauthActiveRef := True, oauthPrepareError := None, oauthCompleteError := None,
              oauthTimedOut := False, oauthPolling := False, oauthUserCode := None,
              startCalls := startCalls s + 1, pendingStart := pendingStart s + 1 \<rparr>"
    with assms(1) none have zero: "pendingStart s = 0"
      by (auto simp: flowInv_def)
    from act have eq: "autoPrepareEffect C s
        = s\<lparr> oauthActiveRef := True, oauthPrepareError := None, oauthCompleteError := None,
              oauthTimedOut := False, oauthPolling := False, oauthUserCode := None,
              startCalls := startCalls s + 1, pendingStart := pendingStart s + 1 \<rparr>"
      using eff by simp
    from assms none zero False show ?thesis
      unfolding eq by (simp add: flowInv_def startBudget_def)
  qed
qed

lemma cancelEffect_inv:
  assumes "flowInv c0 s" "startBudget c0 b0 s n"
  shows "flowInv c0 (cancelEffect C s) \<and> startBudget c0 b0 (cancelEffect C s) n
         \<and> startCalls (cancelEffect C s) = startCalls s"
proof (cases "showAddModal s \<and> addTab s = ''oauth'' \<or> \<not> truthyStr (oauthLoginIdRef s)")
  case True
  with assms show ?thesis by (auto simp: cancelEffect_def)
next
  case False
  with assms(1) have closed: "\<not> showAddModal s" by (auto simp: flowInv_def)
  with assms(1) have "pendingStart s = 0" by (auto simp: flowInv_def)
  with False closed assms show ?thesis
    by (simp add: cancelEffect_def flowInv_def startBudget_def)
qed

lemma syncRefs_inv:
  assumes "flowInv c0 s" "startBudget c0 b0 s n"
  shows "flowInv c0 (syncRefs s) \<and> startBudget c0 b0 (syncRefs s) n
         \<and> startCalls (syncRefs s) = startCalls s"
  using assms by (simp add: syncRefs_def flowInv_def startBudget_def)

lemma rendered_inv:
  assumes "flowInv c0 s" "startBudget c0 b0 s n"
  shows "flowInv c0 (s\<lparr> renderedShow := a, renderedTab := b, renderedUrl := c \<rparr>)
         \<and> startBudget c0 b0 (s\<lparr> renderedShow := a, renderedTab := b, renderedUrl := c \<rparr>) n"
  using assms by (simp add: flowInv_def startBudget_def)

lemma render_inv:
  assumes "flowInv c0 s" "startBudget c0 b0 s n"
  shows "flowInv c0 (render C s) \<and> startBudget c0 b0 (render C s) n
         \<and> startCalls s \<le> startCalls (render C s)"
proof -
  let ?s1 = "syncRefs s"
  let ?s2 = "if \<not> stableOauthService C
                    \<or> showAddModal s \<noteq> renderedShow s \<or> addTab s \<noteq> renderedTab s
                    \<or> oauthUrl s \<noteq> renderedUrl s
             then autoPrepareEffect C ?s1 else ?s1"
  let ?s3 = "if \<not> stableOauthService C
                    \<or> showAddModal s \<noteq> renderedShow s \<or> addTab s \<noteq> renderedTab s
             then cancelEffect C ?s2 else ?s2"
  have s1: "flowInv c0 ?s1 \<and> startBudget c0 b0 ?s1 n \<and> startCalls ?s1 = startCalls s"
    using assms by (rule syncRefs_inv)
  have s2: "flowInv c0 ?s2 \<and> startBudget c0 b0 ?s2 n \<and> startCalls s \<le> startCalls ?s2"
    using s1 autoPrepareEffect_inv[of c0 ?s1 b0 n C] by auto
  have s3: "flowInv c0 ?s3 \<and> startBudget c0 b0 ?s3 n \<and> startCalls s \<le> startCalls ?s3"
    using s2 cancelEffect_inv[of c0 ?s2 b0 n C] by auto
  have r: "render C s = ?s3\<lparr> renderedShow := showAddModal ?s3, renderedTab := addTab ?s3,
              renderedUrl := oauthUrl ?s3 \<rparr>"
    by (simp add: render_def Let_def)
  show ?thesis
    unfolding r using s3 rendered_inv[of c0 ?s3 b0 n] by simp
qed

lemma startLoginResolved_inv:
  assumes "flowInv c0 s" "startBudget c0 b0 s n" "pendingStart s \<noteq> 0" "responseUrl resp \<noteq> []"
  shows "flowInv c0 (startLoginResolved resp s) \<and> startBudget c0 b0 (startLoginResolved resp s) n
         \<and> startCalls (startLoginResolved resp s) = startCalls s"
proof -
  from assms(1) have le: "pendingStart s + length (completeCalls s) \<le> c0 + 1"
    and ge: "c0 \<le> length (completeCalls s)"
    by (simp_all add: flowInv_def)
  with assms(3) have one: "pendingStart s = 1" by linarith
  with le ge have none: "length (completeCalls s) = c0" by linarith
  with assms(1) have idle: "pendingComplete s = 0" "pendingFetch s = 0" "pendingTimers s = 0"
    by (auto simp: flowInv_def)
  from assms one none idle show ?thesis
    by (simp add: startLoginResolved_def flowInv_def startBudget_def)
qed

lemma startLoginRejected_inv:
  assumes "flowInv c0 s" "startBudget c0 b0 s n" "pendingStart s \<noteq> 0"
  shows "flowInv c0 (startLoginRejected C e s) \<and> startBudget c0 b0 (startLoginRejected C e s) (Suc n)
         \<and> startCalls (startLoginRejected C e s) = startCalls s"
  using assms
  by (auto simp: startLoginRejected_def finallyCallback_def handleOauthPrepareError_def
      flowInv_def startBudget_def)

lemma completeLoginResolved_inv:
  assumes "flowInv c0 s" "startBudget c0 b0 s n" "pendingComplete s \<noteq> 0"
  shows "flowInv c0 (completeLoginResolved s) \<and> startBudget c0 b0 (completeLoginResolved s) n
         \<and> startCalls (completeLoginResolved s) = startCalls s"
  using assms by (auto simp: completeLoginResolved_def flowInv_def startBudget_def)

lemma completeLoginRejected_inv:
  assumes "flowInv c0 s" "startBudget c0 b0 s n" "pendingComplete s \<noteq> 0"
  shows "flowInv c0 (completeLoginRejected C e s) \<and> startBudget c0 b0 (completeLoginRejected C e s) n
         \<and> startCalls (completeLoginRejected C e s) = startCalls s"
  using assms
  by (auto simp: completeLoginRejected_def finallyCallback_def handleOauthCompleteError_def
      flowInv_def startBudget_def)

lemma fetchAccountsResolved_inv:
  assumes "flowInv c0 s" "startBudget c0 b0 s n" "pendingFetch s \<noteq> 0"
  shows "flowInv c0 (fetchAccountsResolved C s) \<and> startBudget c0 b0 (fetchAccountsResolved C s) n
         \<and> startCalls (fetchAccountsResolved C s) = startCalls s"
  using assms
  by (auto simp: fetchAccountsResolved_def finallyCallback_def flowInv_def startBudget_def)

lemma fetchAccountsRejected_inv:
  assumes "flowInv c0 s" "startBudget c0 b0 s n" "pendingFetch s \<noteq> 0"
  shows "flowInv c0 (fetchAccountsRejected C e s) \<and> startBudget c0 b0 (fetchAccountsRejected C e s) n
         \<and> startCalls (fetchAccountsRejected C e s) = startCalls s"
  using assms
  by (auto simp: fetchAccountsRejected_def finallyCallback_def handleOauthCompleteError_def
      flowInv_def startBudget_def)

lemma timerFired_inv:
  assumes "flowInv c0 s" "startBudget c0 b0 s n" "pendingTimers s \<noteq> 0"
  shows "flowInv c0 (timerFired s) \<and> startBudget c0 b0 (timerFired s) n
         \<and> startCalls (timerFired s) = startCalls s"
  using assms
  by (auto simp: timerFired_def resetAddModalState_def flowInv_def startBudget_def)

lemma startBudget_mono: "startBudget c0 b0 s n \<Longrightarrow> n \<le> m \<Longrightarrow> startBudget c0 b0 s m"
  by (simp add: startBudget_def)

lemma step_inv:
  assumes inv: "flowInv c0 s" "startBudget c0 b0 s n" and p: "isPassive e" and st: "step C e s = Some s'"
  shows "flowInv c0 s' \<and> startBudget c0 b0 s' (n + (if isStartRejected e then 1 else 0))
         \<and> startCalls s \<le> startCalls s'"
proof (cases e)
  case Rerender
  with st have "s' = render C s" by simp
  with render_inv[OF inv, of C] Rerender show ?thesis by simp
next
  case (StartLoginResolved resp)
  with st p have en: "pendingStart s \<noteq> 0" "responseUrl resp \<noteq> []"
    and s': "s' = render C (startLoginResolved resp s)"
    by (auto split: if_splits)
  from startLoginResolved_inv[OF inv en]
  show ?thesis unfolding s' StartLoginResolved
    using render_inv[of c0 "startLoginResolved resp s" b0 n C] by simp
next
  case (StartLoginRejected msg)
  with st have en: "pendingStart s \<noteq> 0"
    and s': "s' = render C (startLoginRejected C msg s)"
    by (auto split: if_splits)
  from startLoginRejected_inv[OF inv en, of C msg]
  show ?thesis unfolding s' StartLoginRejected
    using render_inv[of c0 "startLoginRejected C msg s" b0 "Suc n" C] by simp
next
  case CompleteLoginResolved
  with st have en: "pendingComplete s \<noteq> 0"
    and s': "s' = render C (completeLoginResolved s)"
    by (auto split: if_splits)
  from completeLoginResolved_inv[OF inv en]
  show ?thesis unfolding s' CompleteLoginResolved
    using render_inv[of c0 "completeLoginResolved s" b0 n C] by simp
next
  case (CompleteLoginRejected msg)
  with st have en: "pendingComplete s \<noteq> 0"
    and s': "s' = render C (completeLoginRejected C msg s)"
    by (auto split: if_splits)
  from completeLoginRejected_inv[OF inv en, of C msg]
  show ?thesis unfolding s' CompleteLoginRejected
    using render_inv[of c0 "completeLoginRejected C msg s" b0 n C] by simp
next
  case FetchAccountsResolved
  with st have en: "pendingFetch s \<noteq> 0"
    and s': "s' = render C (fetchAccountsResolved C s)"
    by (auto split: if_splits)
  from fetchAccountsResolved_inv[OF inv en, of C]
  show ?thesis unfolding s' FetchAccountsResolved
    using render_inv[of c0 "fetchAccountsResolved C s" b0 n C] by simp
next
  case (FetchAccountsRejected msg)
  with st have en: "pendingFetch s \<noteq> 0"
    and s': "s' = render C (fetchAccountsRejected C msg s)"
    by (auto split: if_splits)
  from fetchAccountsRejected_inv[OF inv en, of C msg]
  show ?thesis unfolding s' FetchAccountsRejected
    using render_inv[of c0 "fetchAccountsRejected C msg s" b0 n C] by simp
next
  case TimerFired
  with st have en: "pendingTimers s \<noteq> 0"
    and s': "s' = render C (timerFired s)"
    by (auto split: if_splits)
  from timerFired_inv[OF inv en]
  show ?thesis unfolding s' TimerFired
    using render_inv[of c0 "timerFired s" b0 n C] by simp
qed (use p in simp_all)

lemma run_inv:
  assumes "flowInv c0 s" "startBudget c0 b0 s n" "list_all isPassive es" "run C es s = Some s'"
  shows "flowInv c0 s' \<and> startBudget c0 b0 s' (n + length (filter isStartRejected es))
         \<and> startCalls s \<le> startCalls s'"
  using assms
proof (induction es arbitrary: s n)
  case Nil
  then show ?case by simp
next
  case (Cons e es)
  from Cons.prems(4) obtain s1 where s1: "step C e s = Some s1" and rest: "run C es s1 = Some s'"
    by (auto split: option.splits)
  from Cons.prems(3) have pe: "isPassive e" and pes: "list_all isPassive es" by simp_all
  from step_inv[OF Cons.prems(1,2) pe s1]
  have i1: "flowInv c0 s1" and b1: "startBudget c0 b0 s1 (n + (if isStartRejected e then 1 else 0))"
    and m1: "startCalls s \<le> startCalls s1" by simp_all
  from Cons.IH[OF i1 b1 pes rest]
  have "flowInv c0 s'"
    and "startBudget c0 b0 s' (n + (if isStartRejected e then 1 else 0)
            + length (filter isStartRejected es))"
    and "startCalls s1 \<le> startCalls s'" by simp_all
  with m1 show ?case by (auto simp: add.assoc)
qed

lemma reachInv_initial: "reachInv initialState"
  by (simp add: reachInv_def initialState_def)

lemma prepare_flags:
  "oauthCompletingRef (prepareOauthUrl C s) = oauthCompletingRef s"
  "pendingComplete (prepareOauthUrl C s) = pendingComplete s"
  using prepareOauthUrl_cases[of C s] by auto

lemma autoPrepare_flags:
  "oauthCompletingRef (autoPrepareEffect C s) = oauthCompletingRef s"
  "pendingComplete (autoPrepareEffect C s) = pendingComplete s"
  by (simp_all add: autoPrepareEffect_def prepare_flags)

lemma cancel_flags:
  "oauthCompletingRef (cancelEffect C s) \<Longrightarrow> oauthCompletingRef s"
  "pendingComplete (cancelEffect C s) = pendingComplete s"
  by (simp_all add: cancelEffect_def split: if_splits)

lemma render_reachInv:
  assumes "oauthCompletingRef s \<longrightarrow> 0 < pendingComplete s"
  shows "reachInv (render C s)"
proof -
  let ?s1 = "syncRefs s"
  let ?s2 = "if \<not> stableOauthService C
                    \<or> showAddModal s \<noteq> renderedShow s \<or> addTab s \<noteq> renderedTab s
                    \<or> oauthUrl s \<noteq> renderedUrl s
             then autoPrepareEffect C ?s1 else ?s1"
  let ?s3 = "if \<not> stableOauthService C
                    \<or> showAddModal s \<noteq> renderedShow s \<or> addTab s \<noteq> renderedTab s
             then cancelEffect C ?s2 else ?s2"
  have r: "render C s = ?s3\<lparr> renderedShow := showAddModal ?s3, renderedTab := addTab ?s3,
              renderedUrl := oauthUrl ?s3 \<rparr>"
    by (simp add: render_def Let_def)
  have s1: "oauthCompletingRef ?s1 = oauthCompletingRef s" "pendingComplete ?s1 = pendingComplete s"
    by (simp_all add: syncRefs_def)
  have s2: "oauthCompletingRef ?s2 = oauthCompletingRef s" "pendingComplete ?s2 = pendingComplete s"
    using s1 by (simp_all add: autoPrepare_flags)
  have s3: "oauthCompletingRef ?s3 \<longrightarrow> oauthCompletingRef s" "pendingComplete ?s3 = pendingComplete s"
    using s2 cancel_flags[of C ?s2] by (auto split: if_splits)
  from s3 assms have "oauthCompletingRef ?s3 \<longrightarrow> 0 < pendingComplete ?s3" by simp
  then show ?thesis unfolding r by (simp add: reachInv_def)
qed

lemma step_reachInv:
  assumes "reachInv s" "step C e s = Some s'"
  shows "reachInv s'"
proof -
  from assms(1) have c: "oauthCompletingRef s \<longrightarrow> 0 < pendingComplete s"
    by (simp add: reachInv_def)
  show ?thesis
  proof (cases e)
    case (OpenAddModal tab)
    with assms(2) have "s' = render C (openAddModal tab s)" by simp
    moreover from c have "oauthCompletingRef (openAddModal tab s)
        \<longrightarrow> 0 < pendingComplete (openAddModal tab s)"
      by (simp add: openAddModal_def resetAddModalState_def)
    ultimately show ?thesis by (simp add: render_reachInv)
  next
    case CloseAddModal
    with assms(2) have "s' = render C (closeAddModal s)" by simp
    moreover from c have "oauthCompletingRef (closeAddModal s)
        \<longrightarrow> 0 < pendingComplete (closeAddModal s)"
      by (simp add: closeAddModal_def resetAddModalState_def)
    ultimately show ?thesis by (simp add: render_reachInv)
  next
    case (SetAddTab tab)
    with assms(2) have "s' = render C (s\<lparr> addTab := tab \<rparr>)" by simp
    moreover from c have "oauthCompletingRef (s\<lparr> addTab := tab \<rparr>)
        \<longrightarrow> 0 < pendingComplete (s\<lparr> addTab := tab \<rparr>)"
      by simp
    ultimately show ?thesis by (simp add: render_reachInv)
  next
    case RetryOauth
    with assms(2) have "s' = render C (handleRetryOauth C s)" by simp
    moreover have "\<not> oauthCompletingRef (handleRetryOauth C s)"
      by (simp add: handleRetryOauth_def prepare_flags)
    ultimately show ?thesis by (simp add: render_reachInv)
  next
    case Rerender
    with assms(2) have "s' = render C s" by simp
    with c show ?thesis by (simp add: render_reachInv)
  next
    case (StartLoginResolved resp)
    with assms(2) have "s' = render C (startLoginResolved resp s)"
      by (simp split: if_splits)
    moreover have "0 < pendingComplete (startLoginResolved resp s)"
      by (simp add: startLoginResolved_def)
    ultimately show ?thesis by (simp add: render_reachInv)
  next
    case (StartLoginRejected msg)
    with assms(2) have "s' = render C (startLoginRejected C msg s)"
      by (simp split: if_splits)
    moreover have "\<not> oauthCompletingRef (startLoginRejected C msg s)"
      by (simp add: startLoginRejected_def finallyCallback_def handleOauthPrepareError_def)
    ultimately show ?thesis by (simp add: render_reachInv)
  next
    case CompleteLoginResolved
    with assms(2) have "s' = render C (completeLoginResolved s)"
      by (simp split: if_splits)
    moreover have "\<not> oauthCompletingRef (completeLoginResolved s)"
      by (simp add: completeLoginResolved_def)
    ultimately show ?thesis by (simp add: render_reachInv)
  next
    case (CompleteLoginRejected msg)
    with assms(2) have "s' = render C (completeLoginRejected C msg s)"
      by (simp split: if_splits)
    moreover have "\<not> oauthCompletingRef (completeLoginRejected C msg s)"
      by (simp add: completeLoginRejected_def finallyCallback_def handleOauthCompleteError_def)
    ultimately show ?thesis by (simp add: render_reachInv)
  next
    case FetchAccountsResolved
    with assms(2) have "s' = render C (fetchAccountsResolved C s)"
      by (simp split: if_splits)
    moreover from c have "oauthCompletingRef (fetchAccountsResolved C s)
        \<longrightarrow> 0 < pendingComplete (fetchAccountsResolved C s)"
      by (simp add: fetchAccountsResolved_def finallyCallback_def)
    ultimately show ?thesis by (simp add: render_reachInv)
  next
    case (FetchAccountsRejected msg)
    with assms(2) have "s' = render C (fetchAccountsRejected C msg s)"
      by (simp split: if_splits)
    moreover have "\<not> oauthCompletingRef (fetchAccountsRejected C msg s)"
      by (simp add: fetchAccountsRejected_def finallyCallback_def handleOauthCompleteError_def)
    ultimately show ?thesis by (simp add: render_reachInv)
  next
    case TimerFired
    with assms(2) have "s' = render C (timerFired s)"
      by (simp split: if_splits)
    moreover from c have "oauthCompletingRef (timerFired s)
        \<longrightarrow> 0 < pendingComplete (timerFired s)"
      by (simp add: timerFired_def resetAddModalState_def)
    ultimately show ?thesis by (simp add: render_reachInv)
  qed
qed

lemma run_reachInv:
  "reachInv s \<Longrightarrow> run C es s = Some s' \<Longrightarrow> reachInv s'"
proof (induction es arbitrary: s)
  case Nil
  then show ?case by simp
next
  case (Cons e es)
  from Cons.prems(2) obtain s1 where s1: "step C e s = Some s1" and rest: "run C es s1 = Some s'"
    by (auto split: option.splits)
  from Cons.prems(1) s1 have "reachInv s1" by (rule step_reachInv)
  from this rest show ?case by (rule Cons.IH)
qed

lemma open_inv:
  assumes "hasOauthService C" "reachInv s0" "\<not> showAddModal s0" "pendingStart s0 = 0"
    "pendingComplete s0 = 0" "pendingFetch s0 = 0" "pendingTimers s0 = 0"
  shows "flowInv (length (completeCalls s0)) (render C (openAddModal ''oauth'' s0))
         \<and> startBudget (length (completeCalls s0)) (startCalls s0)
              (render C (openAddModal ''oauth'' s0)) 0
         \<and> startCalls (render C (openAddModal ''oauth'' s0)) = startCalls s0 + 1"
proof -
  define o1 where "o1 = openAddModal ''oauth'' s0"
  define s1 where "s1 = syncRefs o1"
  define p where "p = s1\<lparr> oauthActiveRef := True, oauthPrepareError := None,
              oauthCompleteError := None, oauthTimedOut := False, oauthPolling := False,
              oauthUserCode := None, startCalls := startCalls s1 + 1,
              pendingStart := pendingStart s1 + 1 \<rparr>"
  from assms(2,3,5) have r0: "\<not> renderedShow s0" "\<not> oauthCompletingRef s0"
    by (auto simp: reachInv_def)
  have o: "showAddModal o1" "\<not> renderedShow o1"
    using r0 by (simp_all add: o1_def openAddModal_def resetAddModalState_def)
  have f1: "showAddModalRef s1" "addTabRef s1 = ''oauth''" "\<not> oauthActiveRef s1"
    "\<not> oauthCompletingRef s1" "showAddModal s1" "addTab s1 = ''oauth''"
    "oauthUrl s1 = None"
    using r0 by (simp_all add: s1_def o1_def syncRefs_def openAddModal_def resetAddModalState_def)
  from assms(1) f1 have prep: "prepareOauthUrl C s1 = p"
    by (simp add: prepareOauthUrl_def p_def)
  from f1 have auto_eq: "autoPrepareEffect C s1 = p"
    by (simp add: autoPrepareEffect_def prep)
  have pm: "showAddModal p" "addTab p = ''oauth''"
    using f1 by (simp_all add: p_def)
  then have canc: "cancelEffect C p = p" by (simp add: cancelEffect_def)
  have r1: "render C o1 = (cancelEffect C (autoPrepareEffect C s1))
      \<lparr> renderedShow := showAddModal (cancelEffect C (autoPrepareEffect C s1)),
        renderedTab := addTab (cancelEffect C (autoPrepareEffect C s1)),
        renderedUrl := oauthUrl (cancelEffect C (autoPrepareEffect C s1)) \<rparr>"
    using o by (simp add: render_def Let_def s1_def)
  have r: "render C o1 = p\<lparr> renderedShow := showAddModal p, renderedTab := addTab p,
              renderedUrl := oauthUrl p \<rparr>"
    unfolding r1 auto_eq canc ..
  have fields: "pendingStart p = 1" "completeCalls p = completeCalls s0"
    "startCalls p = startCalls s0 + 1" "oauthActiveRef p"
    "pendingComplete p = 0" "pendingFetch p = 0" "pendingTimers p = 0"
    using assms(4-7)
    by (simp_all add: p_def s1_def o1_def syncRefs_def openAddModal_def resetAddModalState_def)
  have "flowInv (length (completeCalls s0)) (render C o1)
         \<and> startBudget (length (completeCalls s0)) (startCalls s0) (render C o1) 0
         \<and> startCalls (render C o1) = startCalls s0 + 1"
    unfolding r using fields pm by (simp add: flowInv_def startBudget_def)
  then show ?thesis by (simp only: o1_def)
qed

lemma render_unstable:
  "\<not> stableOauthService C \<Longrightarrow>
     render C s = recordDeps (cancelEffect C (autoPrepareEffect C (syncRefs s)))"
  by (simp add: render_def Let_def recordDeps_def)

lemma prepare_twice: "prepareOauthUrl C (prepareOauthUrl C s) = prepareOauthUrl C s"
  using prepareOauthUrl_cases[of C s]
proof
  assume "prepareOauthUrl C s = s"
  then show ?thesis by simp
next
  assume a: "\<not> oauthActiveRef s \<and>
      prepareOauthUrl C s
        = s\<lparr> oauthActiveRef := True, oauthPrepareError := None, oauthCompleteError := None,
              oauthTimedOut := False, oauthPolling := False, oauthUserCode := None,
              startCalls := startCalls s + 1, pendingStart := pendingStart s + 1 \<rparr>"
  then have "oauthActiveRef (prepareOauthUrl C s)" by simp
  then show ?thesis by (rule prepareOauthUrl_guard[OF disjI1])
qed

lemma prepare_modal:
  "showAddModal (prepareOauthUrl C s) = showAddModal s"
  "addTab (prepareOauthUrl C s) = addTab s"
  "oauthUrl (prepareOauthUrl C s) = oauthUrl s"
  "showAddModalRef (prepareOauthUrl C s) = showAddModalRef s"
  "addTabRef (prepareOauthUrl C s) = addTabRef s"
  using prepareOauthUrl_cases[of C s] by auto

lemma autoPrepare_modal:
  "showAddModal (autoPrepareEffect C s) = showAddModal s"
  "addTab (autoPrepareEffect C s) = addTab s"
  "oauthUrl (autoPrepareEffect C s) = oauthUrl s"
  "showAddModalRef (autoPrepareEffect C s) = showAddModalRef s"
  "addTabRef (autoPrepareEffect C s) = addTabRef s"
  by (simp_all add: autoPrepareEffect_def prepare_modal)

lemma autoPrepare_twice: "autoPrepareEffect C (autoPrepareEffect C s) = autoPrepareEffect C s"
proof (cases "\<not> showAddModal s \<or> addTab s \<noteq> ''oauth'' \<or> truthyStr (oauthUrl s)")
  case True
  then show ?thesis by (simp add: autoPrepareEffect_def)
next
  case False
  then have "autoPrepareEffect C s = prepareOauthUrl C s" by (simp add: autoPrepareEffect_def)
  moreover from False have "autoPrepareEffect C (prepareOauthUrl C s)
      = prepareOauthUrl C (prepareOauthUrl C s)"
    by (simp add: autoPrepareEffect_def prepare_modal)
  ultimately show ?thesis by (simp add: prepare_twice)
qed

lemma cancel_cases:
  "cancelEffect C s = s
   \<or> (\<not> (showAddModal s \<and> addTab s = ''oauth'')
      \<and> oauthLoginIdRef (cancelEffect C s) = None
      \<and> showAddModal (cancelEffect C s) = showAddModal s
      \<and> addTab (cancelEffect C s) = addTab s)"
  by (simp add: cancelEffect_def)

lemma cancel_modal:
  "showAddModal (cancelEffect C s) = showAddModal s"
  "addTab (cancelEffect C s) = addTab s"
  "showAddModalRef (cancelEffect C s) = showAddModalRef s"
  "addTabRef (cancelEffect C s) = addTabRef s"
  by (simp_all add: cancelEffect_def)

lemma cancel_twice: "cancelEffect C (cancelEffect C s) = cancelEffect C s"
  using cancel_cases[of C s]
proof
  assume "cancelEffect C s = s"
  then show ?thesis by simp
next
  assume "\<not> (showAddModal s \<and> addTab s = ''oauth'')
      \<and> oauthLoginIdRef (cancelEffect C s) = None
      \<and> showAddModal (cancelEffect C s) = showAddModal s
      \<and> addTab (cancelEffect C s) = addTab s"
  then show ?thesis
    by (subst (1) cancelEffect_def) simp
qed

lemma autoPrepare_after_cancel:
  assumes "autoPrepareEffect C s = s"
  shows "autoPrepareEffect C (cancelEffect C s) = cancelEffect C s"
  using cancel_cases[of C s]
proof
  assume "cancelEffect C s = s"
  with assms show ?thesis by simp
next
  assume "\<not> (showAddModal s \<and> addTab s = ''oauth'')
      \<and> oauthLoginIdRef (cancelEffect C s) = None
      \<and> showAddModal (cancelEffect C s) = showAddModal s
      \<and> addTab (cancelEffect C s) = addTab s"
  then show ?thesis by (subst (1) autoPrepareEffect_def) auto
qed

lemma syncRefs_fixed:
  "showAddModalRef s = showAddModal s \<Longrightarrow> addTabRef s = addTab s \<Longrightarrow> syncRefs s = s"
  by (simp add: syncRefs_def)

lemma syncRefs_recordDeps: "syncRefs (recordDeps s) = recordDeps (syncRefs s)"
  by (simp add: syncRefs_def recordDeps_def)

lemma prepare_recordDeps: "prepareOauthUrl C (recordDeps s) = recordDeps (prepareOauthUrl C s)"
  using prepareOauthUrl_cases[of C s] prepareOauthUrl_cases[of C "recordDeps s"]
  by (auto simp: recordDeps_def prepareOauthUrl_def)

lemma autoPrepare_recordDeps:
  "autoPrepareEffect C (recordDeps s) = recordDeps (autoPrepareEffect C s)"
proof (cases "\<not> showAddModal s \<or> addTab s \<noteq> ''oauth'' \<or> truthyStr (oauthUrl s)")
  case True
  then show ?thesis by (simp add: autoPrepareEffect_def recordDeps_def)
next
  case False
  then have "autoPrepareEffect C s = prepareOauthUrl C s" by (simp add: autoPrepareEffect_def)
  moreover from False have "autoPrepareEffect C (recordDeps s) = prepareOauthUrl C (recordDeps s)"
    by (simp add: autoPrepareEffect_def recordDeps_def)
  ultimately show ?thesis by (simp add: prepare_recordDeps)
qed

lemma cancel_rendered:
  "cancelEffect C (s\<lparr> renderedShow := a, renderedTab := b, renderedUrl := c \<rparr>)
     = (cancelEffect C s)\<lparr> renderedShow := a, renderedTab := b, renderedUrl := c \<rparr>"
  by (simp add: cancelEffect_def)

lemma cancel_fixed_recordDeps:
  "cancelEffect C s = s \<Longrightarrow> cancelEffect C (recordDeps s) = recordDeps s"
  by (simp add: recordDeps_def cancel_rendered)

lemma recordDeps_twice: "recordDeps (recordDeps s) = recordDeps s"
  by (simp add: recordDeps_def)

lemma recordDeps_modal:
  "showAddModal (recordDeps s) = showAddModal s"
  "addTab (recordDeps s) = addTab s"
  "oauthUrl (recordDeps s) = oauthUrl s"
  "showAddModalRef (recordDeps s) = showAddModalRef s"
  "addTabRef (recordDeps s) = addTabRef s"
  "renderedShow (recordDeps s) = showAddModal s"
  "renderedTab (recordDeps s) = addTab s"
  "renderedUrl (recordDeps s) = oauthUrl s"
  by (simp_all add: recordDeps_def)

lemma syncRefs_modal:
  "showAddModal (syncRefs s) = showAddModal s"
  "addTab (syncRefs s) = addTab s"
  "showAddModalRef (syncRefs s) = showAddModal s"
  "addTabRef (syncRefs s) = addTab s"
  by (simp_all add: syncRefs_def)

lemma render_shape:
  "\<exists>z. render C s = recordDeps z \<and> showAddModalRef z = showAddModal z \<and> addTabRef z = addTab z
       \<and> (\<not> stableOauthService C \<longrightarrow> autoPrepareEffect C z = z \<and> cancelEffect C z = z)"
proof -
  let ?y = "syncRefs s"
  let ?p = "if \<not> stableOauthService C
                    \<or> showAddModal s \<noteq> renderedShow s \<or> addTab s \<noteq> renderedTab s
                    \<or> oauthUrl s \<noteq> renderedUrl s
            then autoPrepareEffect C ?y else ?y"
  let ?k = "if \<not> stableOauthService C
                    \<or> showAddModal s \<noteq> renderedShow s \<or> addTab s \<noteq> renderedTab s
            then cancelEffect C ?p else ?p"
  have r: "render C s = recordDeps ?k"
    by (simp add: render_def Let_def recordDeps_def)
  have refs: "showAddModalRef ?k = showAddModal ?k" "addTabRef ?k = addTab ?k"
    by (simp_all add: cancel_modal autoPrepare_modal syncRefs_modal)
  have fixed: "\<not> stableOauthService C \<longrightarrow> autoPrepareEffect C ?k = ?k \<and> cancelEffect C ?k = ?k"
    by (simp add: cancel_twice autoPrepare_after_cancel autoPrepare_twice)
  from r refs fixed show ?thesis by blast
qed

text \<open>
  The render that follows the effects of a render changes nothing: one pass of
  \<^verbatim>\<open>render\<close> is the state in which React comes to rest.
\<close>

lemma render_settles: "render C (render C s) = render C s"
proof -
  obtain z where z: "render C s = recordDeps z" "showAddModalRef z = showAddModal z"
      "addTabRef z = addTab z"
      "\<not> stableOauthService C \<longrightarrow> autoPrepareEffect C z = z \<and> cancelEffect C z = z"
    using render_shape by blast
  have y: "syncRefs (recordDeps z) = recordDeps z"
    by (rule syncRefs_fixed) (simp_all add: recordDeps_modal z)
  have "render C (recordDeps z) = recordDeps z"
  proof (cases "stableOauthService C")
    case True
    then show ?thesis
      by (simp add: render_def Let_def recordDeps_modal y)
  next
    case False
    with z have "autoPrepareEffect C (recordDeps z) = recordDeps z"
      "cancelEffect C (recordDeps z) = recordDeps z"
      by (simp_all add: autoPrepare_recordDeps cancel_fixed_recordDeps)
    with False y show ?thesis
      by (simp add: render_unstable recordDeps_twice)
  qed
  with z show ?thesis by simp
qed

text \<open>
  C7, as stated, on a modal that is opened on the oauth tab, closed while
  \<^verbatim>\<open>completeLogin\<close> is pending, and opened again: closing cancels the login and clears the
  completion flag, the second opening starts a new login, and when its
  \<^verbatim>\<open>startLogin\<close> resolves a second \<^verbatim>\<open>completeLogin\<close> is called while the promise of the
  first has not settled. This holds whether or not the service object is stable.
\<close>

theorem reopen_second_completeLogin_counterexample:
  "map_option pendingComplete
     (run (exampleConfig False)
        [OpenAddModal ''oauth'', StartLoginResolved (exampleResponse ''L1''), CloseAddModal,
         OpenAddModal ''oauth'', StartLoginResolved (exampleResponse ''L2'')]
        initialState) = Some 2
   \<and> map_option completeCalls
     (run (exampleConfig False)
        [OpenAddModal ''oauth'', StartLoginResolved (exampleResponse ''L1''), CloseAddModal,
         OpenAddModal ''oauth'', StartLoginResolved (exampleResponse ''L2'')]
        initialState) = Some [''L1'', ''L2'']
   \<and> map_option pendingComplete
     (run (exampleConfig True)
        [OpenAddModal ''oauth'', StartLoginResolved (exampleResponse ''L1''), CloseAddModal,
         OpenAddModal ''oauth'', StartLoginResolved (exampleResponse ''L2'')]
        initialState) = Some 2"
  by code_simp

lemma run_append:
  "run C (xs @ ys) s = (case run C xs s of None \<Rightarrow> None | Some s' \<Rightarrow> run C ys s')"
  by (induction xs arbitrary: s) (simp_all split: option.splits)

text \<open>
  C7, amended. Take any state that the hook can reach in which the add-modal is closed
  and no \<^verbatim>\<open>startLogin\<close>, \<^verbatim>\<open>completeLogin\<close>, fetch of the accounts or success timer is
  pending; the state of a new hook is one. When the add-modal is opened there on the oauth
  tab, and as long as only renders, backend answers (a start answer with a URL to show)
  and the success timer happen, at most one \<^verbatim>\<open>startLogin\<close> and at most one
  \<^verbatim>\<open>completeLogin\<close> call are pending, \<^verbatim>\<open>completeLogin\<close> is called at most once since the
  opening and not while a start is pending, and \<^verbatim>\<open>startLogin\<close> is called once since the
  opening, plus at most once for every start that was rejected. In every state
  \<^verbatim>\<open>prepareOauthUrl\<close> does nothing while one of the two guard flags is set, and a start
  that resolves calls \<^verbatim>\<open>completeLogin\<close> once, with the id of the login, and sets the
  completion flag.
\<close>

theorem oauth_single_flight:
  "(hasOauthService C \<and> run C es0 initialState = Some s0
      \<and> \<not> showAddModal s0 \<and> pendingStart s0 = 0 \<and> pendingComplete s0 = 0
      \<and> pendingFetch s0 = 0 \<and> pendingTimers s0 = 0
      \<and> list_all isPassive es
      \<and> run C (OpenAddModal ''oauth'' # es) s0 = Some s
    \<longrightarrow> pendingStart s \<le> 1 \<and> pendingComplete s \<le> 1
        \<and> length (completeCalls s) \<le> length (completeCalls s0) + 1
        \<and> (pendingStart s = 0 \<or> length (completeCalls s) = length (completeCalls s0))
        \<and> startCalls s0 + 1 \<le> startCalls s
        \<and> startCalls s \<le> startCalls s0 + 1 + length (filter isStartRejected es))
   \<and> (oauthActiveRef s1 \<or> oauthCompletingRef s1 \<longrightarrow> prepareOauthUrl C s1 = s1)
   \<and> completeCalls (startLoginResolved resp s1) = completeCalls s1 @ [loginId resp]
   \<and> oauthCompletingRef (startLoginResolved resp s1)"
proof -
  have main: "hasOauthService C \<and> run C es0 initialState = Some s0
      \<and> \<not> showAddModal s0 \<and> pendingStart s0 = 0 \<and> pendingComplete s0 = 0
      \<and> pendingFetch s0 = 0 \<and> pendingTimers s0 = 0
      \<and> list_all isPassive es
      \<and> run C (OpenAddModal ''oauth'' # es) s0 = Some s
    \<longrightarrow> pendingStart s \<le> 1 \<and> pendingComplete s \<le> 1
        \<and> length (completeCalls s) \<le> length (completeCalls s0) + 1
        \<and> (pendingStart s = 0 \<or> length (completeCalls s) = length (completeCalls s0))
        \<and> startCalls s0 + 1 \<le> startCalls s
        \<and> startCalls s \<le> startCalls s0 + 1 + length (filter isStartRejected es)"
  proof
    assume h: "hasOauthService C \<and> run C es0 initialState = Some s0
      \<and> \<not> showAddModal s0 \<and> pendingStart s0 = 0 \<and> pendingComplete s0 = 0
      \<and> pendingFetch s0 = 0 \<and> pendingTimers s0 = 0
      \<and> list_all isPassive es
      \<and> run C (OpenAddModal ''oauth'' # es) s0 = Some s"
    let ?o = "render C (openAddModal ''oauth'' s0)"
    let ?c = "length (completeCalls s0)"
    from h have reach: "reachInv s0"
      using run_reachInv[OF reachInv_initial] by blast
    from h have r: "run C es ?o = Some s" by simp
    from h reach have o: "flowInv ?c ?o" "startBudget ?c (startCalls s0) ?o 0"
        "startCalls ?o = startCalls s0 + 1"
      using open_inv[of C s0] by simp_all
    from h have p: "list_all isPassive es" by simp
    from run_inv[OF o(1,2) p r]
    have i: "flowInv ?c s"
      and b: "startBudget ?c (startCalls s0) s (length (filter isStartRejected es))"
      and m: "startCalls ?o \<le> startCalls s" by simp_all
    from i have a: "pendingStart s + length (completeCalls s) \<le> ?c + 1"
      and g: "?c \<le> length (completeCalls s)"
      and c: "pendingComplete s + pendingFetch s + pendingTimers s + ?c
                \<le> length (completeCalls s)"
      by (simp_all add: flowInv_def)
    from a g have a1: "pendingStart s \<le> 1" "length (completeCalls s) \<le> ?c + 1" by linarith+
    from a c have a2: "pendingComplete s \<le> 1" by linarith
    from a g have a3: "pendingStart s = 0 \<or> length (completeCalls s) = ?c" by linarith
    from b have a4: "startCalls s \<le> startCalls s0 + 1 + length (filter isStartRejected es)"
      by (simp add: startBudget_def split: if_splits)
    from m o(3) have a5: "startCalls s0 + 1 \<le> startCalls s" by simp
    from a1 a2 a3 a4 a5
    show "pendingStart s \<le> 1 \<and> pendingComplete s \<le> 1
        \<and> length (completeCalls s) \<le> length (completeCalls s0) + 1
        \<and> (pendingStart s = 0 \<or> length (completeCalls s) = length (completeCalls s0))
        \<and> startCalls s0 + 1 \<le> startCalls s
        \<and> startCalls s \<le> startCalls s0 + 1 + length (filter isStartRejected es)"
      by (intro conjI)
  qed
  have guard: "oauthActiveRef s1 \<or> oauthCompletingRef s1 \<longrightarrow> prepareOauthUrl C s1 = s1"
    using prepareOauthUrl_guard[of s1 C] by blast
  have once: "completeCalls (startLoginResolved resp s1) = completeCalls s1 @ [loginId resp]"
    "oauthCompletingRef (startLoginResolved resp s1)"
    by (simp_all add: startLoginResolved_def)
  from main guard once show ?thesis by (intro conjI)
qed

theorem oauth_single_flight_witness:
  "map_option startCalls
     (run (exampleConfig False) (exampleEarlierFlow @ OpenAddModal ''oauth'' # exampleFlow)
        initialState) = Some 3
   \<and> map_option completeCalls
       (run (exampleConfig False) (exampleEarlierFlow @ OpenAddModal ''oauth'' # exampleFlow)
          initialState) = Some [''L0'', ''L1'']
   \<and> (case run (exampleConfig False) (exampleEarlierFlow @ OpenAddModal ''oauth'' # exampleFlow)
              initialState of
         None \<Rightarrow> False
       | Some s \<Rightarrow> pendingStart s \<le> 1 \<and> pendingComplete s \<le> 1 \<and> length (completeCalls s) \<le> 2
                   \<and> 2 \<le> startCalls s \<and> startCalls s \<le> 3)"
proof -
  let ?C = "exampleConfig False"
  have c: "map_option startCalls
       (run ?C (exampleEarlierFlow @ OpenAddModal ''oauth'' # exampleFlow) initialState) = Some 3"
    "map_option completeCalls
       (run ?C (exampleEarlierFlow @ OpenAddModal ''oauth'' # exampleFlow) initialState)
     = Some [''L0'', ''L1'']"
    by code_simp+
  have e: "map_option showAddModal (run ?C exampleEarlierFlow initialState) = Some False"
    "map_option pendingStart (run ?C exampleEarlierFlow initialState) = Some 0"
    "map_option pendingComplete (run ?C exampleEarlierFlow initialState) = Some 0"
    "map_option pendingFetch (run ?C exampleEarlierFlow initialState) = Some 0"
    "map_option pendingTimers (run ?C exampleEarlierFlow initialState) = Some 0"
    "map_option startCalls (run ?C exampleEarlierFlow initialState) = Some 1"
    "map_option completeCalls (run ?C exampleEarlierFlow initialState) = Some [''L0'']"
    by code_simp+
  then obtain s0 where s0: "run ?C exampleEarlierFlow initialState = Some s0"
    by (cases "run ?C exampleEarlierFlow initialState") simp_all
  from c obtain s where s:
      "run ?C (exampleEarlierFlow @ OpenAddModal ''oauth'' # exampleFlow) initialState = Some s"
    by (cases "run ?C (exampleEarlierFlow @ OpenAddModal ''oauth'' # exampleFlow) initialState")
      simp_all
  from s s0 have s': "run ?C (OpenAddModal ''oauth'' # exampleFlow) s0 = Some s"
    by (simp add: run_append del: run.simps)
  from e s0 have q: "\<not> showAddModal s0" "pendingStart s0 = 0" "pendingComplete s0 = 0"
    "pendingFetch s0 = 0" "pendingTimers s0 = 0" "startCalls s0 = 1"
    "length (completeCalls s0) = 1"
    by simp_all
  have h: "hasOauthService ?C" by (simp add: exampleConfig_def)
  have p: "list_all isPassive exampleFlow" by code_simp
  have n: "length (filter isStartRejected exampleFlow) = 1" by code_simp
  from oauth_single_flight[of ?C exampleEarlierFlow s0 exampleFlow s initialState
      "exampleResponse ''L1''"] h p s0 s' q n
  have "pendingStart s \<le> 1 \<and> pendingComplete s \<le> 1 \<and> length (completeCalls s) \<le> 2
          \<and> 2 \<le> startCalls s \<and> startCalls s \<le> 3"
    by simp
  with c s show ?thesis by simp
qed

end
